(* ===== verification/Prelude.thy ===== *)
theory Prelude
  imports Main "HOL-Library.AList" "HOL-Library.Char_ord" "HOL-Library.List_Lexorder"
    "HOL-Library.Multiset"
begin

text \<open>
  What every component of the service shares, and nothing of the service itself: the value a Go
  call returns (a value, an error, a panic), the state-passing form of a Go function, Go maps
  (nil or allocated, with the order in which \<open>range\<close> visits them), Go slices that share a backing
  array, and the functions of the package \<open>strings\<close> the source calls. The collections
  \<open>go_simps\<close> (unfolding of the state-passing combinators), \<open>go_keeps\<close> (preservation of an
  invariant by a state-passing program) and \<open>go_yields\<close> (what the values it returns satisfy) carry
  the component proofs.
\<close>

named_theorems go_simps
named_theorems go_keeps
named_theorems go_yields

section \<open>Errors and results\<close>

text \<open>
  The error values of the source: the three structs of \<open>exceptions/\<close>, the struct
  \<open>ErrorWrapper\<close> of \<open>domain/wrappers\<close>, package-level error values that are compared by identity
  (each named by its message), and every other error, which only carries its message.
\<close>

datatype go_error =
    TenantNotFoundError string
  | TenantIsNotActiveError string
  | OpenShiftPermissionError string
  | ErrorWrapper int string
  | SentinelError string
  | PlainError string

text \<open>\<open>err.Error()\<close>\<close>

fun err_message :: "go_error \<Rightarrow> string" where
  "err_message (TenantNotFoundError m) = m"
| "err_message (TenantIsNotActiveError m) = m"
| "err_message (OpenShiftPermissionError m) = m"
| "err_message (ErrorWrapper c m) = m"
| "err_message (SentinelError m) = m"
| "err_message (PlainError m) = m"

text \<open>A Go call returns a value, returns an error, or panics.\<close>

datatype 'a result = Ok 'a | Err go_error | Panic string

type_synonym ('s, 'a) go = "'s \<Rightarrow> 'a result \<times> 's"

definition gret :: "'a \<Rightarrow> ('s, 'a) go" where
  "gret x = (\<lambda>s. (Ok x, s))"

definition gerr :: "go_error \<Rightarrow> ('s, 'a) go" where
  "gerr e = (\<lambda>s. (Err e, s))"

definition gpanic :: "string \<Rightarrow> ('s, 'a) go" where
  "gpanic p = (\<lambda>s. (Panic p, s))"

definition gget :: "('s \<Rightarrow> 'a) \<Rightarrow> ('s, 'a) go" where
  "gget f = (\<lambda>s. (Ok (f s), s))"

definition gmodify :: "('s \<Rightarrow> 's) \<Rightarrow> ('s, unit) go" where
  "gmodify f = (\<lambda>s. (Ok (), f s))"

text \<open>
  \<open>gbind m f\<close> is \<open>x, err := m; if err != nil \<lbrace> return err \<rbrace>; f(x)\<close>; a panic of \<open>m\<close> unwinds.
\<close>

definition gbind :: "('s, 'a) go \<Rightarrow> ('a \<Rightarrow> ('s, 'b) go) \<Rightarrow> ('s, 'b) go" where
  "gbind m f = (\<lambda>s. case m s of
       (Ok x, t) \<Rightarrow> f x t
     | (Err e, t) \<Rightarrow> (Err e, t)
     | (Panic p, t) \<Rightarrow> (Panic p, t))"

text \<open>\<open>gtry m f\<close> hands the error to the code that follows, which inspects it; a panic unwinds.\<close>

definition gtry :: "('s, 'a) go \<Rightarrow> (go_error + 'a \<Rightarrow> ('s, 'b) go) \<Rightarrow> ('s, 'b) go" where
  "gtry m f = (\<lambda>s. case m s of
       (Ok x, t) \<Rightarrow> f (Inr x) t
     | (Err e, t) \<Rightarrow> f (Inl e) t
     | (Panic p, t) \<Rightarrow> (Panic p, t))"

text \<open>A \<open>for range\<close> loop whose body may fail: the first failure leaves the loop.\<close>

fun gfor :: "'x list \<Rightarrow> ('x \<Rightarrow> ('s, unit) go) \<Rightarrow> ('s, unit) go" where
  "gfor [] body = gret ()"
| "gfor (x # xs) body = gbind (body x) (\<lambda>_. gfor xs body)"

text \<open>The same with an accumulator, the variable the loop builds up.\<close>

fun gfold :: "'x list \<Rightarrow> 'a \<Rightarrow> ('x \<Rightarrow> 'a \<Rightarrow> ('s, 'a) go) \<Rightarrow> ('s, 'a) go" where
  "gfold [] acc body = gret acc"
| "gfold (x # xs) acc body = gbind (body x acc) (\<lambda>acc'. gfold xs acc' body)"

lemma gret_run [go_simps]: "gret x s = (Ok x, s)"
  by (simp add: gret_def)

lemma gerr_run [go_simps]: "gerr e s = (Err e, s)"
  by (simp add: gerr_def)

lemma gpanic_run [go_simps]: "gpanic p s = (Panic p, s)"
  by (simp add: gpanic_def)

lemma gget_run [go_simps]: "gget f s = (Ok (f s), s)"
  by (simp add: gget_def)

lemma gmodify_run [go_simps]: "gmodify f s = (Ok (), f s)"
  by (simp add: gmodify_def)

lemma gbind_run [go_simps]:
  "gbind m f s = (case m s of
       (Ok x, t) \<Rightarrow> f x t
     | (Err e, t) \<Rightarrow> (Err e, t)
     | (Panic p, t) \<Rightarrow> (Panic p, t))"
  by (simp add: gbind_def)

lemma gtry_run [go_simps]:
  "gtry m f s = (case m s of
       (Ok x, t) \<Rightarrow> f (Inr x) t
     | (Err e, t) \<Rightarrow> f (Inl e) t
     | (Panic p, t) \<Rightarrow> (Panic p, t))"
  by (simp add: gtry_def)

lemma gbind_OkE:
  assumes "gbind m f s = (Ok y, u)"
  obtains x t where "m s = (Ok x, t)" and "f x t = (Ok y, u)"
  using assms by (auto simp: gbind_def split: prod.splits result.splits)

lemma gfold_append:
  "gfold (xs @ ys) acc body = gbind (gfold xs acc body) (\<lambda>a. gfold ys a body)"
  by (induction xs arbitrary: acc)
    (auto simp: gbind_def gret_def fun_eq_iff split: prod.splits result.splits)

text \<open>\<open>defer\<close>: the cleanup runs however the rest ends, its own error is dropped.\<close>

definition gdefer :: "('s, unit) go \<Rightarrow> ('s, 'a) go \<Rightarrow> ('s, 'a) go" where
  "gdefer cleanup m = (\<lambda>s. case m s of (r, t) \<Rightarrow>
     (case cleanup t of (Panic p, u) \<Rightarrow> (Panic p, u) | (_, u) \<Rightarrow> (r, u)))"

subsection \<open>Invariants of state-passing programs\<close>

text \<open>
  \<open>keeps P m\<close>: however \<open>m\<close> ends (value, error or panic), the state it leaves satisfies \<open>P\<close> if the
  state it started from did.
\<close>

definition keeps :: "('s \<Rightarrow> bool) \<Rightarrow> ('s, 'a) go \<Rightarrow> bool" where
  "keeps P m \<longleftrightarrow> (\<forall>s. P s \<longrightarrow> P (snd (m s)))"

lemma keepsD: "keeps P m \<Longrightarrow> P s \<Longrightarrow> P (snd (m s))"
  by (simp add: keeps_def)

lemma keepsI: "(\<And>s. P s \<Longrightarrow> P (snd (m s))) \<Longrightarrow> keeps P m"
  by (simp add: keeps_def)

lemma keeps_gret [go_keeps]: "keeps P (gret x)"
  by (simp add: keeps_def gret_def)

lemma keeps_gerr [go_keeps]: "keeps P (gerr e)"
  by (simp add: keeps_def gerr_def)

lemma keeps_gpanic [go_keeps]: "keeps P (gpanic p)"
  by (simp add: keeps_def gpanic_def)

lemma keeps_gget [go_keeps]: "keeps P (gget f)"
  by (simp add: keeps_def gget_def)

lemma keeps_gmodify: "(\<And>s. P s \<Longrightarrow> P (f s)) \<Longrightarrow> keeps P (gmodify f)"
  by (simp add: keeps_def gmodify_def)

lemma keeps_gbind [go_keeps]:
  assumes "keeps P m" and "\<And>x. keeps P (f x)"
  shows "keeps P (gbind m f)"
proof (rule keepsI)
  fix s assume P: "P s"
  obtain r t where m: "m s = (r, t)" by (cases "m s")
  with P assms(1) have "P t" by (auto dest: keepsD)
  then show "P (snd (gbind m f s))"
    using m keepsD [OF assms(2)] by (cases r) (auto simp: gbind_def)
qed

lemma keeps_gtry [go_keeps]:
  assumes "keeps P m" and "\<And>x. keeps P (f x)"
  shows "keeps P (gtry m f)"
proof (rule keepsI)
  fix s assume P: "P s"
  obtain r t where m: "m s = (r, t)" by (cases "m s")
  with P assms(1) have "P t" by (auto dest: keepsD)
  then show "P (snd (gtry m f s))"
    using m keepsD [OF assms(2)] by (cases r) (auto simp: gtry_def)
qed

lemma keeps_gfor [go_keeps]:
  assumes "\<And>x. keeps P (body x)"
  shows "keeps P (gfor xs body)"
  by (induction xs) (auto intro: go_keeps assms)

lemma keeps_gfold [go_keeps]:
  assumes "\<And>x acc. keeps P (body x acc)"
  shows "keeps P (gfold xs acc body)"
  by (induction xs arbitrary: acc) (auto intro: go_keeps assms)

lemma keeps_if [go_keeps]: "keeps P m \<Longrightarrow> keeps P m' \<Longrightarrow> keeps P (if b then m else m')"
  by simp

lemma keeps_case_sum [go_keeps]:
  "(\<And>e. keeps P (f e)) \<Longrightarrow> (\<And>x. keeps P (g x)) \<Longrightarrow>
     keeps P (case r of Inl e \<Rightarrow> f e | Inr x \<Rightarrow> g x)"
  by (cases r) auto

lemma keeps_case_option [go_keeps]:
  "keeps P m \<Longrightarrow> (\<And>x. keeps P (g x)) \<Longrightarrow> keeps P (case r of None \<Rightarrow> m | Some x \<Rightarrow> g x)"
  by (cases r) auto

lemma keeps_case_list [go_keeps]:
  "keeps P m \<Longrightarrow> (\<And>x xs. keeps P (f x xs)) \<Longrightarrow> keeps P (case l of [] \<Rightarrow> m | x # xs \<Rightarrow> f x xs)"
  by (cases l) auto

lemma keeps_case_prod [go_keeps]: "(\<And>a b. keeps P (f a b)) \<Longrightarrow> keeps P (case p of (a, b) \<Rightarrow> f a b)"
  by (cases p) auto

lemma keeps_case_prod_app [go_keeps]:
  "(\<And>a b. keeps P (f a b y)) \<Longrightarrow> keeps P ((case p of (a, b) \<Rightarrow> f a b) y)"
  by (cases p) auto

lemma keeps_Let [go_keeps]: "(\<And>x. keeps P (f x)) \<Longrightarrow> keeps P (let x = v in f x)"
  by simp

lemma keeps_state_if [go_keeps]:
  "keeps P m \<Longrightarrow> keeps P m' \<Longrightarrow> keeps P (\<lambda>s. if c s then m s else m' s)"
  by (simp add: keeps_def)

subsection \<open>What a program returns\<close>

text \<open>\<open>yields Q m\<close>: every value that \<open>m\<close> returns without an error satisfies \<open>Q\<close>.\<close>

definition yields :: "('a \<Rightarrow> bool) \<Rightarrow> ('s, 'a) go \<Rightarrow> bool" where
  "yields Q m \<longleftrightarrow> (\<forall>s x t. m s = (Ok x, t) \<longrightarrow> Q x)"

lemma yieldsI: "(\<And>s x t. m s = (Ok x, t) \<Longrightarrow> Q x) \<Longrightarrow> yields Q m"
  by (simp add: yields_def)

lemma yieldsD: "yields Q m \<Longrightarrow> m s = (Ok x, t) \<Longrightarrow> Q x"
  by (auto simp: yields_def)

lemma yields_gret [go_yields]: "Q x \<Longrightarrow> yields Q (gret x)"
  by (simp add: yields_def gret_def)

lemma yields_gerr [go_yields]: "yields Q (gerr e)"
  by (simp add: yields_def gerr_def)

lemma yields_gpanic [go_yields]: "yields Q (gpanic p)"
  by (simp add: yields_def gpanic_def)

lemma yields_gbind:
  assumes "yields R m" and "\<And>x. R x \<Longrightarrow> yields Q (f x)"
  shows "yields Q (gbind m f)"
  using assms by (auto simp: yields_def elim!: gbind_OkE) metis

lemma yields_gbind_any [go_yields]: "(\<And>x. yields Q (f x)) \<Longrightarrow> yields Q (gbind m f)"
  using yields_gbind [of "\<lambda>_. True" m Q f] by (simp add: yields_def)

lemma yields_gtry [go_yields]:
  assumes "\<And>x. yields Q (f x)"
  shows "yields Q (gtry m f)"
proof (rule yieldsI)
  fix s x t assume "gtry m f s = (Ok x, t)"
  then show "Q x" using assms by (auto simp: gtry_run yields_def split: prod.splits result.splits)
qed

lemma yields_if [go_yields]:
  "(b \<Longrightarrow> yields Q m) \<Longrightarrow> (\<not> b \<Longrightarrow> yields Q m') \<Longrightarrow> yields Q (if b then m else m')"
  by simp

lemma yields_case_sum [go_yields]:
  "(\<And>e. r = Inl e \<Longrightarrow> yields Q (f e)) \<Longrightarrow> (\<And>x. r = Inr x \<Longrightarrow> yields Q (g x)) \<Longrightarrow>
     yields Q (case r of Inl e \<Rightarrow> f e | Inr x \<Rightarrow> g x)"
  by (cases r) auto

lemma yields_case_option [go_yields]:
  "yields Q m \<Longrightarrow> (\<And>x. yields Q (g x)) \<Longrightarrow> yields Q (case r of None \<Rightarrow> m | Some x \<Rightarrow> g x)"
  by (cases r) auto

lemma yields_case_prod [go_yields]:
  "(\<And>a b. p = (a, b) \<Longrightarrow> yields Q (f a b)) \<Longrightarrow> yields Q (case p of (a, b) \<Rightarrow> f a b)"
  by (cases p) auto

lemma yields_Let [go_yields]: "(\<And>x. yields Q (f x)) \<Longrightarrow> yields Q (let x = v in f x)"
  by simp

subsection \<open>Programs on a part of the state\<close>

definition gzoom :: "('s \<Rightarrow> 't) \<Rightarrow> ('t \<Rightarrow> 's \<Rightarrow> 's) \<Rightarrow> ('t, 'a) go \<Rightarrow> ('s, 'a) go" where
  "gzoom get put m = (\<lambda>s. case m (get s) of (r, t) \<Rightarrow> (r, put t s))"

lemma gzoom_run [go_simps]: "gzoom get put m s = (case m (get s) of (r, t) \<Rightarrow> (r, put t s))"
  by (simp add: gzoom_def)

lemma gzoom_fst: "fst (gzoom get put m s) = fst (m (get s))"
  by (simp add: gzoom_def split: prod.split)

lemma gzoom_snd: "snd (gzoom get put m s) = put (snd (m (get s))) s"
  by (simp add: gzoom_def split: prod.split)

lemma keeps_gzoom: "(\<And>t s. P s \<Longrightarrow> P (put t s)) \<Longrightarrow> keeps P (gzoom get put m)"
  by (auto simp: keeps_def gzoom_def split: prod.split)

section \<open>Go maps\<close>

text \<open>
  A Go map is nil or allocated. The list gives the entries in the order in which a \<open>range\<close> loop
  visits them; Go leaves that order open, and every theorem holds for every list, so for every
  order. A lookup in a nil map finds nothing, a \<open>delete\<close> in it does nothing, a write panics.
\<close>

datatype ('k, 'v) gomap = NilMap | GoMap "('k \<times> 'v) list"

fun ments :: "('k, 'v) gomap \<Rightarrow> ('k \<times> 'v) list" where
  "ments NilMap = []"
| "ments (GoMap es) = es"

abbreviation mlookup :: "('k, 'v) gomap \<Rightarrow> 'k \<Rightarrow> 'v option" where
  "mlookup m k \<equiv> map_of (ments m) k"

abbreviation mkeys :: "('k, 'v) gomap \<Rightarrow> 'k list" where
  "mkeys m \<equiv> map fst (ments m)"

definition mempty :: "('k, 'v) gomap" where
  "mempty = GoMap []"

fun mput :: "'k \<Rightarrow> 'v \<Rightarrow> ('k, 'v) gomap \<Rightarrow> ('k, 'v) gomap result" where
  "mput k v NilMap = Panic ''assignment to entry in nil map''"
| "mput k v (GoMap es) = Ok (GoMap (AList.update k v es))"

fun mdelete :: "'k \<Rightarrow> ('k, 'v) gomap \<Rightarrow> ('k, 'v) gomap" where
  "mdelete k NilMap = NilMap"
| "mdelete k (GoMap es) = GoMap (AList.delete k es)"

fun mmap :: "('k \<Rightarrow> 'v \<Rightarrow> 'w) \<Rightarrow> ('k, 'v) gomap \<Rightarrow> ('k, 'w) gomap" where
  "mmap f NilMap = NilMap"
| "mmap f (GoMap es) = GoMap (map (\<lambda>(k, v). (k, f k v)) es)"

text \<open>The keys of a map are distinct.\<close>

definition mwf :: "('k, 'v) gomap \<Rightarrow> bool" where
  "mwf m \<longleftrightarrow> distinct (mkeys m)"

lemma ments_mempty [simp]: "ments mempty = []"
  by (simp add: mempty_def)

lemma mwf_mempty [simp]: "mwf mempty"
  by (simp add: mwf_def)

lemma mwf_NilMap [simp]: "mwf NilMap"
  by (simp add: mwf_def)

lemma mwf_GoMap [simp]: "mwf (GoMap es) \<longleftrightarrow> distinct (map fst es)"
  by (simp add: mwf_def)

lemma ments_mdelete [simp]: "ments (mdelete k m) = AList.delete k (ments m)"
  by (cases m) auto

lemma mwf_mdelete [simp]: "mwf m \<Longrightarrow> mwf (mdelete k m)"
  by (cases m) (auto simp: distinct_delete)

lemma ments_mmap [simp]: "ments (mmap f m) = map (\<lambda>(k, v). (k, f k v)) (ments m)"
  by (cases m) auto

lemma mkeys_mmap [simp]: "mkeys (mmap f m) = mkeys m"
  by (simp add: comp_def case_prod_beta)

lemma mwf_mmap [simp]: "mwf (mmap f m) = mwf m"
  by (simp add: mwf_def comp_def case_prod_beta)

lemma map_of_map_kv [simp]: "map_of (map (\<lambda>(k, v). (k, f k v)) es) x = map_option (f x) (map_of es x)"
  by (induction es) auto

lemma mlookup_mmap: "mlookup (mmap f m) k = map_option (f k) (mlookup m k)"
  by simp

lemma mwf_mput: "mwf m \<Longrightarrow> mput k v m = Ok m' \<Longrightarrow> mwf m'"
  by (cases m) (auto simp: distinct_update)

lemma mlookup_mput: "mput k v m = Ok m' \<Longrightarrow> mlookup m' x = (if x = k then Some v else mlookup m x)"
  by (cases m) (auto simp: update_conv')

lemma mlookup_in: "mwf m \<Longrightarrow> mlookup m k = Some v \<longleftrightarrow> (k, v) \<in> set (ments m)"
  by (simp add: mwf_def)

lemma map_of_update_alist [simp]:
  "map_of (AList.update k v es) x = (if x = k then Some v else map_of es x)"
  by (simp add: update_conv')

lemma map_of_delete_alist [simp]:
  "map_of (AList.delete k es) x = (if x = k then None else map_of es x)"
  by (simp add: delete_conv')

lemma keys_update_alist: "set (map fst (AList.update k v es)) = insert k (set (map fst es))"
  by (induction es) auto

lemma in_update_alist: "e \<in> set (AList.update k v es) \<Longrightarrow> e = (k, v) \<or> e \<in> set es"
  by (induction es) (auto split: if_splits)

lemma set_delete_subset: "set (AList.delete k es) \<subseteq> set es"
  by (auto simp: AList.delete_eq)

lemma distinct_update_alist [simp]:
  "distinct (map fst es) \<Longrightarrow> distinct (map fst (AList.update k v es))"
  by (rule distinct_update)

lemma concat_map_Nil: "concat (map f xs) = [] \<longleftrightarrow> (\<forall>x \<in> set xs. f x = [])"
  by auto

lemma concat_map_pair_Nil:
  "concat (map (\<lambda>(a, b). f a b) xs) = [] \<longleftrightarrow> (\<forall>a b. (a, b) \<in> set xs \<longrightarrow> f a b = [])"
  by auto

lemma if_list_Nil: "(if c then xs else []) = [] \<longleftrightarrow> (c \<longrightarrow> xs = [])"
  by auto

lemma option_eqI: "(\<And>x. a = Some x \<longleftrightarrow> b = Some x) \<Longrightarrow> a = b"
  by (cases a; cases b) auto

end
