(* ===== verification/GoLib.thy ===== *)
theory GoLib
  imports Prelude
begin

text \<open>
  The parts of Go's standard library and of the language the service computes with: the package
  \<open>strings\<close>, \<open>strconv.Atoi\<close> and \<open>strconv.Itoa\<close>, and slices that share a backing array. A Go
  string is a list of bytes; case conversion and \<open>strings.Title\<close> are the ASCII ones (bytes from
  0x80 on are kept), which is what they do on host names, service names and annotation keys.
\<close>

section \<open>Package strings\<close>

definition byte :: "char \<Rightarrow> nat" where
  "byte c = of_char c"

definition HasPrefix :: "string \<Rightarrow> string \<Rightarrow> bool" where
  "HasPrefix s p \<longleftrightarrow> take (length p) s = p"

definition TrimPrefix :: "string \<Rightarrow> string \<Rightarrow> string" where
  "TrimPrefix s p = (if HasPrefix s p then drop (length p) s else s)"

text \<open>\<open>strings.Index\<close>: the first position at which \<open>p\<close> occurs, none for Go's -1.\<close>

fun Index :: "string \<Rightarrow> string \<Rightarrow> nat option" where
  "Index [] p = (if p = [] then Some 0 else None)"
| "Index (c # s) p = (if HasPrefix (c # s) p then Some 0 else map_option Suc (Index s p))"

text \<open>\<open>strings.LastIndex\<close> of a single byte.\<close>

fun LastIndexByte :: "string \<Rightarrow> char \<Rightarrow> nat option" where
  "LastIndexByte [] c = None"
| "LastIndexByte (x # s) c = (case LastIndexByte s c of
      Some i \<Rightarrow> Some (Suc i)
    | None \<Rightarrow> if x = c then Some 0 else None)"

definition IndexByte :: "string \<Rightarrow> char \<Rightarrow> nat option" where
  "IndexByte s c = (if c \<in> set s then Some (length (takeWhile (\<lambda>x. x \<noteq> c) s)) else None)"

text \<open>\<open>strings.Cut\<close> at a single byte: before, after, found.\<close>

definition Cut :: "string \<Rightarrow> char \<Rightarrow> string \<times> string \<times> bool" where
  "Cut s c = (takeWhile (\<lambda>x. x \<noteq> c) s, tl (dropWhile (\<lambda>x. x \<noteq> c) s), c \<in> set s)"

text \<open>\<open>strings.Split\<close> at a single byte: never empty.\<close>

fun Split :: "string \<Rightarrow> char \<Rightarrow> string list" where
  "Split [] c = [[]]"
| "Split (x # s) c =
     (if x = c then [] # Split s c
      else (case Split s c of [] \<Rightarrow> [[x]] | p # ps \<Rightarrow> (x # p) # ps))"

definition is_upper :: "char \<Rightarrow> bool" where
  "is_upper c \<longleftrightarrow> 65 \<le> byte c \<and> byte c \<le> 90"

definition is_lower :: "char \<Rightarrow> bool" where
  "is_lower c \<longleftrightarrow> 97 \<le> byte c \<and> byte c \<le> 122"

definition is_digit :: "char \<Rightarrow> bool" where
  "is_digit c \<longleftrightarrow> 48 \<le> byte c \<and> byte c \<le> 57"

definition is_alnum :: "char \<Rightarrow> bool" where
  "is_alnum c \<longleftrightarrow> is_upper c \<or> is_lower c \<or> is_digit c"

definition lower_char :: "char \<Rightarrow> char" where
  "lower_char c = (if is_upper c then char_of (byte c + 32) else c)"

definition upper_char :: "char \<Rightarrow> char" where
  "upper_char c = (if is_lower c then char_of (byte c - 32) else c)"

definition ToLower :: "string \<Rightarrow> string" where
  "ToLower s = map lower_char s"

text \<open>\<open>strings.ReplaceAll\<close> with a non-empty old string: leftmost, non-overlapping.\<close>

function ReplaceAll :: "string \<Rightarrow> string \<Rightarrow> string \<Rightarrow> string" where
  "ReplaceAll s old new =
     (if s = [] \<or> old = [] then s
      else if HasPrefix s old then new @ ReplaceAll (drop (length old) s) old new
      else hd s # ReplaceAll (tl s) old new)"
  by pat_completeness auto
termination
  by (relation "measure (\<lambda>(s, old, new). length s)") (auto simp: neq_Nil_conv)

declare ReplaceAll.simps [simp del]

text \<open>\<open>strings.Title\<close>: a letter that follows a separator is put in upper case.\<close>

definition is_separator :: "char \<Rightarrow> bool" where
  "is_separator c \<longleftrightarrow> byte c < 128 \<and> \<not> is_alnum c \<and> c \<noteq> CHR ''_''"

fun title_from :: "char \<Rightarrow> string \<Rightarrow> string" where
  "title_from prev [] = []"
| "title_from prev (c # s) = (if is_separator prev then upper_char c else c) # title_from c s"

definition Title :: "string \<Rightarrow> string" where
  "Title s = title_from (CHR '' '') s"

lemma byte_less [simp]: "byte c < 256"
  by (simp add: byte_def)

lemma byte_char_of [simp]: "n < 256 \<Longrightarrow> byte (char_of n) = n"
  by (simp add: byte_def)

lemma byte_inject [simp]: "byte c = byte d \<longleftrightarrow> c = d"
  by (simp add: byte_def)

lemma HasPrefix_append [simp]: "HasPrefix (p @ s) p"
  by (simp add: HasPrefix_def)

lemma HasPrefix_Nil [simp]: "HasPrefix s []"
  by (simp add: HasPrefix_def)

lemma HasPrefix_Cons [simp]: "HasPrefix (c # s) (d # p) \<longleftrightarrow> c = d \<and> HasPrefix s p"
  by (simp add: HasPrefix_def)

lemma HasPrefix_Nil2 [simp]: "HasPrefix [] (d # p) \<longleftrightarrow> False"
  by (simp add: HasPrefix_def)

lemma HasPrefixE:
  assumes "HasPrefix s p"
  obtains t where "s = p @ t"
  using assms append_take_drop_id [of "length p" s] by (metis HasPrefix_def)

lemma TrimPrefix_append [simp]: "TrimPrefix (p @ s) p = s"
  by (simp add: TrimPrefix_def)

lemma Split_not_Nil [simp]: "Split s c \<noteq> []"
  by (induction s) (auto split: list.splits)

lemma Split_no_sep: "c \<notin> set s \<Longrightarrow> Split s c = [s]"
  by (induction s) auto

lemma Split_append_sep:
  "c \<notin> set s \<Longrightarrow> Split (s @ c # t) c = s # Split t c"
  by (induction s) auto

lemma Split_parts_no_sep: "p \<in> set (Split s c) \<Longrightarrow> c \<notin> set p"
  by (induction s arbitrary: p) (auto split: if_splits list.splits)

lemma lower_char_idem [simp]: "lower_char (lower_char c) = lower_char c"
  by (auto simp: lower_char_def is_upper_def)

lemma ToLower_idem [simp]: "ToLower (ToLower s) = ToLower s"
  by (simp add: ToLower_def)

lemma ToLower_append [simp]: "ToLower (s @ t) = ToLower s @ ToLower t"
  by (simp add: ToLower_def)

lemma ToLower_Nil [simp]: "ToLower [] = []"
  by (simp add: ToLower_def)

lemma ToLower_eq_Nil [simp]: "ToLower s = [] \<longleftrightarrow> s = []"
  by (simp add: ToLower_def)

lemma length_ToLower [simp]: "length (ToLower s) = length s"
  by (simp add: ToLower_def)

section \<open>Package strconv\<close>

fun itoa_nat :: "nat \<Rightarrow> string" where
  "itoa_nat n = (if n < 10 then [char_of (48 + n)] else itoa_nat (n div 10) @ [char_of (48 + n mod 10)])"

declare itoa_nat.simps [simp del]

definition Itoa :: "int \<Rightarrow> string" where
  "Itoa i = (if i < 0 then CHR ''-'' # itoa_nat (nat (- i)) else itoa_nat (nat i))"

datatype num_error = ErrSyntax | ErrRange

text \<open>The digits of \<open>strconv.ParseUint\<close> in base 10, read left to right, with 64 bits.\<close>

fun parse_uint :: "int \<Rightarrow> string \<Rightarrow> num_error + int" where
  "parse_uint n [] = Inr n"
| "parse_uint n (c # s) =
     (if \<not> is_digit c then Inl ErrSyntax
      else let n' = n * 10 + (int (byte c) - 48) in
        if 18446744073709551615 < n' then Inl ErrRange else parse_uint n' s)"

text \<open>
  \<open>strconv.Atoi\<close> on a 64-bit platform: the number and the error, if any. As in Go, a syntax error
  comes with 0 and a range error with the nearest representable number.
\<close>

definition Atoi :: "string \<Rightarrow> int \<times> num_error option" where
  "Atoi s0 =
     (let neg = (s0 \<noteq> [] \<and> hd s0 = CHR ''-'');
          s = (if s0 \<noteq> [] \<and> (hd s0 = CHR ''-'' \<or> hd s0 = CHR ''+'') then tl s0 else s0);
          cutoff = 9223372036854775808
      in if s = [] then (0, Some ErrSyntax)
         else case parse_uint 0 s of
           Inl ErrSyntax \<Rightarrow> (0, Some ErrSyntax)
         | Inl ErrRange \<Rightarrow> (if neg then - cutoff else cutoff - 1, Some ErrRange)
         | Inr un \<Rightarrow>
             (if \<not> neg \<and> cutoff \<le> un then (cutoff - 1, Some ErrRange)
              else if neg \<and> cutoff < un then (- cutoff, Some ErrRange)
              else (if neg then - un else un, None)))"

lemma Atoi_error_value:
  assumes "Atoi s = (i, Some e)"
  shows "i = 0 \<or> i = 9223372036854775807 \<or> i = - 9223372036854775808"
  using assms by (auto simp: Atoi_def Let_def split: if_splits sum.splits num_error.splits)

section \<open>Slices\<close>

text \<open>
  A slice is its backing array, from the slice's first element on, and its length; two slices of
  the source that share an array share it here too, because the operation returns it.
  \<open>sremove i\<close> is the source's idiom for removing element \<open>i\<close>: \<open>append(s[:i], s[i+1:]...)\<close> when
  \<open>i < len(s)-1\<close>, which moves the tail down in the shared array, and \<open>s[:i]\<close> otherwise.
\<close>

type_synonym 'a slice = "'a list \<times> nat"

definition sview :: "'a slice \<Rightarrow> 'a list" where
  "sview s = take (snd s) (fst s)"

definition slice_of :: "'a list \<Rightarrow> 'a slice" where
  "slice_of xs = (xs, length xs)"

definition sremove :: "nat \<Rightarrow> 'a slice \<Rightarrow> 'a slice" where
  "sremove i s = (case s of (a, n) \<Rightarrow>
     if i + 1 < n then (take i a @ drop (i + 1) (take n a) @ drop (n - 1) a, n - 1)
     else (a, i))"

text \<open>
  \<open>for i, v := range s \<lbrace> if p(v) \<lbrace> remove element i of s \<rbrace> \<rbrace>\<close>. The loop runs over the header the
  slice had at its start (\<open>is\<close> are the indices of it) and reads each element from the shared array
  at the time of the iteration, while the variable \<open>s\<close> gets shorter.
\<close>

fun range_remove :: "('a \<Rightarrow> bool) \<Rightarrow> nat list \<Rightarrow> 'a slice \<Rightarrow> 'a slice" where
  "range_remove p [] s = s"
| "range_remove p (i # is) s =
     range_remove p is (if p (fst s ! i) then sremove i s else s)"

definition remove_while_ranging :: "('a \<Rightarrow> bool) \<Rightarrow> 'a list \<Rightarrow> 'a slice" where
  "remove_while_ranging p xs = range_remove p [0..<length xs] (slice_of xs)"

lemma sview_slice_of [simp]: "sview (slice_of xs) = xs"
  by (simp add: sview_def slice_of_def)

lemma length_fst_sremove:
  "snd s \<le> length (fst s) \<Longrightarrow> length (fst (sremove i s)) = length (fst s)"
  by (cases s) (auto simp: sremove_def)

lemma range_remove_none:
  "(\<And>i. i \<in> set is \<Longrightarrow> \<not> p (fst s ! i)) \<Longrightarrow> range_remove p is s = s"
  by (induction "is") auto

text \<open>Where no element is to be removed the loop leaves the array and the slice alone.\<close>

lemma remove_while_ranging_none:
  "(\<And>x. x \<in> set xs \<Longrightarrow> \<not> p x) \<Longrightarrow> remove_while_ranging p xs = slice_of xs"
  unfolding remove_while_ranging_def by (rule range_remove_none) (simp add: slice_of_def)

text \<open>
  What the loop does to one removable element followed by others: the array is shifted, so its last
  element appears twice in it, while the slice variable holds the others in order.
\<close>

lemma sremove_at:
  "sremove (length xs) (xs @ x # ys @ zs, length xs + Suc (length ys)) =
     (if ys = [] then (xs @ x # zs, length xs)
      else (xs @ ys @ last ys # zs, length xs + length ys))"
proof (cases "ys = []")
  case True
  then show ?thesis by (simp add: sremove_def)
next
  case False
  then have "drop (length xs + length ys) (xs @ x # ys @ zs) = last ys # zs"
    by (cases ys rule: rev_cases) auto
  with False show ?thesis
    by (simp add: sremove_def Suc_diff_Suc)
qed

text \<open>
  With exactly one element to remove the loop ends with the others in the slice variable, and with
  the last element doubled in the shared array unless the removed element was the last.
\<close>

lemma range_remove_append:
  "range_remove p (is @ js) s = range_remove p js (range_remove p is s)"
  by (induction "is" arbitrary: s) auto

lemma remove_while_ranging_one:
  assumes "\<And>x. x \<in> set as \<Longrightarrow> \<not> p x" and "p y" and "\<And>x. x \<in> set bs \<Longrightarrow> \<not> p x"
  shows "remove_while_ranging p (as @ y # bs) =
    (if bs = [] then (as @ [y], length as) else (as @ bs @ [last bs], length as + length bs))"
proof -
  let ?xs = "as @ y # bs"
  let ?n = "length as"
  have split: "[0..<length ?xs] = [0..<?n] @ ?n # [Suc ?n..<length ?xs]"
  proof -
    have "[0..<length ?xs] = [0..<?n] @ [?n..<length ?xs]"
      using upt_add_eq_append [of 0 ?n "Suc (length bs)"] by (simp del: upt_Suc)
    then show ?thesis by (simp add: upt_conv_Cons del: upt_Suc)
  qed
  have pre: "range_remove p [0..<?n] (?xs, length ?xs) = (?xs, length ?xs)"
    using assms(1) by (intro range_remove_none) (simp add: nth_append)
  let ?s = "sremove ?n (?xs, length ?xs)"
  have s: "?s = (if bs = [] then (?xs, ?n) else (as @ bs @ [last bs], ?n + length bs))"
    using sremove_at [of as y bs "[]"] by simp
  have post: "range_remove p [Suc ?n..<length ?xs] ?s = ?s"
  proof (rule range_remove_none)
    fix i assume i: "i \<in> set [Suc ?n..<length ?xs]"
    then have "bs \<noteq> []" by auto
    have fs: "fst ?s = as @ (bs @ [last bs])"
      using \<open>bs \<noteq> []\<close> by (subst s) simp
    have "(as @ (bs @ [last bs])) ! i = (bs @ [last bs]) ! (i - ?n)"
      using i by (simp only: nth_append) auto
    moreover have "(bs @ [last bs]) ! (i - ?n) \<in> set (bs @ [last bs])"
      using i by (intro nth_mem) auto
    ultimately have "fst ?s ! i \<in> set bs"
      using \<open>bs \<noteq> []\<close> unfolding fs by auto
    with assms(3) show "\<not> p (fst ?s ! i)" by blast
  qed
  have at: "p (fst (?xs, length ?xs) ! ?n)"
    using assms(2) by simp
  have "remove_while_ranging p ?xs =
      range_remove p ([0..<?n] @ ?n # [Suc ?n..<length ?xs]) (?xs, length ?xs)"
    unfolding remove_while_ranging_def slice_of_def split ..
  also have "\<dots> = range_remove p [Suc ?n..<length ?xs] ?s"
    using at by (simp only: range_remove_append pre range_remove.simps if_True)
  also have "\<dots> = ?s" by (rule post)
  finally show ?thesis using s by simp
qed

end
