(* ===== verification/PaasDomain.thy ===== *)
theory PaasDomain
  imports GoLib "HOL-Library.Word"
begin

text \<open>
  The objects of the platform mediation service (\<open>paasMediationClient/domain\<close>: \<open>base.go\<close>,
  \<open>route.go\<close>, \<open>service.go\<close>, \<open>configmap.go\<close>) and the messages of its watch channels
  (\<open>paasMediationClient/cache.go\<close>). A Go struct is a record, with a prefix before the field names
  because HOL's selectors are global: \<open>m\<close> for \<open>Metadata\<close>, \<open>r\<close> for \<open>RouteSpec\<close> and so on. An
  \<open>int32\<close> is a 32-bit word read as a signed number.
\<close>

type_synonym int32 = "32 word"
type_synonym annotations = "(string, string) gomap"

record metadata =
  mKind :: string
  mName :: string
  mNamespace :: string
  mAnnotations :: annotations

record target =
  tgtName :: string

record route_port =
  rpTargetPort :: int32

record route_spec =
  rsHost :: string
  rsPath :: string
  rsService :: target
  rsPort :: route_port

record route =
  rtMetadata :: metadata
  rtSpec :: route_spec

record port =
  pName :: string
  pProtocol :: string
  pPort :: int32
  pTargetPort :: int32
  pNodePort :: int32

record service_spec =
  ssPorts :: "port list"
  ssSelector :: "(string, string) gomap"
  ssClusterIP :: string
  ssType :: string

record service =
  svMetadata :: metadata
  svSpec :: service_spec

record config_map_meta_data =
  cmName :: string
  cmNamespace :: string

record config_map_data =
  cmParent :: string
  cmExternalRoutes :: string

record configmap =
  cfMetadata :: config_map_meta_data
  cfData :: config_map_data

record custom_service =
  csId :: string
  csName :: string
  csURL :: string
  csDescription :: string

text \<open>The zero value of \<open>Metadata\<close>, which a composite literal starts from.\<close>

definition zero_metadata :: metadata where
  "zero_metadata = \<lparr>mKind = [], mName = [], mNamespace = [], mAnnotations = NilMap\<rparr>"

abbreviation route_name :: "route \<Rightarrow> string" where
  "route_name r \<equiv> mName (rtMetadata r)"

abbreviation route_annotations :: "route \<Rightarrow> annotations" where
  "route_annotations r \<equiv> mAnnotations (rtMetadata r)"

abbreviation route_host :: "route \<Rightarrow> string" where
  "route_host r \<equiv> rsHost (rtSpec r)"

abbreviation route_service :: "route \<Rightarrow> string" where
  "route_service r \<equiv> tgtName (rsService (rtSpec r))"

abbreviation service_name :: "service \<Rightarrow> string" where
  "service_name s \<equiv> mName (svMetadata s)"

abbreviation service_annotations :: "service \<Rightarrow> annotations" where
  "service_annotations s \<equiv> mAnnotations (svMetadata s)"

section \<open>Annotations\<close>

definition ann_tenant_id :: string where
  "ann_tenant_id = ''netcracker.cloud/tenant.service.tenant.id''"

definition ann_order :: string where
  "ann_order = ''netcracker.cloud/tenant.service.order''"

definition ann_description :: string where
  "ann_description = ''netcracker.cloud/tenant.service.show.description''"

definition ann_show_name :: string where
  "ann_show_name = ''netcracker.cloud/tenant.service.show.name''"

definition ann_suffix :: string where
  "ann_suffix = ''netcracker.cloud/tenant.service.url.suffix''"

definition ann_id :: string where
  "ann_id = ''netcracker.cloud/tenant.service.id''"

definition ann_prefix :: string where
  "ann_prefix = ''netcracker.cloud/tenant.service.alias.prefix''"

definition ann_type :: string where
  "ann_type = ''netcracker.cloud/tenant.service.type''"

lemmas ann_defs = ann_tenant_id_def ann_order_def ann_description_def ann_show_name_def
  ann_suffix_def ann_id_def ann_prefix_def ann_type_def

text \<open>The value of an annotation, or the given default when the key is absent.\<close>

definition annotation_or :: "annotations \<Rightarrow> string \<Rightarrow> string \<Rightarrow> string" where
  "annotation_or a k d = (case mlookup a k of Some v \<Rightarrow> v | None \<Rightarrow> d)"

section \<open>Routes\<close>

definition RouteKindNative :: string where "RouteKindNative = ''Route''"
definition RouteKindHTTP :: string where "RouteKindHTTP = ''HTTPRoute''"
definition RouteKindGRPC :: string where "RouteKindGRPC = ''GRPCRoute''"

definition CacheKey :: "route \<Rightarrow> string" where
  "CacheKey r =
     (let kind = mKind (rtMetadata r);
          kind' = (if kind = [] then RouteKindNative else kind)
      in kind' @ ''/'' @ mName (rtMetadata r))"

text \<open>As in the source, the number is only used when \<open>Atoi\<close> reports an error.\<close>

definition GetPriority :: "route \<Rightarrow> int" where
  "GetPriority r =
     (if mlookup (route_annotations r) ann_tenant_id = Some ''GENERAL'' then - 1
      else case mlookup (route_annotations r) ann_order of
          Some value \<Rightarrow> (case Atoi value of
              (result, Some e) \<Rightarrow> result
            | (result, None) \<Rightarrow> 0)
        | None \<Rightarrow> 0)"

definition GetServiceDescription :: "route \<Rightarrow> string" where
  "GetServiceDescription r = annotation_or (route_annotations r) ann_description []"

definition GetServiceName :: "route \<Rightarrow> string" where
  "GetServiceName r = annotation_or (route_annotations r) ann_show_name []"

definition GetServiceSuffix :: "route \<Rightarrow> string" where
  "GetServiceSuffix r = annotation_or (route_annotations r) ann_suffix []"

definition GetServiceId :: "route \<Rightarrow> string \<Rightarrow> string" where
  "GetServiceId r defaultValue = annotation_or (route_annotations r) ann_id defaultValue"

definition GetTenantId :: "route \<Rightarrow> string" where
  "GetTenantId r = annotation_or (route_annotations r) ann_tenant_id []"

definition newline :: char where "newline = char_of (10 :: nat)"
definition tab :: char where "tab = char_of (9 :: nat)"

definition FormatString :: "route \<Rightarrow> string \<Rightarrow> string" where
  "FormatString r pre =
     pre @ ''Metadata:'' @ [newline] @
     pre @ [tab] @ ''Name: '' @ mName (rtMetadata r) @ [newline] @
     pre @ [tab] @ ''Annotations: '' @
     concat (map (\<lambda>(k, v). [newline] @ pre @ [tab, tab] @ k @ '': '' @ v)
       (ments (mAnnotations (rtMetadata r)))) @ [newline] @
     pre @ ''Spec:'' @ [newline] @
     pre @ [tab] @ ''Host: '' @ rsHost (rtSpec r) @ [newline] @
     pre @ [tab] @ ''Service: '' @ [newline] @
     pre @ [tab, tab] @ ''Name: '' @ tgtName (rsService (rtSpec r))"

text \<open>\<open>MergeRoute\<close> updates its receiver: here the updated route is the result.\<close>

definition MergeRoute :: "route \<Rightarrow> route \<Rightarrow> route" where
  "MergeRoute r other =
     (if rsPort (rtSpec r) \<noteq> rsPort (rtSpec other)
      then r\<lparr>rtSpec := (rtSpec r)\<lparr>rsPort := rsPort (rtSpec other)\<rparr>\<rparr>
      else r)"

section \<open>Services\<close>

definition service_GetId :: "service \<Rightarrow> string" where
  "service_GetId s = annotation_or (service_annotations s) ann_id []"

definition service_GetShowName :: "service \<Rightarrow> string" where
  "service_GetShowName s = annotation_or (service_annotations s) ann_show_name []"

definition service_GetDescription :: "service \<Rightarrow> string" where
  "service_GetDescription s = annotation_or (service_annotations s) ann_description []"

definition service_GetSuffix :: "service \<Rightarrow> string" where
  "service_GetSuffix s = annotation_or (service_annotations s) ann_suffix []"

definition service_GetPrefix :: "service \<Rightarrow> string" where
  "service_GetPrefix s = annotation_or (service_annotations s) ann_prefix []"

section \<open>Messages of the watch channels\<close>

text \<open>
  The kind of an update is a string of the message; an object update carries a route, a service or
  a config map, a \<open>CommonUpdate\<close> (the first reading of every message) only its metadata.
\<close>

definition updateTypeModified :: string where "updateTypeModified = ''MODIFIED''"
definition updateTypeCreated :: string where "updateTypeCreated = ''CREATED''"
definition updateTypeAdded :: string where "updateTypeAdded = ''ADDED''"
definition updateTypeDeleted :: string where "updateTypeDeleted = ''DELETED''"
definition updateTypeInit :: string where "updateTypeInit = ''INIT''"

lemmas update_type_defs = updateTypeModified_def updateTypeCreated_def updateTypeAdded_def
  updateTypeDeleted_def updateTypeInit_def

record route_update =
  ruType :: string
  ruObject :: route

record service_update =
  suType :: string
  suObject :: service

record configmap_update =
  cuType :: string
  cuObject :: configmap

section \<open>Facts\<close>

text \<open>
  A route's priority is -1 for a general route and otherwise 0, unless its order annotation is a
  number that does not fit an \<open>int\<close>, when it is the largest or the smallest one: no order that
  \<open>Atoi\<close> can read is ever used.
\<close>

lemma GetPriority_range:
  "GetPriority r \<in> {- 1, 0, 9223372036854775807, - 9223372036854775808}"
proof (cases "mlookup (route_annotations r) ann_order")
  case None
  then show ?thesis by (simp add: GetPriority_def)
next
  case (Some v)
  obtain i e where a: "Atoi v = (i, e)" by (cases "Atoi v")
  show ?thesis
    using Atoi_error_value [of v i] a Some by (cases e) (auto simp: GetPriority_def)
qed

lemma GetPriority_readable_order:
  assumes "Atoi v = (i, None)" and "mlookup (route_annotations r) ann_order = Some v"
    and "mlookup (route_annotations r) ann_tenant_id \<noteq> Some ''GENERAL''"
  shows "GetPriority r = 0"
  using assms by (simp add: GetPriority_def)

lemma MergeRoute_port [simp]: "rsPort (rtSpec (MergeRoute r other)) = rsPort (rtSpec other)"
  by (simp add: MergeRoute_def)

lemma MergeRoute_rest [simp]:
  "rtMetadata (MergeRoute r other) = rtMetadata r"
  "rsHost (rtSpec (MergeRoute r other)) = rsHost (rtSpec r)"
  "rsService (rtSpec (MergeRoute r other)) = rsService (rtSpec r)"
  by (simp_all add: MergeRoute_def)

text \<open>Two routes have one cache key only when they have one name, if no kind holds a slash.\<close>

lemma CacheKey_inject:
  assumes "CacheKey r = CacheKey q"
    and "CHR ''/'' \<notin> set (mKind (rtMetadata r))" and "CHR ''/'' \<notin> set (mKind (rtMetadata q))"
  shows "route_name r = route_name q"
proof -
  have key: "dropWhile (\<lambda>c. c \<noteq> CHR ''/'') (CacheKey x) = CHR ''/'' # route_name x"
    if "CHR ''/'' \<notin> set (mKind (rtMetadata x))" for x
    using that by (auto simp: CacheKey_def RouteKindNative_def Let_def dropWhile_append3)
  show ?thesis using key [OF assms(2)] key [OF assms(3)] assms(1) by simp
qed

end
