(* ===== verification/NetUrl.thy ===== *)
theory NetUrl
  imports GoLib
begin

text \<open>
  The part of Go's package \<open>net/url\<close> (of the version \<open>go.mod\<close> names, Go 1.26) the service relies
  on: \<open>url.Parse\<close>, \<open>url.ParseRequestURI\<close> and \<open>URL.String\<close> with scheme, host and path, the error
  cases included (control bytes, a bad percent escape, a bad port, a bad user part, a character that
  is not allowed in a host, an IP literal that is not IPv6). The lemmas at the end give the result
  on host names and say which bytes a parsed host can hold.
\<close>

section \<open>Percent escapes\<close>

datatype escape_mode = EncodePath | EncodeHost | EncodeZone | EncodeUserPassword | EncodeFragment

definition unhex :: "char \<Rightarrow> nat option" where
  "unhex c =
     (let n = byte c in
      if is_digit c then Some (n - 48)
      else if 97 \<le> n \<and> n \<le> 102 then Some (n - 87)
      else if 65 \<le> n \<and> n \<le> 70 then Some (n - 55)
      else None)"

text \<open>\<open>shouldEscape(c, encodeHost)\<close> and \<open>shouldEscape(c, encodeZone)\<close>, which agree.\<close>

definition escape_in_host :: "char \<Rightarrow> bool" where
  "escape_in_host c \<longleftrightarrow>
     \<not> (is_alnum c \<or> c \<in> set ''!$&()*+,;=:[]<>'' \<or> byte c = 34 \<or> byte c = 39
        \<or> c \<in> set ''-_.~'')"

text \<open>What \<open>unescape\<close> checks of an escape \<open>%ab\<close> and of a plain byte, by mode.\<close>

definition escape_allowed :: "escape_mode \<Rightarrow> nat \<Rightarrow> nat \<Rightarrow> bool" where
  "escape_allowed mode a b \<longleftrightarrow>
     (case mode of
        EncodeHost \<Rightarrow> 8 \<le> a \<or> (a = 2 \<and> b = 5)
      | EncodeZone \<Rightarrow> (a = 2 \<and> b = 5) \<or> a * 16 + b = 32 \<or> \<not> escape_in_host (char_of (a * 16 + b))
      | _ \<Rightarrow> True)"

definition plain_allowed :: "escape_mode \<Rightarrow> char \<Rightarrow> bool" where
  "plain_allowed mode c \<longleftrightarrow>
     (if mode = EncodeHost \<or> mode = EncodeZone then \<not> (byte c < 128 \<and> escape_in_host c) else True)"

function unescape :: "escape_mode \<Rightarrow> string \<Rightarrow> string option" where
  "unescape mode [] = Some []"
| "unescape mode (c # s) =
     (if c = CHR ''%'' then
        (case s of
           h # l # t \<Rightarrow>
             (case (unhex h, unhex l) of
                (Some a, Some b) \<Rightarrow>
                  if escape_allowed mode a b
                  then map_option ((#) (char_of (a * 16 + b))) (unescape mode t)
                  else None
              | _ \<Rightarrow> None)
         | _ \<Rightarrow> None)
      else if plain_allowed mode c then map_option ((#) c) (unescape mode s)
      else None)"
  by pat_completeness auto
termination
  by (relation "measure (\<lambda>(m, s). length s)") auto

section \<open>IP literals\<close>

definition is_hex :: "char \<Rightarrow> bool" where
  "is_hex c \<longleftrightarrow> unhex c \<noteq> None"

definition ipv4_field :: "string \<Rightarrow> bool" where
  "ipv4_field f \<longleftrightarrow> f \<noteq> [] \<and> list_all is_digit f \<and> (length f = 1 \<or> hd f \<noteq> CHR ''0'')
     \<and> length f \<le> 3 \<and> foldl (\<lambda>n c. n * 10 + (byte c - 48)) 0 f \<le> 255"

definition ipv4_fields :: "string \<Rightarrow> bool" where
  "ipv4_fields s \<longleftrightarrow> length (Split s (CHR ''.'')) = 4 \<and> list_all ipv4_field (Split s (CHR ''.''))"

definition ipv6_done :: "nat \<Rightarrow> bool \<Rightarrow> string \<Rightarrow> bool" where
  "ipv6_done i ellipsis s \<longleftrightarrow> s = [] \<and> (if i < 16 then ellipsis else \<not> ellipsis)"

text \<open>
  The group loop of \<open>netip.parseIPv6\<close>: \<open>i\<close> is the number of address bytes read, \<open>ellipsis\<close> says
  that \<open>::\<close> was seen. Each round reads two of the sixteen bytes, so nine rounds are enough.
\<close>

fun ipv6_groups :: "nat \<Rightarrow> nat \<Rightarrow> bool \<Rightarrow> string \<Rightarrow> bool" where
  "ipv6_groups 0 i ellipsis s = ipv6_done i ellipsis s"
| "ipv6_groups (Suc fuel) i ellipsis s =
     (if 16 \<le> i then ipv6_done i ellipsis s
      else
        let d = takeWhile is_hex s; r = dropWhile is_hex s in
        if d = [] \<or> 4 < length d then False
        else case r of
            [] \<Rightarrow> ipv6_done (i + 2) ellipsis []
          | c # r1 \<Rightarrow>
              if c = CHR ''.'' then
                (ellipsis \<or> i = 12) \<and> i + 4 \<le> 16 \<and> ipv4_fields s \<and> ipv6_done (i + 4) ellipsis []
              else if c \<noteq> CHR '':'' then False
              else (case r1 of
                  [] \<Rightarrow> False
                | c2 # r2 \<Rightarrow>
                    if c2 = CHR '':'' then
                      \<not> ellipsis \<and> (if r2 = [] then ipv6_done (i + 2) True []
                                     else ipv6_groups fuel (i + 2) True r2)
                    else ipv6_groups fuel (i + 2) ellipsis r1))"

text \<open>\<open>netip.ParseAddr\<close> succeeds and the address is not an IPv4 one.\<close>

definition is_ipv6 :: "string \<Rightarrow> bool" where
  "is_ipv6 s0 =
     (let first = filter (\<lambda>c. c \<in> set ''.:%'') s0; (s, zone, has_zone) = Cut s0 (CHR ''%'') in
      first \<noteq> [] \<and> hd first = CHR '':'' \<and> (has_zone \<longrightarrow> zone \<noteq> []) \<and>
      (if HasPrefix s ''::'' then (if length s = 2 then True else ipv6_groups 9 0 True (drop 2 s))
       else ipv6_groups 9 0 False s))"

section \<open>Parsing\<close>

definition ctl_byte :: "char \<Rightarrow> bool" where
  "ctl_byte c \<longleftrightarrow> byte c < 32 \<or> byte c = 127"

text \<open>An optional port: empty, or a colon and any number of digits.\<close>

definition valid_optional_port :: "string \<Rightarrow> bool" where
  "valid_optional_port p \<longleftrightarrow> p = [] \<or> (hd p = CHR '':'' \<and> list_all is_digit (tl p))"

definition valid_userinfo :: "string \<Rightarrow> bool" where
  "valid_userinfo s \<longleftrightarrow>
     list_all (\<lambda>c. is_alnum c \<or> c \<in> set ''-._:~!$&()*+,;=%@'' \<or> byte c = 39) s"

definition parse_host :: "string \<Rightarrow> string option" where
  "parse_host host =
     (case LastIndexByte host (CHR ''['') of
        Some o1 \<Rightarrow>
          if 0 < o1 then None
          else (case LastIndexByte host (CHR '']'') of
              None \<Rightarrow> None
            | Some c1 \<Rightarrow>
                let port = drop (c1 + 1) host; name = drop 1 (take c1 host) in
                if \<not> valid_optional_port port then None
                else (case unescape EncodeHost port of
                    None \<Rightarrow> None
                  | Some uport \<Rightarrow>
                      let uname =
                        (case Index name ''%25'' of
                           Some z \<Rightarrow>
                             (case (unescape EncodeHost (take z name), unescape EncodeZone (drop z name)) of
                                (Some a, Some b) \<Rightarrow> Some (a @ b)
                              | _ \<Rightarrow> None)
                         | None \<Rightarrow> unescape EncodeHost name)
                      in (case uname of
                          None \<Rightarrow> None
                        | Some u \<Rightarrow>
                            if is_ipv6 u then Some (CHR ''['' # u @ CHR '']'' # uport) else None)))
      | None \<Rightarrow>
          (case IndexByte host (CHR '':'') of
             Some i \<Rightarrow>
               if valid_optional_port (drop i host) then unescape EncodeHost host else None
           | None \<Rightarrow> unescape EncodeHost host))"

definition parse_authority :: "string \<Rightarrow> string option" where
  "parse_authority auth =
     (case LastIndexByte auth (CHR ''@'') of
        None \<Rightarrow> parse_host auth
      | Some i \<Rightarrow>
          (case parse_host (drop (i + 1) auth) of
             None \<Rightarrow> None
           | Some host \<Rightarrow>
               let userinfo = take i auth in
               if \<not> valid_userinfo userinfo then None
               else (let (user, pw, colon) = Cut userinfo (CHR '':'') in
                 if unescape EncodeUserPassword user = None
                    \<or> (colon \<and> unescape EncodeUserPassword pw = None)
                 then None else Some host)))"

record url =
  uScheme :: string
  uHost :: string
  uPath :: string

text \<open>\<open>getScheme\<close>: none for an error, else the scheme (empty when there is none) and the rest.\<close>

fun scheme_from :: "string \<Rightarrow> string \<Rightarrow> string \<Rightarrow> (string \<times> string) option" where
  "scheme_from raw acc [] = Some ([], raw)"
| "scheme_from raw acc (c # s) =
     (if is_upper c \<or> is_lower c then scheme_from raw (acc @ [c]) s
      else if is_digit c \<or> c \<in> set ''+-.'' then
        (if acc = [] then Some ([], raw) else scheme_from raw (acc @ [c]) s)
      else if c = CHR '':'' then (if acc = [] then None else Some (acc, s))
      else Some ([], raw))"

definition get_scheme :: "string \<Rightarrow> (string \<times> string) option" where
  "get_scheme raw = scheme_from raw [] raw"

definition url_parse0 :: "bool \<Rightarrow> string \<Rightarrow> url option" where
  "url_parse0 via_request raw =
     (if list_ex ctl_byte raw then None
      else if raw = [] \<and> via_request then None
      else if raw = ''*'' then Some \<lparr>uScheme = [], uHost = [], uPath = ''*''\<rparr>
      else case get_scheme raw of
        None \<Rightarrow> None
      | Some (scheme0, rest0) \<Rightarrow>
          let scheme = ToLower scheme0; rest = fst (Cut rest0 (CHR ''?'')) in
          if \<not> HasPrefix rest ''/'' \<and> scheme \<noteq> [] then
            Some \<lparr>uScheme = scheme, uHost = [], uPath = []\<rparr>
          else if \<not> HasPrefix rest ''/'' \<and> via_request then None
          else if \<not> HasPrefix rest ''/'' \<and> CHR '':'' \<in> set (fst (Cut rest (CHR ''/''))) then None
          else if (scheme \<noteq> [] \<or> (\<not> via_request \<and> \<not> HasPrefix rest ''///'')) \<and> HasPrefix rest ''//'' then
            (let auth = takeWhile (\<lambda>c. c \<noteq> CHR ''/'') (drop 2 rest);
                 path = dropWhile (\<lambda>c. c \<noteq> CHR ''/'') (drop 2 rest)
             in case parse_authority auth of
                 None \<Rightarrow> None
               | Some host \<Rightarrow>
                   map_option (\<lambda>p. \<lparr>uScheme = scheme, uHost = host, uPath = p\<rparr>)
                     (unescape EncodePath path))
          else map_option (\<lambda>p. \<lparr>uScheme = scheme, uHost = [], uPath = p\<rparr>)
                 (unescape EncodePath rest))"

text \<open>\<open>url.Parse\<close>: the fragment is cut off first and must unescape.\<close>

definition url_parse :: "string \<Rightarrow> url option" where
  "url_parse raw =
     (let (u, frag, _) = Cut raw (CHR ''#'') in
      case url_parse0 False u of
        None \<Rightarrow> None
      | Some url \<Rightarrow>
          if frag = [] then Some url
          else if unescape EncodeFragment frag = None then None else Some url)"

definition url_parse_request_uri :: "string \<Rightarrow> url option" where
  "url_parse_request_uri raw = url_parse0 True raw"

text \<open>\<open>URL.String\<close> of a URL with a scheme, a host and the path \<open>/\<close>.\<close>

definition hex_upper :: "nat \<Rightarrow> char" where
  "hex_upper n = (if n < 10 then char_of (48 + n) else char_of (55 + n))"

definition escape_host :: "string \<Rightarrow> string" where
  "escape_host s = concat (map (\<lambda>c. if escape_in_host c
      then [CHR ''%'', hex_upper (byte c div 16), hex_upper (byte c mod 16)] else [c]) s)"

definition url_string :: "string \<Rightarrow> string \<Rightarrow> string" where
  "url_string scheme host = scheme @ ''://'' @ escape_host host @ ''/''"

section \<open>Facts about parsed hosts\<close>

lemma takeWhile_neq_id: "c \<notin> set s \<Longrightarrow> takeWhile (\<lambda>x. x \<noteq> c) s = s"
  by (induction s) auto

lemma dropWhile_neq_Nil: "c \<notin> set s \<Longrightarrow> dropWhile (\<lambda>x. x \<noteq> c) s = []"
  by (induction s) auto

lemma LastIndexByte_None: "LastIndexByte s c = None \<longleftrightarrow> c \<notin> set s"
  by (induction s) (auto split: option.splits)

lemma LastIndexByte_drop:
  "LastIndexByte s c = Some i \<Longrightarrow> i < length s \<and> c \<notin> set (drop (i + 1) s)"
  by (induction s arbitrary: i) (auto split: option.splits if_splits simp: LastIndexByte_None)

lemma IndexByte_drop: "IndexByte s c = Some i \<Longrightarrow> drop i s = dropWhile (\<lambda>x. x \<noteq> c) s"
  by (auto simp: IndexByte_def dropWhile_eq_drop split: if_splits)

lemma unescape_plain:
  "(\<And>c. c \<in> set s \<Longrightarrow> c \<noteq> CHR ''%'' \<and> plain_allowed mode c) \<Longrightarrow> unescape mode s = Some s"
  by (induction s) auto

text \<open>The port of a host: everything after the first colon is a digit.\<close>

definition port_ok :: "string \<Rightarrow> bool" where
  "port_ok s \<longleftrightarrow> list_all is_digit (tl (dropWhile (\<lambda>x. x \<noteq> CHR '':'') s))"

lemma parse_host_plain:
  assumes "CHR ''['' \<notin> set h"
  shows "parse_host h = (if port_ok h then unescape EncodeHost h else None)"
proof (cases "CHR '':'' \<in> set h")
  case False
  with assms show ?thesis
    by (simp add: parse_host_def LastIndexByte_None [THEN iffD2] IndexByte_def port_ok_def
        dropWhile_neq_Nil)
next
  case True
  have "hd (dropWhile (\<lambda>x. x \<noteq> CHR '':'') h) = CHR '':''"
    using True by (induction h) auto
  moreover have "dropWhile (\<lambda>x. x \<noteq> CHR '':'') h \<noteq> []"
    using True by auto
  moreover obtain i where "IndexByte h (CHR '':'') = Some i"
    using True by (auto simp: IndexByte_def)
  ultimately show ?thesis
    using assms True by (auto simp: parse_host_def LastIndexByte_None [THEN iffD2] IndexByte_drop
        valid_optional_port_def port_ok_def)
qed

definition host_byte :: "char \<Rightarrow> bool" where
  "host_byte c \<longleftrightarrow> c \<noteq> CHR ''%'' \<and> plain_allowed EncodeHost c"

lemma host_byte_excludes:
  assumes "host_byte c"
  shows "c \<noteq> CHR ''/''" and "c \<noteq> CHR ''?''" and "c \<noteq> CHR ''#''" and "c \<noteq> CHR ''@''"
    and "c \<noteq> CHR ''%''" and "\<not> ctl_byte c"
  using assms
  by (auto simp: host_byte_def plain_allowed_def escape_in_host_def byte_def ctl_byte_def
      is_alnum_def is_upper_def is_lower_def is_digit_def)

lemma is_digit_host_byte: "is_digit c \<Longrightarrow> host_byte c"
  by (auto simp: host_byte_def plain_allowed_def escape_in_host_def is_alnum_def is_digit_def
      byte_def)

lemma unhex_not_colon: "unhex h = Some a \<Longrightarrow> h \<noteq> CHR '':''"
  by (auto simp: unhex_def is_digit_def byte_def Let_def split: if_splits)

lemma unhex_less: "unhex h = Some a \<Longrightarrow> a < 16"
  by (auto simp: unhex_def is_digit_def Let_def split: if_splits)

text \<open>
  Unescaping a host only produces bytes a host may hold plainly, apart from percent signs, and
  leaves a port where it was.
\<close>

lemma unescape_host_bytes:
  "unescape EncodeHost s = Some r \<Longrightarrow> c \<in> set r \<Longrightarrow> c = CHR ''%'' \<or> host_byte c"
proof (induction EncodeHost s arbitrary: r rule: unescape.induct)
  case 1
  then show ?case by simp
next
  case (2 x s)
  show ?case
  proof (cases "x = CHR ''%''")
    case False
    with 2 show ?thesis by (auto simp: host_byte_def split: if_splits)
  next
    case True
    with 2(3) obtain h l t a b r' where s: "s = h # l # t"
      and hex: "unhex h = Some a" "unhex l = Some b" and al: "escape_allowed EncodeHost a b"
      and r': "unescape EncodeHost t = Some r'" and r: "r = char_of (a * 16 + b) # r'"
      by (auto split: list.splits option.splits if_splits)
    have bound: "a * 16 + b < 256" using hex [THEN unhex_less] by simp
    show ?thesis
    proof (cases "c \<in> set r'")
      case True
      with 2(1) [OF \<open>x = CHR ''%''\<close> s refl refl hex al r'] show ?thesis
        using \<open>x = CHR ''%''\<close> s hex al r' by auto
    next
      case False
      with 2(4) r have c: "c = char_of (a * 16 + b)" by auto
      have "128 \<le> byte c \<or> byte c = 37"
        using al bound unfolding c by (auto simp: escape_allowed_def)
      moreover have "byte c = 37 \<longleftrightarrow> c = CHR ''%''"
        using byte_inject [of c "CHR ''%''"] by (simp add: byte_def)
      ultimately show ?thesis
        by (auto simp: host_byte_def plain_allowed_def)
    qed
  qed
qed

lemma unescape_digits: "list_all is_digit s \<Longrightarrow> unescape m s = Some s"
  using is_digit_host_byte
  by (intro unescape_plain)
    (auto simp: list_all_iff host_byte_def plain_allowed_def split: if_splits)

lemma unescape_port_ok:
  "unescape EncodeHost s = Some r \<Longrightarrow> port_ok s \<Longrightarrow> port_ok r"
proof (induction EncodeHost s arbitrary: r rule: unescape.induct)
  case 1
  then show ?case by simp
next
  case (2 x s)
  show ?case
  proof (cases "x = CHR ''%''")
    case True
    with 2(3) obtain h l t a b r' where s: "s = h # l # t"
      and hex: "unhex h = Some a" "unhex l = Some b" and al: "escape_allowed EncodeHost a b"
      and r': "unescape EncodeHost t = Some r'" and r: "r = char_of (a * 16 + b) # r'"
      by (auto split: list.splits option.splits if_splits)
    have "port_ok t"
      using 2(4) True s hex [THEN unhex_not_colon] by (simp add: port_ok_def)
    then have "port_ok r'"
      using 2(1) [OF True s refl refl hex al r'] by simp
    moreover have "char_of (a * 16 + b) \<noteq> CHR '':''"
    proof -
      have "128 \<le> a * 16 + b \<or> a * 16 + b = 37" using al by (auto simp: escape_allowed_def)
      moreover have "a * 16 + b < 256" using hex [THEN unhex_less] by simp
      ultimately have "byte (char_of (a * 16 + b)) \<noteq> byte (CHR '':'')"
        by (auto simp: byte_def)
      then show ?thesis by auto
    qed
    ultimately show ?thesis using r by (simp add: port_ok_def)
  next
    case False
    then obtain r' where r': "unescape EncodeHost s = Some r'" "r = x # r'"
      and pl: "plain_allowed EncodeHost x"
      using 2(3) by (auto split: if_splits)
    show ?thesis
    proof (cases "x = CHR '':''")
      case True
      with 2(4) have "list_all is_digit s" by (simp add: port_ok_def)
      with r' True show ?thesis by (auto simp: port_ok_def unescape_digits)
    next
      case x: False
      with 2(4) have "port_ok s" by (simp add: port_ok_def)
      with 2(2) [OF False pl r'(1)] x r'(2) show ?thesis by (simp add: port_ok_def)
    qed
  qed
qed

text \<open>A host without brackets and percent signs that was parsed parses to itself.\<close>

lemma parse_host_stable:
  assumes "parse_host s = Some h" and "CHR ''['' \<notin> set s" and "CHR ''%'' \<notin> set h"
  shows "port_ok h" and "\<And>c. c \<in> set h \<Longrightarrow> host_byte c"
proof -
  from assms(1,2) have u: "unescape EncodeHost s = Some h" and p: "port_ok s"
    by (auto simp: parse_host_plain split: if_splits)
  from u p show "port_ok h" by (rule unescape_port_ok)
  show "host_byte c" if "c \<in> set h" for c
    using unescape_host_bytes [OF u that] assms(3) that by auto
qed

lemma parse_host_host_bytes:
  assumes "\<And>c. c \<in> set h \<Longrightarrow> host_byte c" and "port_ok h" and "CHR ''['' \<notin> set h"
  shows "parse_host h = Some h"
  using assms by (simp add: parse_host_plain unescape_plain host_byte_def)

lemma parse_authority_host_bytes:
  assumes "\<And>c. c \<in> set h \<Longrightarrow> host_byte c" and "port_ok h" and "CHR ''['' \<notin> set h"
  shows "parse_authority h = Some h"
proof -
  have "CHR ''@'' \<notin> set h" using assms(1) host_byte_excludes(4) by blast
  with parse_host_host_bytes [OF assms] show ?thesis
    by (simp add: parse_authority_def LastIndexByte_None [THEN iffD2])
qed

lemma parse_authority_SomeE:
  assumes "parse_authority auth = Some h"
  obtains s where "parse_host s = Some h" and "set s \<subseteq> set auth"
proof (cases "LastIndexByte auth (CHR ''@'')")
  case None
  with assms that [of auth] show ?thesis by (simp add: parse_authority_def)
next
  case (Some i)
  with assms that [of "drop (i + 1) auth"] show ?thesis
    by (auto simp: parse_authority_def Let_def Cut_def set_drop_subset
        split: option.splits if_splits prod.splits)
qed

section \<open>URLs with an http or https scheme\<close>

definition http_scheme :: "string \<Rightarrow> bool" where
  "http_scheme p \<longleftrightarrow> p = ''http'' \<or> p = ''https''"

lemma get_scheme_http: "http_scheme p \<Longrightarrow> get_scheme (p @ ''://'' @ s) = Some (p, ''//'' @ s)"
  by (auto simp: http_scheme_def get_scheme_def is_upper_def is_lower_def is_digit_def byte_def)

lemma http_scheme_lower: "http_scheme p \<Longrightarrow> ToLower p = p \<and> p \<noteq> [] \<and> \<not> list_ex ctl_byte p"
  by (auto simp: http_scheme_def ToLower_def lower_char_def is_upper_def ctl_byte_def byte_def)

lemma url_parse0_http:
  assumes "http_scheme p"
  shows "url_parse0 False (p @ ''://'' @ s) =
    (let r = takeWhile (\<lambda>x. x \<noteq> CHR ''?'') s in
     if list_ex ctl_byte s then None
     else case parse_authority (takeWhile (\<lambda>c. c \<noteq> CHR ''/'') r) of
         None \<Rightarrow> None
       | Some host \<Rightarrow> map_option (\<lambda>q. \<lparr>uScheme = p, uHost = host, uPath = q\<rparr>)
                       (unescape EncodePath (dropWhile (\<lambda>c. c \<noteq> CHR ''/'') r)))"
proof -
  have ctl: "list_ex ctl_byte (p @ ''://'' @ s) = list_ex ctl_byte s"
    using http_scheme_lower [OF assms] by (simp add: ctl_byte_def byte_def)
  have ne: "p @ ''://'' @ s \<noteq> ''*''"
    using assms by (auto simp: http_scheme_def)
  show ?thesis
    using http_scheme_lower [OF assms]
    unfolding url_parse0_def ctl get_scheme_http [OF assms]
    by (simp add: ne [simplified] Let_def Cut_def split: option.split)
qed

lemma ctl_byte_special:
  "\<not> ctl_byte (CHR ''/'')" "\<not> ctl_byte (CHR ''?'')" "\<not> ctl_byte (CHR ''#'')"
  by (simp_all add: ctl_byte_def byte_def)

text \<open>A path byte that \<open>url.Parse\<close> takes as it is, and that ends neither path nor query.\<close>

definition path_byte :: "char \<Rightarrow> bool" where
  "path_byte c \<longleftrightarrow> \<not> ctl_byte c \<and> c \<noteq> CHR ''%'' \<and> c \<noteq> CHR ''?'' \<and> c \<noteq> CHR ''#''"

text \<open>Where a plain host ends: at the end of the address or at a slash followed by a path.\<close>

definition plain_tail :: "string \<Rightarrow> bool" where
  "plain_tail t \<longleftrightarrow> t = [] \<or> (hd t = CHR ''/'' \<and> list_all path_byte t)"

definition plain_host :: "string \<Rightarrow> bool" where
  "plain_host h \<longleftrightarrow> list_all host_byte h \<and> port_ok h \<and> CHR ''['' \<notin> set h"

lemma url_parse_plain:
  assumes p: "http_scheme p" and h: "plain_host h" and t: "plain_tail t"
  shows "url_parse (p @ ''://'' @ h @ t) = Some \<lparr>uScheme = p, uHost = h, uPath = t\<rparr>"
proof -
  have hb: "\<And>c. c \<in> set h \<Longrightarrow> host_byte c"
    using h by (simp add: plain_host_def list_all_iff)
  have tb: "\<And>c. c \<in> set t \<Longrightarrow> path_byte c"
    using t by (auto simp: plain_tail_def list_all_iff)
  note ex = host_byte_excludes [OF hb]
  have notin: "CHR ''#'' \<notin> set (h @ t)" "CHR ''?'' \<notin> set (h @ t)" "CHR ''/'' \<notin> set h"
    using ex(3) [of "CHR ''#''"] ex(2) [of "CHR ''?''"] ex(1) [of "CHR ''/''"]
      tb [of "CHR ''#''"] tb [of "CHR ''?''"]
    by (auto simp: path_byte_def)
  have pn: "CHR ''#'' \<notin> set p"
    using p by (auto simp: http_scheme_def)
  have cut: "Cut (p @ ''://'' @ h @ t) (CHR ''#'') = (p @ ''://'' @ h @ t, [], False)"
    using notin(1) pn by (auto simp: Cut_def takeWhile_neq_id dropWhile_neq_Nil)
  have q: "takeWhile (\<lambda>x. x \<noteq> CHR ''?'') (h @ t) = h @ t"
    using notin(2) by (rule takeWhile_neq_id)
  have tl: "takeWhile (\<lambda>x. x \<noteq> CHR ''/'') t = []" "dropWhile (\<lambda>x. x \<noteq> CHR ''/'') t = t"
    using t by (cases t; simp add: plain_tail_def)+
  have hs: "\<And>x. x \<in> set h \<Longrightarrow> x \<noteq> CHR ''/''"
    using notin(3) by blast
  have a: "takeWhile (\<lambda>x. x \<noteq> CHR ''/'') (h @ t) = h" "dropWhile (\<lambda>x. x \<noteq> CHR ''/'') (h @ t) = t"
    using takeWhile_append2 [of h "\<lambda>x. x \<noteq> CHR ''/''" t]
      dropWhile_append2 [of h "\<lambda>x. x \<noteq> CHR ''/''" t] hs tl by simp_all
  have c: "\<not> list_ex ctl_byte (h @ t)"
    using ex(6) tb by (auto simp: list_ex_iff path_byte_def)
  have auth: "parse_authority h = Some h"
    using h hb by (intro parse_authority_host_bytes) (auto simp: plain_host_def)
  have path: "unescape EncodePath t = Some t"
    using tb by (intro unescape_plain) (auto simp: path_byte_def plain_allowed_def)
  show ?thesis
    unfolding url_parse_def cut Let_def
    using url_parse0_http [OF p, of "h @ t"]
    by (simp only: q a c auth path Let_def if_False option.case option.map prod.case simp_thms if_True)
qed

text \<open>Parsing \<open>a/b\<close> keeps nothing of a host beyond host bytes: the converse of the lemma above.\<close>

lemma parse_host_no_bracket:
  assumes "parse_host s = Some h" and "CHR ''['' \<notin> set h"
  shows "CHR ''['' \<notin> set s"
proof (rule ccontr)
  assume "\<not> CHR ''['' \<notin> set s"
  then obtain o1 where "LastIndexByte s (CHR ''['') = Some o1"
    using LastIndexByte_None [of s "CHR ''[''"] by auto
  with assms(1) have "hd h = CHR ''['' \<and> h \<noteq> []"
    by (auto simp: parse_host_def Let_def split: if_splits option.splits prod.splits)
  with assms(2) show False by (metis hd_in_set)
qed

lemma url_parse_plain_host:
  assumes p: "http_scheme p" and u: "url_parse (p @ ''://'' @ s) = Some u"
    and b: "CHR ''['' \<notin> set (uHost u)" and e: "CHR ''%'' \<notin> set (uHost u)"
  shows "plain_host (uHost u)"
proof -
  have pn: "CHR ''#'' \<notin> set p"
    using p by (auto simp: http_scheme_def)
  have "fst (Cut (p @ ''://'' @ s) (CHR ''#'')) = p @ ''://'' @ takeWhile (\<lambda>x. x \<noteq> CHR ''#'') s"
    using pn by (simp add: Cut_def takeWhile_append)
  with u have "url_parse0 False (p @ ''://'' @ takeWhile (\<lambda>x. x \<noteq> CHR ''#'') s) = Some u"
    by (auto simp: url_parse_def Let_def split: option.splits if_splits prod.splits)
  from this [unfolded url_parse0_http [OF p]]
  obtain auth where "parse_authority auth = Some (uHost u)"
    by (auto simp: Let_def split: option.splits if_splits)
  then obtain s' where s': "parse_host s' = Some (uHost u)"
    by (rule parse_authority_SomeE)
  note nb = parse_host_no_bracket [OF s' b]
  show ?thesis
    using parse_host_stable [OF s' nb e] b by (auto simp: plain_host_def list_all_iff)
qed

text \<open>Which of the two schemes an address has does not matter for its host.\<close>

lemma url_parse0_host:
  assumes "http_scheme p" and "http_scheme q"
  shows "map_option uHost (url_parse0 False (p @ ''://'' @ s)) =
    map_option uHost (url_parse0 False (q @ ''://'' @ s))"
  by (simp add: url_parse0_http [OF assms(1), simplified] url_parse0_http [OF assms(2), simplified]
      Let_def option.map_comp comp_def split: option.split)

lemma url_parse_host:
  assumes "http_scheme p" and "http_scheme q"
  shows "map_option uHost (url_parse (p @ ''://'' @ s)) = map_option uHost (url_parse (q @ ''://'' @ s))"
proof -
  let ?u = "takeWhile (\<lambda>x. x \<noteq> CHR ''#'') s"
  let ?f = "tl (dropWhile (\<lambda>x. x \<noteq> CHR ''#'') s)"
  have cut: "Cut (x @ ''://'' @ s) (CHR ''#'') =
      (x @ ''://'' @ ?u, ?f, CHR ''#'' \<in> set s)" if "http_scheme x" for x
    using that by (auto simp: Cut_def http_scheme_def)
  have "map_option uHost (url_parse (x @ ''://'' @ s)) =
      (if ?f \<noteq> [] \<and> unescape EncodeFragment ?f = None then None
       else map_option uHost (url_parse0 False (x @ ''://'' @ ?u)))" if "http_scheme x" for x
    unfolding url_parse_def cut [OF that] Let_def prod.case
    by (auto split: option.split)
  from this [OF assms(1)] this [OF assms(2)] url_parse0_host [OF assms, of ?u]
  show ?thesis by simp
qed

end
