(* ===== verification/Crc32.thy ===== *)
theory Crc32
  imports GoLib "HOL-Library.Word"
begin

unbundle bit_operations_syntax

text \<open>
  The checksum in the names of the routes a tenant gets: \<open>crc32.Checksum\<close> of the package
  \<open>hash/crc32\<close> over the table \<open>crc32.MakeTable(0xD5828281)\<close>, and the verb \<open>%08x\<close> that prints
  it. The table-driven routine is the one the package runs for such a table; the lemmas relate it
  to the bit-at-a-time division it speeds up, and show that it never maps two addresses that differ
  in one byte to one checksum.
\<close>

section \<open>The checksum\<close>

definition crc_poly :: "32 word" where
  "crc_poly = 0xD5828281"

text \<open>One step of the loop that fills a table entry.\<close>

definition crc_bit :: "32 word \<Rightarrow> 32 word" where
  "crc_bit crc = (if bit crc 0 then drop_bit 1 crc XOR crc_poly else drop_bit 1 crc)"

definition crc_entry :: "32 word \<Rightarrow> 32 word" where
  "crc_entry i = (crc_bit ^^ 8) i"

definition crc_byte :: "char \<Rightarrow> 32 word" where
  "crc_byte c = word_of_nat (byte c)"

text \<open>\<open>crc = tab[byte(crc)^v] ^ (crc >> 8)\<close>\<close>

definition crc_step :: "32 word \<Rightarrow> char \<Rightarrow> 32 word" where
  "crc_step crc v = crc_entry (take_bit 8 crc XOR crc_byte v) XOR drop_bit 8 crc"

definition crc_checksum :: "string \<Rightarrow> 32 word" where
  "crc_checksum s = NOT (foldl crc_step (NOT 0) s)"

section \<open>Printing\<close>

definition hex_lower :: "nat \<Rightarrow> char" where
  "hex_lower n = (if n < 10 then char_of (48 + n) else char_of (87 + n))"

text \<open>\<open>%08x\<close> of a 32-bit number has exactly eight digits.\<close>

definition hex08 :: "32 word \<Rightarrow> string" where
  "hex08 w = map (\<lambda>i. hex_lower (unat (take_bit 4 (drop_bit (4 * i) w)))) [7, 6, 5, 4, 3, 2, 1, 0]"

lemma length_hex08 [simp]: "length (hex08 w) = 8"
  by (simp add: hex08_def)

section \<open>The step is linear and loses nothing\<close>

lemma crc_bit_xor: "crc_bit (x XOR y) = crc_bit x XOR crc_bit y"
  by (simp add: crc_bit_def bit_xor_iff drop_bit_xor ac_simps)

lemma crc_bits_xor: "(crc_bit ^^ n) (x XOR y) = (crc_bit ^^ n) x XOR (crc_bit ^^ n) y"
  by (induction n) (simp_all add: crc_bit_xor)

lemma crc_poly_top: "bit crc_poly 31"
  by (simp add: crc_poly_def bit_numeral_word_iff)

lemma xor_eq_0: "x XOR y = (0 :: 32 word) \<longleftrightarrow> x = y"
  by (auto simp: bit_eq_iff bit_xor_iff)

lemma xor_right_cancel: "x XOR a = y XOR a \<longleftrightarrow> x = (y :: 32 word)"
  by (auto simp: bit_eq_iff bit_xor_iff)

lemma xor_left_cancel: "a XOR x = a XOR y \<longleftrightarrow> x = (y :: 32 word)"
  by (auto simp: bit_eq_iff bit_xor_iff)

lemma word32_bit_less: "bit (w :: 32 word) n \<Longrightarrow> n < 32"
  using bit_imp_le_length [of w n] by simp

lemma crc_bit_zero:
  assumes "crc_bit x = 0"
  shows "x = 0"
proof (cases "bit x 0")
  case True
  with assms have "drop_bit 1 x = crc_poly"
    by (simp add: crc_bit_def xor_eq_0)
  then have "bit (drop_bit 1 x) 31" using crc_poly_top by simp
  then have "bit x 32" by (simp add: bit_drop_bit_eq)
  then show ?thesis using word32_bit_less by blast
next
  case False
  with assms have d: "drop_bit 1 x = 0" by (simp add: crc_bit_def)
  have "\<not> bit x n" for n
  proof (cases n)
    case 0
    with False show ?thesis by simp
  next
    case (Suc m)
    have "\<not> bit (drop_bit 1 x) m" unfolding d by simp
    with Suc show ?thesis by (simp add: bit_drop_bit_eq)
  qed
  then show ?thesis by (intro bit_eqI) simp
qed

lemma crc_bits_inj: "(crc_bit ^^ n) x = (crc_bit ^^ n) y \<Longrightarrow> x = y"
proof (induction n arbitrary: x y)
  case (Suc n)
  have "crc_bit ((crc_bit ^^ n) x XOR (crc_bit ^^ n) y) = 0"
    using Suc.prems by (simp add: crc_bit_xor)
  then have "(crc_bit ^^ n) x = (crc_bit ^^ n) y"
    using crc_bit_zero xor_eq_0 by blast
  then show ?case by (rule Suc.IH)
qed simp

lemma crc_bits_zero [simp]: "(crc_bit ^^ n) 0 = 0"
  by (induction n) (simp_all add: crc_bit_def)

section \<open>The table-driven step is eight steps of the division\<close>

lemma crc_bits_high:
  "take_bit n x = 0 \<Longrightarrow> (crc_bit ^^ n) x = drop_bit n x"
proof (induction n arbitrary: x)
  case (Suc n)
  from Suc.prems have b0: "\<not> bit x 0"
    by (auto simp: bit_eq_iff bit_take_bit_iff)
  then have e: "crc_bit x = drop_bit 1 x" by (simp add: crc_bit_def)
  have "take_bit n (drop_bit 1 x) = 0"
    using Suc.prems word32_bit_less by (auto simp: bit_eq_iff bit_take_bit_iff bit_drop_bit_eq)
  then have "(crc_bit ^^ n) (drop_bit 1 x) = drop_bit n (drop_bit 1 x)"
    by (rule Suc.IH)
  then show ?case
    by (simp only: funpow_Suc_right comp_apply e drop_bit_drop_bit) simp
qed simp

text \<open>The reference routine: the byte is added to the remainder and divided bit by bit.\<close>

definition crc_ref_step :: "32 word \<Rightarrow> char \<Rightarrow> 32 word" where
  "crc_ref_step crc v = (crc_bit ^^ 8) (crc XOR crc_byte v)"

lemma crc_byte_inject: "crc_byte c = crc_byte d \<longleftrightarrow> c = d"
proof
  assume "crc_byte c = crc_byte d"
  then have "unat (crc_byte c) = unat (crc_byte d)" by simp
  moreover have "unat (crc_byte x) = byte x" for x
    by (simp add: crc_byte_def unsigned_of_nat take_bit_nat_eq_self_iff less_trans [OF byte_less])
  ultimately show "c = d" by simp
qed simp

lemma crc_step_ref: "crc_step crc v = crc_ref_step crc v"
proof -
  define hi where "hi = crc AND NOT (mask 8)"
  have crc: "crc = take_bit 8 crc XOR hi"
    by (rule bit_eqI) (auto simp: hi_def bit_simps)
  have "take_bit 8 hi = 0"
    by (rule bit_eqI) (auto simp: hi_def bit_simps)
  moreover have "drop_bit 8 hi = drop_bit 8 crc"
    using word32_bit_less by (intro bit_eqI) (force simp: hi_def bit_simps)
  ultimately have hi: "(crc_bit ^^ 8) hi = drop_bit 8 crc"
    by (simp only: crc_bits_high)
  have "crc XOR crc_byte v = (take_bit 8 crc XOR crc_byte v) XOR hi"
    by (subst crc) (simp only: ac_simps)
  then have "crc_ref_step crc v = (crc_bit ^^ 8) (take_bit 8 crc XOR crc_byte v) XOR (crc_bit ^^ 8) hi"
    unfolding crc_ref_step_def by (simp only: crc_bits_xor)
  with hi show ?thesis by (simp only: crc_step_def crc_entry_def)
qed

lemma crc_ref_step_inj_state: "crc_ref_step x v = crc_ref_step y v \<Longrightarrow> x = y"
  unfolding crc_ref_step_def
  by (drule crc_bits_inj) (simp add: xor_right_cancel)

lemma crc_ref_step_inj_byte: "crc_ref_step x u = crc_ref_step x v \<Longrightarrow> u = v"
  unfolding crc_ref_step_def
  by (drule crc_bits_inj) (simp add: xor_left_cancel crc_byte_inject)

lemma foldl_crc_inj_state: "foldl crc_ref_step x s = foldl crc_ref_step y s \<Longrightarrow> x = y"
  by (induction s arbitrary: x y) (auto dest: crc_ref_step_inj_state)

lemma crc_step_is_ref: "crc_step = crc_ref_step"
  by (intro ext) (rule crc_step_ref)

lemma NOT_word_inject: "NOT x = NOT (y :: 32 word) \<longleftrightarrow> x = y"
  by (metis bit.double_compl)

lemma crc_checksum_ref: "crc_checksum s = NOT (foldl crc_ref_step (NOT 0) s)"
  by (simp add: crc_checksum_def crc_step_is_ref)

lemma crc_checksum_one_byte:
  assumes "u \<noteq> v"
  shows "crc_checksum (p @ u # q) \<noteq> crc_checksum (p @ v # q)"
  using assms
  by (auto simp: crc_checksum_ref NOT_word_inject dest!: foldl_crc_inj_state crc_ref_step_inj_byte)

section \<open>Printed checksums\<close>

lemma byte_hex_lower: "n < 16 \<Longrightarrow> byte (hex_lower n) = (if n < 10 then 48 + n else 87 + n)"
  by (simp add: hex_lower_def)

lemma hex_digit_code_inject:
  "m < 16 \<Longrightarrow> n < 16 \<Longrightarrow>
     (if m < 10 then 48 + m else 87 + m) = (if n < 10 then 48 + n else 87 + n :: nat) \<Longrightarrow> m = n"
  by presburger

lemma hex_lower_inject: "m < 16 \<Longrightarrow> n < 16 \<Longrightarrow> hex_lower m = hex_lower n \<longleftrightarrow> m = n"
  by (metis byte_hex_lower hex_digit_code_inject)

lemma nibble_less: "unat (take_bit 4 (w :: 32 word)) < 16"
  unfolding unsigned_take_bit_eq by (simp add: take_bit_eq_mod)

lemma hex08_inject: "hex08 x = hex08 y \<longleftrightarrow> x = y"
proof
  assume eq: "hex08 x = hex08 y"
  have nib: "take_bit 4 (drop_bit (4 * k) x) = take_bit 4 (drop_bit (4 * k) y)"
    if "k \<in> set [7, 6, 5, 4, 3, 2, 1, 0]" for k
    using eq that unfolding hex08_def
    by (simp only: map_eq_conv) (metis hex_lower_inject nibble_less word_eq_iff_unsigned)
  have "bit x n = bit y n" if "n < 32" for n
  proof -
    have k: "n div 4 \<in> set [7, 6, 5, 4, 3, 2, 1, 0]" using that by auto
    have n: "n = 4 * (n div 4) + n mod 4" "n mod 4 < 4" by simp_all
    have "bit w n = bit (take_bit 4 (drop_bit (4 * (n div 4)) w)) (n mod 4)" for w :: "32 word"
      by (simp add: bit_simps)
    then show ?thesis by (simp only: nib [OF k])
  qed
  then show "x = y" by (intro bit_eqI) (auto dest: word32_bit_less)
qed simp

end
