(* ===== verification/TenantDomain.thy ===== *)
theory TenantDomain
  imports PaasDomain NetUrl Crc32
begin

text \<open>
  The tenant model of \<open>domain/domain.go\<close>: addresses and their host part, the scheme of a tenant
  (\<open>TenantDns\<close>: site, then service, then list of addresses), its translation to and from platform
  routes, its merge with the general routes, and the registration of virtual services. A field of
  \<open>TenantDns\<close> has the prefix \<open>t\<close>. A method with a pointer receiver returns the updated value.
\<close>

section \<open>Addresses\<close>

text \<open>\<open>type Address string\<close>, ordered as its string (bytes, lexicographic).\<close>

datatype address = Address string

fun addr :: "address \<Rightarrow> string" where
  "addr (Address s) = s"

instantiation address :: linorder
begin

definition less_eq_address :: "address \<Rightarrow> address \<Rightarrow> bool" where
  "less_eq_address a b \<longleftrightarrow> addr a \<le> addr b"

definition less_address :: "address \<Rightarrow> address \<Rightarrow> bool" where
  "less_address a b \<longleftrightarrow> addr a < addr b"

instance
proof
  fix x y z :: address
  show "x < y \<longleftrightarrow> x \<le> y \<and> \<not> y \<le> x"
    by (auto simp: less_address_def less_eq_address_def)
  show "x \<le> x" by (simp add: less_eq_address_def)
  show "x \<le> y \<Longrightarrow> y \<le> z \<Longrightarrow> x \<le> z" by (simp add: less_eq_address_def)
  show "x \<le> y \<Longrightarrow> y \<le> x \<Longrightarrow> x = y"
    by (cases x; cases y) (simp add: less_eq_address_def)
  show "x \<le> y \<or> y \<le> x" by (auto simp: less_eq_address_def)
qed

end

type_synonym address_list = "address list"
type_synonym services = "(string, address_list) gomap"
type_synonym sites = "(string, services) gomap"

definition httpProtocol :: string where "httpProtocol = ''http://''"
definition httpsProtocol :: string where "httpsProtocol = ''https://''"

definition with_protocol :: "string \<Rightarrow> string" where
  "with_protocol s =
     (if \<not> HasPrefix s httpProtocol \<and> \<not> HasPrefix s httpsProtocol then httpsProtocol @ s else s)"

definition Host :: "address \<Rightarrow> string" where
  "Host a = (case url_parse (with_protocol (addr a)) of None \<Rightarrow> [] | Some result \<Rightarrow> uHost result)"

text \<open>The guard of \<open>Path\<close> is a disjunction in the source.\<close>

definition Path :: "address \<Rightarrow> string" where
  "Path a =
     (let s = addr a;
          s' = (if \<not> HasPrefix s httpProtocol \<or> \<not> HasPrefix s httpsProtocol
                then httpsProtocol @ s else s)
      in case url_parse_request_uri s' of None \<Rightarrow> [] | Some result \<Rightarrow> uPath result)"

definition ConcatAddress :: "string \<Rightarrow> string \<Rightarrow> address" where
  "ConcatAddress host suffix =
     (if suffix \<noteq> [] then Address (host @ ''/'' @ suffix) else Address host)"

section \<open>Tenants\<close>

record tenant_dns =
  tTenantId :: string
  tTenantAdmin :: string
  tSites :: sites
  tActive :: bool
  tNamespaces :: "string list"
  tDomainName :: string
  tServiceName :: string
  tTenantName :: string
  tRemoved :: bool

definition zero_tenant :: tenant_dns where
  "zero_tenant = \<lparr>tTenantId = [], tTenantAdmin = [], tSites = NilMap, tActive = False,
     tNamespaces = [], tDomainName = [], tServiceName = [], tTenantName = [], tRemoved = False\<rparr>"

definition GENERAL :: string where "GENERAL = ''GENERAL''"
definition IdentityProviderId :: string where "IdentityProviderId = ''identity-provider''"
definition PublicGatewayServiceId :: string where
  "PublicGatewayServiceId = ''public-gateway-service''"
definition Active :: string where "Active = ''ACTIVE''"

text \<open>The addresses a scheme holds for a service of a site.\<close>

definition addresses_at :: "tenant_dns \<Rightarrow> string \<Rightarrow> string \<Rightarrow> address_list option" where
  "addresses_at t site service =
     (case mlookup (tSites t) site of None \<Rightarrow> None | Some services \<Rightarrow> mlookup services service)"

definition GenerateUniqueNameForRoute :: "tenant_dns \<Rightarrow> string \<Rightarrow> address \<Rightarrow> string" where
  "GenerateUniqueNameForRoute t serviceName a =
     serviceName @ ''-'' @ tTenantId t @ ''-'' @ hex08 (crc_checksum (addr a))"

definition ToRoute :: "tenant_dns \<Rightarrow> string \<Rightarrow> address \<Rightarrow> route" where
  "ToRoute t serviceName a =
     \<lparr>rtMetadata = zero_metadata\<lparr>
        mName := GenerateUniqueNameForRoute t serviceName a,
        mAnnotations := GoMap [(ann_tenant_id, tTenantId t)]\<rparr>,
      rtSpec = \<lparr>rsHost = Host a, rsPath = [], rsService = \<lparr>tgtName = serviceName\<rparr>,
        rsPort = \<lparr>rpTargetPort = 0\<rparr>\<rparr>\<rparr>"

definition AppendToRoutes :: "tenant_dns \<Rightarrow> route list \<Rightarrow> route list" where
  "AppendToRoutes t routes =
     routes @ concat (map (\<lambda>(site, siteServices).
       concat (map (\<lambda>(service, addresses). map (ToRoute t service) addresses)
         (ments siteServices))) (ments (tSites t)))"

text \<open>The loop assigns to keys that are already present, so maps keep their keys and nil maps.\<close>

definition FlattenAddressesToHosts :: "tenant_dns \<Rightarrow> tenant_dns" where
  "FlattenAddressesToHosts t =
     t\<lparr>tSites := mmap (\<lambda>siteName servicesMap.
        mmap (\<lambda>service addresses. map (\<lambda>a. Address (Host a)) addresses) servicesMap) (tSites t)\<rparr>"

text \<open>
  \<open>sort.Sort\<close> by tenant id, then every address list. \<open>sort.Sort\<close> leaves the order of equal
  elements open; the tenant lists of the service have distinct ids.
\<close>

definition sort_services :: "services \<Rightarrow> services" where
  "sort_services services = mmap (\<lambda>service addressList. sort addressList) services"

definition SortTenantDns :: "tenant_dns list \<Rightarrow> tenant_dns list" where
  "SortTenantDns ts =
     map (\<lambda>t. t\<lparr>tSites := mmap (\<lambda>site services. sort_services services) (tSites t)\<rparr>)
       (sort_key tTenantId ts)"

section \<open>From routes to tenants\<close>

text \<open>
  One iteration of the loop of \<open>FromRoutes\<close>: the local map \<open>tmp\<close> from tenant id to tenant is an
  association list. \<open>tr\<close> is a copy of the struct, but its \<open>Sites\<close> is the map the entry of \<open>tmp\<close>
  refers to, so the writes below go to that entry.
\<close>

definition siteId :: string where "siteId = ''default''"

definition from_routes_step ::
  "(string \<times> tenant_dns) list \<Rightarrow> route \<Rightarrow> (string \<times> tenant_dns) list" where
  "from_routes_step tmp rt =
     (let tenantId = annotation_or (route_annotations rt) ann_tenant_id [];
          tr = (case map_of tmp tenantId of
                  Some tr \<Rightarrow> tr
                | None \<Rightarrow> zero_tenant\<lparr>tSites := mempty, tTenantId := tenantId\<rparr>);
          services = (case mlookup (tSites tr) siteId of Some services \<Rightarrow> services | None \<Rightarrow> mempty);
          serviceName = route_service rt;
          addresses = (case mlookup services serviceName of Some as \<Rightarrow> as | None \<Rightarrow> []);
          addresses' = addresses @ [ConcatAddress (route_host rt)
            (annotation_or (route_annotations rt) ann_suffix [])];
          services' = GoMap (AList.update serviceName addresses' (ments services));
          sites' = GoMap (AList.update siteId services' (ments (tSites tr)))
      in AList.update tenantId (tr\<lparr>tSites := sites'\<rparr>) tmp)"

definition FromRoutes :: "route list \<Rightarrow> tenant_dns list" where
  "FromRoutes routes =
     SortTenantDns (map (\<lambda>(k, d). d\<lparr>tActive := True\<rparr>) (foldl from_routes_step [] routes))"

section \<open>Merging with the general routes\<close>

definition routesToServices :: "route list \<Rightarrow> services" where
  "routesToServices routes =
     GoMap (foldl (\<lambda>es rt. AList.update (route_service rt) [Address (route_host rt)] es) [] routes)"

definition clone :: "services \<Rightarrow> services" where
  "clone s =
     GoMap (foldl (\<lambda>es (service, addresses). foldl (\<lambda>es' a.
         AList.update service ((case map_of es' service of Some as \<Rightarrow> as | None \<Rightarrow> []) @ [a]) es')
       es addresses) [] (ments s))"

definition fromGeneralRoutes :: "tenant_dns \<Rightarrow> route list \<Rightarrow> tenant_dns" where
  "fromGeneralRoutes scheme generalRoutes =
     (let services = routesToServices generalRoutes in
      zero_tenant\<lparr>tActive := tActive scheme, tTenantId := tTenantId scheme,
        tTenantAdmin := tTenantAdmin scheme,
        tSites := GoMap (foldl (\<lambda>es site. AList.update site (clone services) es) []
          (mkeys (tSites scheme))),
        tNamespaces := tNamespaces scheme, tDomainName := tDomainName scheme,
        tTenantName := tTenantName scheme, tServiceName := tServiceName scheme\<rparr>)"

text \<open>
  \<open>m[site][service] = addresses\<close>: the inner map is found (a missing key gives a nil map) and
  written to, which panics on a nil map.
\<close>

definition put_in_site :: "string \<Rightarrow> string \<Rightarrow> address_list \<Rightarrow> (sites, unit) go" where
  "put_in_site site service addresses = (\<lambda>m.
     case mput service addresses (case mlookup m site of Some inner \<Rightarrow> inner | None \<Rightarrow> NilMap) of
       Ok inner' \<Rightarrow> (Ok (), GoMap (AList.update site inner' (ments m)))
     | Err e \<Rightarrow> (Err e, m)
     | Panic p \<Rightarrow> (Panic p, m))"

definition merge_sites :: "sites \<Rightarrow> (sites, unit) go" where
  "merge_sites db = gfor (ments db) (\<lambda>(dbSite, dbServices).
     gfor (ments dbServices) (\<lambda>(dbService, dbAddresses).
       put_in_site dbSite dbService dbAddresses))"

definition MergeDatabaseSchemeWithGeneralRoutes ::
  "tenant_dns \<Rightarrow> route list \<Rightarrow> tenant_dns result" where
  "MergeDatabaseSchemeWithGeneralRoutes dbScheme generalRoutes =
     (let generalScheme = fromGeneralRoutes dbScheme generalRoutes in
      case merge_sites (tSites dbScheme) (tSites generalScheme) of
        (Ok _, sites) \<Rightarrow> Ok (generalScheme\<lparr>tSites := sites\<rparr>)
      | (Err e, _) \<Rightarrow> Err e
      | (Panic p, _) \<Rightarrow> Panic p)"

text \<open>Deleting entries of a map while ranging over it is defined in Go.\<close>

definition FilterBySite :: "tenant_dns \<Rightarrow> string \<Rightarrow> tenant_dns" where
  "FilterBySite tenant site =
     tenant\<lparr>tSites := foldl (\<lambda>m tenantSite. if tenantSite \<noteq> site then mdelete tenantSite m else m)
       (tSites tenant) (mkeys (tSites tenant))\<rparr>"

section \<open>Virtual services\<close>

record service_port =
  spServicePort :: int32
  spPortName :: string

record service_registration =
  srOriginalService :: string
  srPort :: service_port
  srVirtualService :: string
  srVirtualServiceAnnotations :: annotations
  srHostname :: string

text \<open>\<open>strings.ReplaceAll(s, "-", " ")\<close> has a pattern of one byte.\<close>

definition display_name :: "string \<Rightarrow> string" where
  "display_name s = Title (ReplaceAll s ''-'' '' '')"

definition ToService :: "service_registration \<Rightarrow> service" where
  "ToService s =
     (let annotations0 = [
            (ann_prefix, srVirtualService s),
            (ann_show_name, display_name (srVirtualService s)),
            (ann_type, ''virtual'')];
          annotations = foldl (\<lambda>es (k, v). AList.update k v es) annotations0
            (ments (srVirtualServiceAnnotations s));
          p = (if srPort s = \<lparr>spServicePort = 0, spPortName = []\<rparr>
               then \<lparr>spServicePort = 8080, spPortName = ''web''\<rparr> else srPort s)
      in \<lparr>svMetadata = zero_metadata\<lparr>mName := srVirtualService s, mAnnotations := GoMap annotations\<rparr>,
          svSpec = \<lparr>ssPorts = [\<lparr>pName = spPortName p, pProtocol = ''TCP'', pPort = spServicePort p,
              pTargetPort = spServicePort p, pNodePort = 0\<rparr>],
            ssSelector = GoMap [(''name'', srOriginalService s)], ssClusterIP = [],
            ssType = ''ClusterIP''\<rparr>\<rparr>)"

definition registration_ToRoute :: "service_registration \<Rightarrow> string \<Rightarrow> string \<Rightarrow> route" where
  "registration_ToRoute s platformHost namespace =
     (let host = (if srHostname s \<noteq> [] then Address (srHostname s)
            else Address (srVirtualService s @ ''-'' @ namespace @ ''.'' @ platformHost))
      in \<lparr>rtMetadata = zero_metadata\<lparr>
            mName := srVirtualService s,
            mAnnotations := GoMap [
              (ann_tenant_id, GENERAL),
              (ann_show_name, display_name (srVirtualService s)),
              (ann_id, srVirtualService s),
              (ann_type, ''virtual'')]\<rparr>,
          rtSpec = \<lparr>rsHost = Host host, rsPath = [],
            rsService = \<lparr>tgtName = srVirtualService s\<rparr>,
            rsPort = \<lparr>rpTargetPort = spServicePort (srPort s)\<rparr>\<rparr>\<rparr>)"

definition isHostnameLengthCorrect :: "string \<Rightarrow> bool" where
  "isHostnameLengthCorrect host \<longleftrightarrow> length host < 64"

definition isFQDNLengthCorrect :: "string \<Rightarrow> bool" where
  "isFQDNLengthCorrect host \<longleftrightarrow> length host < 256"

definition IsRouteValid :: "route \<Rightarrow> string \<Rightarrow> string \<times> bool" where
  "IsRouteValid rt namespace =
     (let FQDN = route_host rt in
      if FQDN = [] then
        let routeNameWithNamespace = route_name rt @ namespace in
        if \<not> isHostnameLengthCorrect routeNameWithNamespace
        then (''Hostname '' @ routeNameWithNamespace @ '' is too long (more than 63 characters)'', False)
        else ([], True)
      else
        let hostName = (case Index FQDN ''.'' of Some i \<Rightarrow> take i FQDN | None \<Rightarrow> []) in
        if \<not> isHostnameLengthCorrect hostName
        then (''Hostname '' @ hostName @ '' is too long (more than 63 characters)'', False)
        else if \<not> isFQDNLengthCorrect FQDN
        then (''FQDN '' @ FQDN @ '' is too long (more than 255 characters)'', False)
        else ([], True))"

section \<open>Hosts\<close>

text \<open>An address with a protocol: the protocol, the host and the rest after the host.\<close>

lemma with_protocol_http:
  "http_scheme p \<Longrightarrow> with_protocol (p @ ''://'' @ s) = p @ ''://'' @ s"
  by (auto simp: with_protocol_def httpProtocol_def httpsProtocol_def http_scheme_def)

lemma httpsProtocol_scheme: "httpsProtocol @ s = ''https'' @ ''://'' @ s" "http_scheme ''https''"
  by (simp_all add: httpsProtocol_def http_scheme_def)

lemma with_protocol_cases:
  obtains p t where "http_scheme p" and "with_protocol s = p @ ''://'' @ t"
proof (cases "HasPrefix s httpProtocol \<or> HasPrefix s httpsProtocol")
  case True
  then obtain q where "s = httpProtocol @ q \<or> s = httpsProtocol @ q"
    by (auto elim: HasPrefixE)
  with True that [of "''http''" q] that [of "''https''" q] show ?thesis
    by (auto simp: with_protocol_def httpProtocol_def httpsProtocol_def http_scheme_def)
next
  case False
  with that [of "''https''" s] show ?thesis
    by (simp add: with_protocol_def httpsProtocol_def http_scheme_def)
qed

lemma plain_host_no_slash: "plain_host h \<Longrightarrow> CHR ''/'' \<notin> set h"
  using host_byte_excludes(1) by (auto simp: plain_host_def list_all_iff)

lemma with_protocol_bare: "CHR ''/'' \<notin> set s \<Longrightarrow> with_protocol s = httpsProtocol @ s"
  by (auto simp: with_protocol_def httpProtocol_def httpsProtocol_def elim!: HasPrefixE)

lemma Host_with_scheme:
  assumes "http_scheme p" and "plain_host h" and "plain_tail t"
  shows "Host (Address (p @ ''://'' @ h @ t)) = h"
  using url_parse_plain [OF assms] with_protocol_http [OF assms(1), of "h @ t"]
  by (simp add: Host_def)

lemma Host_bare: "plain_host h \<Longrightarrow> Host (Address h) = h"
  using url_parse_plain [OF httpsProtocol_scheme(2), of h "[]"]
  by (simp add: Host_def with_protocol_bare plain_host_no_slash httpsProtocol_def plain_tail_def)

text \<open>What \<open>Host\<close> returns is a plain host, IPv6 literals and percent signs apart.\<close>

definition simple_host :: "address \<Rightarrow> bool" where
  "simple_host a \<longleftrightarrow> CHR ''['' \<notin> set (Host a) \<and> CHR ''%'' \<notin> set (Host a)"

lemma plain_host_Nil: "plain_host []"
  by (simp add: plain_host_def port_ok_def)

lemma Host_plain_host:
  assumes "simple_host a"
  shows "plain_host (Host a)"
proof -
  obtain p t where p: "http_scheme p" and w: "with_protocol (addr a) = p @ ''://'' @ t"
    by (rule with_protocol_cases)
  show ?thesis
  proof (cases "url_parse (with_protocol (addr a))")
    case None
    then show ?thesis by (simp add: Host_def plain_host_Nil)
  next
    case (Some u)
    with assms url_parse_plain_host [OF p, of t u] show ?thesis
      by (simp add: Host_def simple_host_def w)
  qed
qed

lemma Host_Host: "simple_host a \<Longrightarrow> Host (Address (Host a)) = Host a"
  by (intro Host_bare Host_plain_host)

lemma simple_host_Host: "simple_host a \<Longrightarrow> simple_host (Address (Host a))"
  by (simp add: simple_host_def Host_Host)

end
