(* ===== verification/TenantLemmas.thy ===== *)
theory TenantLemmas
  imports TenantDomain
begin

text \<open>
  What \<open>domain/domain.go\<close> guarantees: the content of the tenants \<open>FromRoutes\<close> builds, the
  round trip through \<open>AppendToRoutes\<close>, the result of merging a scheme with the general routes and
  of filtering it, the names of generated routes and the objects of a virtual service.
\<close>

section \<open>Flattening\<close>

lemma flatten_sites:
  "tSites (FlattenAddressesToHosts t) = mmap (\<lambda>siteName servicesMap.
     mmap (\<lambda>service addresses. map (\<lambda>a. Address (Host a)) addresses) servicesMap) (tSites t)"
  by (simp add: FlattenAddressesToHosts_def)

lemma addresses_at_flatten:
  "addresses_at (FlattenAddressesToHosts t) site service =
     map_option (map (\<lambda>a. Address (Host a))) (addresses_at t site service)"
  by (simp add: addresses_at_def flatten_sites split: option.splits)

lemma mmap_mmap: "mmap f (mmap g m) = mmap (\<lambda>k v. f k (g k v)) m"
  by (cases m) (auto simp: comp_def case_prod_beta)

lemma mmap_cong_ents:
  "(\<And>k v. (k, v) \<in> set (ments m) \<Longrightarrow> f k v = g k v) \<Longrightarrow> mmap f m = mmap g m"
  by (cases m) auto

text \<open>All the addresses a scheme holds.\<close>

definition all_addresses :: "tenant_dns \<Rightarrow> address list" where
  "all_addresses t = concat (map (\<lambda>(site, services). concat (map snd (ments services)))
     (ments (tSites t)))"

lemma all_addresses_iff:
  "a \<in> set (all_addresses t) \<longleftrightarrow>
     (\<exists>site services service as. (site, services) \<in> set (ments (tSites t)) \<and>
        (service, as) \<in> set (ments services) \<and> a \<in> set as)"
  by (force simp: all_addresses_def)

text \<open>
  Flattening turns every address into its host, keeps every site and service, and a second
  flattening changes nothing (for hosts that are no IPv6 literals and hold no percent sign).
\<close>

theorem flatten_idempotent:
  assumes "\<And>a. a \<in> set (all_addresses t) \<Longrightarrow> simple_host a"
  shows "FlattenAddressesToHosts (FlattenAddressesToHosts t) = FlattenAddressesToHosts t \<and>
    (\<forall>site service. addresses_at (FlattenAddressesToHosts t) site service =
       map_option (map (\<lambda>a. Address (Host a))) (addresses_at t site service))"
proof
  have simple: "simple_host a" if "(site, m) \<in> set (ments (tSites t))"
      "(service, as) \<in> set (ments m)" "a \<in> set as" for site m service as a
    using assms that all_addresses_iff by blast
  have "mmap (\<lambda>s m. mmap (\<lambda>v as. map (\<lambda>a. Address (Host a)) as)
          (mmap (\<lambda>v as. map (\<lambda>a. Address (Host a)) as) m)) (tSites t) =
        mmap (\<lambda>s m. mmap (\<lambda>v as. map (\<lambda>a. Address (Host a)) as) m) (tSites t)"
    unfolding mmap_mmap
    by (intro mmap_cong_ents) (auto intro: Host_Host simple)
  then show "FlattenAddressesToHosts (FlattenAddressesToHosts t) = FlattenAddressesToHosts t"
    by (simp add: FlattenAddressesToHosts_def mmap_mmap)
qed (simp add: addresses_at_flatten)

text \<open>A scheme with one site for the witnesses.\<close>

definition sample_tenant :: tenant_dns where
  "sample_tenant = zero_tenant\<lparr>tTenantId := ''t1'', tSites := GoMap [(''default'',
     GoMap [(''shop'', [Address ''http://a.com/x'', Address ''b.com'']),
            (''bank'', [Address ''https://c.com'', Address ''a.com''])])]\<rparr>"

lemma flatten_idempotent_witness:
  "FlattenAddressesToHosts (FlattenAddressesToHosts sample_tenant) =
     FlattenAddressesToHosts sample_tenant \<and>
   addresses_at (FlattenAddressesToHosts sample_tenant) ''default'' ''shop'' =
     Some [Address ''a.com'', Address ''b.com'']"
proof -
  have hosts: "Host (Address ''http://a.com/x'') = ''a.com''" "Host (Address ''b.com'') = ''b.com''"
    "Host (Address ''https://c.com'') = ''c.com''" "Host (Address ''a.com'') = ''a.com''"
    by code_simp+
  have "simple_host a" if "a \<in> set (all_addresses sample_tenant)" for a
    using that hosts
    by (auto simp: all_addresses_def sample_tenant_def simple_host_def)
  note * = flatten_idempotent [OF this]
  have "addresses_at sample_tenant ''default'' ''shop'' =
      Some [Address ''http://a.com/x'', Address ''b.com'']"
    by (simp add: addresses_at_def sample_tenant_def)
  with * show ?thesis by (simp add: hosts)
qed

section \<open>From routes to tenants\<close>

text \<open>The address a route stands for, its tenant, and what the routes hold for a service.\<close>

definition route_tenant :: "route \<Rightarrow> string" where
  "route_tenant r = annotation_or (route_annotations r) ann_tenant_id []"

definition route_address :: "route \<Rightarrow> address" where
  "route_address r =
     ConcatAddress (route_host r) (annotation_or (route_annotations r) ann_suffix [])"

definition route_addresses :: "route list \<Rightarrow> string \<Rightarrow> string \<Rightarrow> address list" where
  "route_addresses rs T S =
     map route_address (filter (\<lambda>r. route_tenant r = T \<and> route_service r = S) rs)"

definition some_list :: "'a list \<Rightarrow> 'a list option" where
  "some_list xs = (if xs = [] then None else Some xs)"

text \<open>What the loop knows of the tenant \<open>tr\<close> it has built for id \<open>T\<close> from the routes \<open>rs\<close>.\<close>

definition built_from :: "route list \<Rightarrow> string \<Rightarrow> tenant_dns \<Rightarrow> bool" where
  "built_from rs T tr \<longleftrightarrow>
     (\<exists>services. tr = zero_tenant\<lparr>tSites := GoMap [(siteId, GoMap services)], tTenantId := T\<rparr> \<and>
        distinct (map fst services) \<and>
        (\<forall>S. map_of services S = some_list (route_addresses rs T S)))"

lemma route_addresses_append:
  "route_addresses (rs @ [r]) T S = route_addresses rs T S @
     (if route_tenant r = T \<and> route_service r = S then [route_address r] else [])"
  by (simp add: route_addresses_def)

lemma some_list_snoc [simp]: "some_list (xs @ [x]) = Some (xs @ [x])"
  by (simp add: some_list_def)

lemma case_some_list [simp]: "(case some_list xs of Some as \<Rightarrow> as | None \<Rightarrow> []) = xs"
  by (simp add: some_list_def)

lemma from_routes_step_lookup:
  assumes inv: "\<And>T. case map_of tmp T of
      None \<Rightarrow> T \<notin> route_tenant ` set rs | Some tr \<Rightarrow> T \<in> route_tenant ` set rs \<and> built_from rs T tr"
  shows "case map_of (from_routes_step tmp r) T of
      None \<Rightarrow> T \<notin> route_tenant ` set (rs @ [r])
    | Some tr \<Rightarrow> T \<in> route_tenant ` set (rs @ [r]) \<and> built_from (rs @ [r]) T tr"
proof (cases "T = route_tenant r")
  case False
  then have "map_of (from_routes_step tmp r) T = map_of tmp T"
    by (simp add: from_routes_step_def Let_def route_tenant_def)
  moreover have "built_from (rs @ [r]) T tr = built_from rs T tr" for tr
    using False by (simp add: built_from_def route_addresses_append)
  ultimately show ?thesis using inv [of T] False by (auto split: option.splits)
next
  case True
  let ?S = "route_service r"
  let ?as = "route_addresses rs T ?S @ [route_address r]"
  obtain services where dist: "distinct (map fst services)"
    and look: "\<And>S. map_of services S = some_list (route_addresses rs T S)"
    and tr: "map_of (from_routes_step tmp r) T = Some (zero_tenant\<lparr>tSites :=
        GoMap [(siteId, GoMap (AList.update ?S ?as services))], tTenantId := T\<rparr>)"
  proof (cases "map_of tmp T")
    case None
    with inv [of T] have "\<And>S. route_addresses rs T S = []"
      by (auto simp: route_addresses_def filter_empty_conv)
    with None True that [of "[]"] show ?thesis
      by (simp add: from_routes_step_def Let_def route_tenant_def [symmetric]
          route_address_def [symmetric] some_list_def)
  next
    case (Some tr)
    with inv [of T] obtain services where
      "tr = zero_tenant\<lparr>tSites := GoMap [(siteId, GoMap services)], tTenantId := T\<rparr>"
      and d: "distinct (map fst services)"
      and l: "\<And>S. map_of services S = some_list (route_addresses rs T S)"
      by (auto simp: built_from_def)
    with Some True show ?thesis
      by (intro that [OF d l]) (simp add: from_routes_step_def Let_def
          route_tenant_def [symmetric] route_address_def [symmetric])
  qed
  have "built_from (rs @ [r]) T (zero_tenant\<lparr>tSites :=
      GoMap [(siteId, GoMap (AList.update ?S ?as services))], tTenantId := T\<rparr>)"
    unfolding built_from_def using True
    by (intro exI [of _ "AList.update ?S ?as services"])
      (auto simp: dist distinct_update look route_addresses_append)
  with tr True show ?thesis by simp
qed

lemma from_routes_lookup:
  "case map_of (foldl from_routes_step [] rs) T of
     None \<Rightarrow> T \<notin> route_tenant ` set rs
   | Some tr \<Rightarrow> T \<in> route_tenant ` set rs \<and> built_from rs T tr"
proof (induction rs arbitrary: T rule: rev_induct)
  case (snoc r rs)
  then show ?case using from_routes_step_lookup [OF snoc.IH] by simp
qed simp

lemma from_routes_distinct: "distinct (map fst (foldl from_routes_step [] rs))"
proof (induction rs rule: rev_induct)
  case (snoc r rs)
  then show ?case by (simp add: from_routes_step_def Let_def distinct_update del: map_map)
qed simp

text \<open>The list of tenants before it is sorted: one per tenant id, in map order.\<close>

lemma from_routes_entry:
  assumes "(T, tr) \<in> set (foldl from_routes_step [] rs)"
  shows "T \<in> route_tenant ` set rs" and "built_from rs T tr"
  using from_routes_lookup [where rs = rs and T = T]
    map_of_is_SomeI [OF from_routes_distinct assms] by simp_all

lemma built_from_id: "built_from rs T tr \<Longrightarrow> tTenantId tr = T"
  by (auto simp: built_from_def)

lemma from_routes_ids:
  "map tTenantId (map (\<lambda>(k, d). d\<lparr>tActive := True\<rparr>) (foldl from_routes_step [] rs)) =
     map fst (foldl from_routes_step [] rs)"
  by (auto dest!: from_routes_entry(2) built_from_id)

lemma from_routes_keys: "fst ` set (foldl from_routes_step [] rs) = route_tenant ` set rs"
proof (intro set_eqI iffI)
  fix T assume "T \<in> fst ` set (foldl from_routes_step [] rs)"
  then show "T \<in> route_tenant ` set rs" using from_routes_entry(1) by fastforce
next
  fix T assume "T \<in> route_tenant ` set rs"
  with from_routes_lookup [where rs = rs and T = T] have "map_of (foldl from_routes_step [] rs) T \<noteq> None"
    by (auto split: option.splits)
  then show "T \<in> fst ` set (foldl from_routes_step [] rs)" by (simp add: map_of_eq_None_iff)
qed

lemma sort_map: "map f (sort_key f xs) = sort (map f xs)"
  by (rule properties_for_sort [symmetric]) simp_all

lemma ids_SortTenantDns [simp]: "map tTenantId (SortTenantDns ts) = sort (map tTenantId ts)"
  unfolding sort_map [symmetric] by (simp add: SortTenantDns_def)

lemma set_SortTenantDns:
  "set (SortTenantDns ts) =
     (\<lambda>t. t\<lparr>tSites := mmap (\<lambda>site services. sort_services services) (tSites t)\<rparr>) ` set ts"
  by (simp add: SortTenantDns_def)

lemma addresses_at_sorted:
  "addresses_at (t\<lparr>tSites := mmap (\<lambda>site services. sort_services services) (tSites t)\<rparr>) site service =
     map_option sort (addresses_at t site service)"
  by (simp add: addresses_at_def sort_services_def split: option.splits)

lemma built_from_addresses:
  "built_from rs T tr \<Longrightarrow> addresses_at tr siteId S = some_list (route_addresses rs T S)"
  by (auto simp: built_from_def addresses_at_def)

lemma addresses_at_active [simp]:
  "addresses_at (t\<lparr>tActive := b\<rparr>) site service = addresses_at t site service"
  by (simp add: addresses_at_def)

lemma FromRoutes_member:
  assumes "t \<in> set (FromRoutes rs)"
  shows "tActive t" and "mkeys (tSites t) = [siteId]" and "tTenantId t \<in> route_tenant ` set rs"
    and "addresses_at t siteId S =
      map_option sort (some_list (route_addresses rs (tTenantId t) S))"
proof -
  obtain T tr where e: "(T, tr) \<in> set (foldl from_routes_step [] rs)"
    and t: "t = (tr\<lparr>tActive := True\<rparr>)\<lparr>tSites :=
      mmap (\<lambda>site services. sort_services services) (tSites (tr\<lparr>tActive := True\<rparr>))\<rparr>"
    using assms by (auto simp: FromRoutes_def set_SortTenantDns)
  have b: "built_from rs T tr" and T: "T \<in> route_tenant ` set rs"
    using from_routes_entry e by blast+
  from b have id: "tTenantId t = T" by (auto simp: t built_from_def)
  show "tActive t" by (simp add: t)
  show "mkeys (tSites t) = [siteId]" using b by (auto simp: t built_from_def)
  show "tTenantId t \<in> route_tenant ` set rs" using T id by simp
  show "addresses_at t siteId S =
      map_option sort (some_list (route_addresses rs (tTenantId t) S))"
    unfolding id unfolding t addresses_at_sorted addresses_at_active
    by (simp add: built_from_addresses [OF b])
qed

lemma FromRoutes_ids:
  "sorted (map tTenantId (FromRoutes rs))" "distinct (map tTenantId (FromRoutes rs))"
  "tTenantId ` set (FromRoutes rs) = route_tenant ` set rs"
proof -
  have ids: "map tTenantId (FromRoutes rs) = sort (map fst (foldl from_routes_step [] rs))"
    unfolding FromRoutes_def ids_SortTenantDns from_routes_ids ..
  show "sorted (map tTenantId (FromRoutes rs))" unfolding ids by simp
  show "distinct (map tTenantId (FromRoutes rs))"
    unfolding ids by (simp add: from_routes_distinct)
  have "set (map tTenantId (FromRoutes rs)) = route_tenant ` set rs"
    unfolding ids by (simp add: from_routes_keys)
  then show "tTenantId ` set (FromRoutes rs) = route_tenant ` set rs" by simp
qed

text \<open>
  \<open>FromRoutes\<close> builds exactly one tenant for every tenant id of the routes, in the order of the
  ids. Every tenant is active, has the single site \<open>default\<close>, and holds for a service the sorted
  addresses (host and suffix) of exactly the routes that carry this tenant id and service.
\<close>

theorem FromRoutes_content:
  "sorted (map tTenantId (FromRoutes rs)) \<and> distinct (map tTenantId (FromRoutes rs)) \<and>
   tTenantId ` set (FromRoutes rs) = route_tenant ` set rs \<and>
   list_all (\<lambda>t. tActive t \<and> mkeys (tSites t) = [siteId] \<and>
     (\<forall>S. addresses_at t siteId S =
        map_option sort (some_list (route_addresses rs (tTenantId t) S)))) (FromRoutes rs)"
  using FromRoutes_ids [of rs] FromRoutes_member [of _ rs] by (simp add: list_all_iff)

section \<open>Round trip through the routes of a tenant\<close>

lemma ann_tenant_neq [simp]: "ann_tenant_id \<noteq> ann_suffix" "ann_suffix \<noteq> ann_tenant_id"
  by (simp_all add: ann_defs)

lemma ToRoute_simps [simp]:
  "route_tenant (ToRoute t S a) = tTenantId t" "route_service (ToRoute t S a) = S"
  "route_address (ToRoute t S a) = Address (Host a)" "route_host (ToRoute t S a) = Host a"
  "route_name (ToRoute t S a) = GenerateUniqueNameForRoute t S a"
  by (simp_all add: ToRoute_def route_tenant_def route_address_def annotation_or_def
      ConcatAddress_def zero_metadata_def)

lemma concat_other_keys:
  "k \<notin> fst ` set es \<Longrightarrow> (\<And>k' v. k' \<noteq> k \<Longrightarrow> g k' v = []) \<Longrightarrow> concat (map (\<lambda>(k', v). g k' v) es) = []"
  by (force simp: concat_eq_Nil_conv)

lemma concat_one_key:
  assumes "distinct (map fst es)" and "\<And>k' v. k' \<noteq> k \<Longrightarrow> g k' v = []"
  shows "concat (map (\<lambda>(k', v). g k' v) es) = (case map_of es k of None \<Rightarrow> [] | Some v \<Rightarrow> g k v)"
  using assms
proof (induction es)
  case (Cons e es)
  obtain k' v where e: "e = (k', v)" by (cases e)
  show ?case
  proof (cases "k' = k")
    case True
    with Cons.prems e have "concat (map (\<lambda>(k', v). g k' v) es) = []"
      by (intro concat_other_keys [of k]) auto
    with True e show ?thesis by simp
  next
    case False
    with Cons e show ?thesis by simp
  qed
qed simp

lemma route_addresses_services:
  assumes "distinct (map fst es)"
  shows "route_addresses (concat (map (\<lambda>(service, as). map (ToRoute t service) as) es)) T S =
    (if T = tTenantId t
     then (case map_of es S of None \<Rightarrow> [] | Some as \<Rightarrow> map (\<lambda>a. Address (Host a)) as) else [])"
proof -
  let ?g = "\<lambda>service as. if T = tTenantId t \<and> service = S then map (\<lambda>a. Address (Host a)) as else []"
  have one: "route_addresses (map (ToRoute t service) as) T S = ?g service as" for service as
    by (auto simp: route_addresses_def comp_def)
  have "route_addresses (concat (map (\<lambda>(service, as). map (ToRoute t service) as) es)) T S =
      concat (map (\<lambda>(service, as). ?g service as) es)"
    by (induction es) (auto simp: one [symmetric], auto simp: route_addresses_def)
  also have "\<dots> = (case map_of es S of None \<Rightarrow> [] | Some as \<Rightarrow> ?g S as)"
    using assms by (intro concat_one_key) auto
  finally show ?thesis by (auto split: option.splits)
qed

lemma distinct_one: "set xs = {x} \<Longrightarrow> distinct xs \<Longrightarrow> xs = [x]"
  by (cases xs; cases "tl xs") auto

text \<open>A scheme as the service stores it: maps with distinct keys, the one site, no empty list.\<close>

definition default_scheme :: "tenant_dns \<Rightarrow> bool" where
  "default_scheme t \<longleftrightarrow>
     (\<exists>services. tSites t = GoMap [(siteId, services)] \<and> mwf services \<and> ments services \<noteq> [] \<and>
        (\<forall>as \<in> snd ` set (ments services). as \<noteq> []))"

text \<open>
  C10: The routes generated from a tenant with the one site \<open>default\<close> and no empty address list,
  read back by \<open>FromRoutes\<close>, give the one tenant with its id, with the hosts of its addresses,
  sorted, under every service.
\<close>

theorem routes_roundtrip:
  assumes "default_scheme t"
  shows "map tTenantId (FromRoutes (AppendToRoutes t [])) = [tTenantId t] \<and>
    addresses_at (hd (FromRoutes (AppendToRoutes t []))) siteId S =
      map_option (\<lambda>as. sort (map (\<lambda>a. Address (Host a)) as)) (addresses_at t siteId S)"
proof -
  obtain services where t: "tSites t = GoMap [(siteId, services)]" and d: "mwf services"
    and ne: "ments services \<noteq> []" and full: "\<And>s as. (s, as) \<in> set (ments services) \<Longrightarrow> as \<noteq> []"
    using assms by (force simp: default_scheme_def)
  let ?rs = "AppendToRoutes t []"
  have rs: "?rs = concat (map (\<lambda>(service, as). map (ToRoute t service) as) (ments services))"
    by (simp add: AppendToRoutes_def t)
  obtain s as where "(s, as) \<in> set (ments services)" using ne by (cases "ments services") auto
  with full have ne': "?rs \<noteq> []" by (fastforce simp: rs concat_eq_Nil_conv)
  have "route_tenant ` set ?rs \<subseteq> {tTenantId t}" by (auto simp: rs)
  with ne' have "route_tenant ` set ?rs = {tTenantId t}" by (cases ?rs) auto
  with FromRoutes_ids [of ?rs] have "set (map tTenantId (FromRoutes ?rs)) = {tTenantId t}"
    "distinct (map tTenantId (FromRoutes ?rs))" by simp_all
  then have ids: "map tTenantId (FromRoutes ?rs) = [tTenantId t]" by (rule distinct_one)
  then obtain t' where t': "FromRoutes ?rs = [t']" "tTenantId t' = tTenantId t"
    by (cases "FromRoutes ?rs") auto
  have "addresses_at t' siteId S = map_option sort (some_list (route_addresses ?rs (tTenantId t) S))"
    using FromRoutes_member(4) [of t' ?rs S] t' by simp
  also have "\<dots> = map_option (\<lambda>as. sort (map (\<lambda>a. Address (Host a)) as)) (addresses_at t siteId S)"
  proof (cases "mlookup services S")
    case None
    then show ?thesis using d
      by (simp add: rs route_addresses_services mwf_def addresses_at_def t some_list_def)
  next
    case (Some as)
    then have "as \<noteq> []" using full map_of_SomeD by fastforce
    with Some show ?thesis using d
      by (simp add: rs route_addresses_services mwf_def addresses_at_def t some_list_def)
  qed
  finally show ?thesis using ids t' by simp
qed

lemma routes_roundtrip_witness:
  "map tTenantId (FromRoutes (AppendToRoutes sample_tenant [])) = [''t1''] \<and>
   addresses_at (hd (FromRoutes (AppendToRoutes sample_tenant []))) siteId ''bank'' =
     Some [Address ''a.com'', Address ''c.com'']"
proof -
  have "default_scheme sample_tenant"
    by (simp add: default_scheme_def sample_tenant_def siteId_def mwf_def)
  moreover have "Host (Address ''https://c.com'') = ''c.com''" "Host (Address ''a.com'') = ''a.com''"
    by code_simp+
  ultimately show ?thesis
    using routes_roundtrip [of sample_tenant "''bank''"]
    by (simp add: sample_tenant_def addresses_at_def siteId_def less_eq_address_def)
qed

section \<open>Names of generated routes\<close>

lemma append_eq_length_suffix:
  "length u = length v \<Longrightarrow> x @ u = y @ v \<longleftrightarrow> x = y \<and> u = v"
  by auto

text \<open>
  Two addresses of a tenant's service that differ in one byte get different route names, and
  two generated names are equal only if service and tenant id are written the same and the
  checksums of the addresses agree.
\<close>

theorem route_names_unique:
  assumes "u \<noteq> v"
  shows "GenerateUniqueNameForRoute t S (Address (p @ u # q)) \<noteq>
      GenerateUniqueNameForRoute t S (Address (p @ v # q)) \<and>
    (GenerateUniqueNameForRoute t S a = GenerateUniqueNameForRoute t' S' a' \<longleftrightarrow>
      S @ ''-'' @ tTenantId t = S' @ ''-'' @ tTenantId t' \<and>
      crc_checksum (addr a) = crc_checksum (addr a'))"
proof -
  have eq: "GenerateUniqueNameForRoute t S a = GenerateUniqueNameForRoute t' S' a' \<longleftrightarrow>
      S @ ''-'' @ tTenantId t = S' @ ''-'' @ tTenantId t' \<and>
      crc_checksum (addr a) = crc_checksum (addr a')" for t S a t' S' a'
    unfolding GenerateUniqueNameForRoute_def
    using append_eq_length_suffix [of "CHR ''-'' # hex08 (crc_checksum (addr a))"
        "CHR ''-'' # hex08 (crc_checksum (addr a'))" "S @ ''-'' @ tTenantId t" "S' @ ''-'' @ tTenantId t'"]
    by (simp add: hex08_inject)
  with crc_checksum_one_byte [OF assms, of p q] show ?thesis by simp
qed

lemma route_names_unique_witness:
  "GenerateUniqueNameForRoute sample_tenant ''shop'' (Address ''a1.com'') \<noteq>
   GenerateUniqueNameForRoute sample_tenant ''shop'' (Address ''a2.com'')"
  using route_names_unique [of "CHR ''1''" "CHR ''2''" sample_tenant "''shop''" "''a''" "''.com''",
      THEN conjunct1]
  by simp

section \<open>Merging with the general routes\<close>

lemma foldl_update_lookup:
  "map_of (foldl (\<lambda>es x. AList.update (f x) (g x) es) es0 xs) k =
     (case map_of (rev (map (\<lambda>x. (f x, g x)) xs)) k of Some v \<Rightarrow> Some v | None \<Rightarrow> map_of es0 k)"
  by (induction xs arbitrary: es0) (auto simp: map_of_append split: option.splits)

lemma foldl_update_distinct:
  "distinct (map fst es0) \<Longrightarrow> distinct (map fst (foldl (\<lambda>es x. AList.update (f x) (g x) es) es0 xs))"
  by (induction xs arbitrary: es0) (auto simp: distinct_update)

text \<open>The general address of a service: the host of the last general route to it.\<close>

definition general_addresses :: "route list \<Rightarrow> string \<Rightarrow> address_list option" where
  "general_addresses rs S =
     map_of (rev (map (\<lambda>r. (route_service r, [Address (route_host r)])) rs)) S"

lemma lookup_routesToServices: "mlookup (routesToServices rs) S = general_addresses rs S"
  by (simp add: routesToServices_def general_addresses_def foldl_update_lookup split: option.splits)

lemma clone_inner:
  "map_of (foldl (\<lambda>es' a. AList.update service
       ((case map_of es' service of Some as \<Rightarrow> as | None \<Rightarrow> []) @ [a]) es') es as) k =
     (if k = service then
        (case map_of es service of
           Some old \<Rightarrow> Some (old @ as) | None \<Rightarrow> some_list as)
      else map_of es k)"
  by (induction as arbitrary: es) (auto simp: some_list_def split: option.splits)

lemma clone_fold:
  assumes "distinct (map fst ents)" and "\<And>k. k \<in> fst ` set ents \<Longrightarrow> map_of es0 k = None"
  shows "map_of (foldl (\<lambda>es (service, addresses). foldl (\<lambda>es' a. AList.update service
       ((case map_of es' service of Some as \<Rightarrow> as | None \<Rightarrow> []) @ [a]) es') es addresses) es0 ents) k =
     (case map_of ents k of Some as \<Rightarrow> some_list as | None \<Rightarrow> map_of es0 k)"
  using assms
proof (induction ents arbitrary: es0)
  case (Cons e ents)
  obtain s as where e: "e = (s, as)" by (cases e)
  let ?es = "foldl (\<lambda>es' a. AList.update s
      ((case map_of es' s of Some as \<Rightarrow> as | None \<Rightarrow> []) @ [a]) es') es0 as"
  have s: "s \<notin> fst ` set ents" "map_of es0 s = None" using Cons.prems e by auto
  then have "map_of ents s = None" by (simp add: map_of_eq_None_iff)
  moreover have "map_of ?es k = (if k = s then some_list as else map_of es0 k)" for k
    using s by (simp add: clone_inner)
  moreover have "map_of ?es k = None" if "k \<in> fst ` set ents" for k
    using Cons.prems(2) [of k] e s that by (auto simp: clone_inner simp del: foldl.simps)
  ultimately show ?case
    using Cons.IH [of ?es] Cons.prems(1) e by (simp split: option.split)
qed simp

text \<open>\<open>clone\<close> keeps the non-empty lists and drops the services with an empty one.\<close>

lemma lookup_clone:
  "mwf s \<Longrightarrow> mlookup (clone s) k = (case mlookup s k of Some as \<Rightarrow> some_list as | None \<Rightarrow> None)"
  by (simp add: clone_def clone_fold mwf_def split: option.splits)

text \<open>Site \<open>site\<close> of \<open>m\<close>, overwritten by the services \<open>svcs\<close>, is site \<open>site\<close> of \<open>m'\<close>.\<close>

definition site_written :: "sites \<Rightarrow> sites \<Rightarrow> string \<Rightarrow> (string \<times> address_list) list \<Rightarrow> bool" where
  "site_written m m' site svcs \<longleftrightarrow>
     (\<exists>es es'. mlookup m site = Some (GoMap es) \<and> mlookup m' site = Some (GoMap es') \<and>
        (\<forall>k. map_of es' k = (case map_of (rev svcs) k of Some as \<Rightarrow> Some as | None \<Rightarrow> map_of es k)))"

text \<open>Writing the services of one site into an allocated inner map.\<close>

lemma put_services_run:
  assumes "mlookup m site = Some (GoMap es)"
  shows "\<exists>m'. gfor svcs (\<lambda>(s, as). put_in_site site s as) m = (Ok (), m') \<and>
    site_written m m' site svcs \<and>
    (\<forall>x. x \<noteq> site \<longrightarrow> mlookup m' x = mlookup m x)"
  using assms
proof (induction svcs arbitrary: m es)
  case (Cons sv svcs)
  obtain s as where sv: "sv = (s, as)" by (cases sv)
  let ?m = "GoMap (AList.update site (GoMap (AList.update s as es)) (ments m))"
  have run: "put_in_site site s as m = (Ok (), ?m)"
    using Cons.prems by (simp add: put_in_site_def)
  have "mlookup ?m site = Some (GoMap (AList.update s as es))" by simp
  from Cons.IH [OF this] obtain m' where
    m': "gfor svcs (\<lambda>(s, as). put_in_site site s as) ?m = (Ok (), m')"
    "\<And>x. x \<noteq> site \<Longrightarrow> mlookup m' x = mlookup ?m x"
    and w: "site_written ?m m' site svcs"
    by blast
  have rev: "map_of (rev (sv # svcs)) k = (case map_of (rev svcs) k of Some v \<Rightarrow> Some v
      | None \<Rightarrow> if k = s then Some as else None)" for k
    by (simp add: sv map_of_append map_add_def split: option.split)
  from w obtain es' where "mlookup m' site = Some (GoMap es')"
    and look: "\<And>k. map_of es' k = (case map_of (rev svcs) k of
      Some as \<Rightarrow> Some as | None \<Rightarrow> map_of (AList.update s as es) k)"
    by (auto simp: site_written_def)
  moreover have "map_of es' k = (case map_of (rev (sv # svcs)) k of
      Some as \<Rightarrow> Some as | None \<Rightarrow> map_of es k)" for k
    unfolding look rev by (simp split: option.split)
  ultimately have "site_written m m' site (sv # svcs)"
    using Cons.prems by (simp add: site_written_def)
  with m' show ?case
    by (intro exI [of _ m']) (simp add: sv run gbind_run)
qed (simp add: go_simps site_written_def)

text \<open>Writing all the sites: every site of the list must have an allocated inner map.\<close>

lemma put_sites_run:
  assumes "distinct (map fst db)"
    and "\<And>site services. (site, services) \<in> set db \<Longrightarrow> \<exists>es. mlookup m site = Some (GoMap es)"
  shows "\<exists>m'. gfor db (\<lambda>(dbSite, dbServices). gfor (ments dbServices)
        (\<lambda>(s, as). put_in_site dbSite s as)) m = (Ok (), m') \<and>
    (\<forall>site. case map_of db site of
       None \<Rightarrow> mlookup m' site = mlookup m site
     | Some services \<Rightarrow> site_written m m' site (ments services))"
  using assms
proof (induction db arbitrary: m)
  case (Cons d db)
  obtain site services where d: "d = (site, services)" by (cases d)
  obtain es where es: "mlookup m site = Some (GoMap es)" using Cons.prems(2) d by auto
  from put_services_run [OF es, of "ments services"] obtain m1 where
    run: "gfor (ments services) (\<lambda>(s, as). put_in_site site s as) m = (Ok (), m1)"
    and w: "site_written m m1 site (ments services)"
    and other: "\<And>x. x \<noteq> site \<Longrightarrow> mlookup m1 x = mlookup m x"
    by blast
  have fresh: "site \<notin> fst ` set db" "map_of db site = None"
    using Cons.prems(1) d by (auto simp: map_of_eq_None_iff)
  have "\<exists>es. mlookup m1 x = Some (GoMap es)" if "(x, s) \<in> set db" for x s
    using that fresh Cons.prems(2) [of x s] d other [of x] by (force simp: image_iff)
  with Cons.IH [of m1] Cons.prems(1) d obtain m' where
    run': "gfor db (\<lambda>(dbSite, dbServices). gfor (ments dbServices)
        (\<lambda>(s, as). put_in_site dbSite s as)) m1 = (Ok (), m')"
    and spec: "\<And>x. case map_of db x of None \<Rightarrow> mlookup m' x = mlookup m1 x
      | Some services \<Rightarrow> site_written m1 m' x (ments services)"
    by auto
  have "case map_of (d # db) x of None \<Rightarrow> mlookup m' x = mlookup m x
      | Some services \<Rightarrow> site_written m m' x (ments services)" for x
    using spec [of x] fresh(2) w other [of x] d
    by (cases "x = site") (auto simp: site_written_def split: option.split_asm)
  with run run' d show ?case by (auto simp: gbind_run)
qed (simp add: go_simps)

lemma lookup_foldl_const:
  "map_of (foldl (\<lambda>es site. AList.update site c es) es0 ks) k =
     (if k \<in> set ks then Some c else map_of es0 k)"
  by (induction ks arbitrary: es0) auto

lemma lookup_rev:
  assumes "distinct (map fst es)"
  shows "map_of (rev es) k = map_of es k"
proof -
  have "distinct (map fst (rev es))" using assms by (simp add: rev_map [symmetric])
  with assms have "map_of (rev es) = map_of es" by (subst map_of_inject_set) simp_all
  then show ?thesis by simp
qed

text \<open>All the maps of a scheme have distinct keys.\<close>

definition wf_scheme :: "tenant_dns \<Rightarrow> bool" where
  "wf_scheme t \<longleftrightarrow> mwf (tSites t) \<and> (\<forall>services \<in> snd ` set (ments (tSites t)). mwf services)"

lemma general_sites:
  "mlookup (tSites (fromGeneralRoutes db rs)) site =
     (if site \<in> set (mkeys (tSites db)) then Some (clone (routesToServices rs)) else None)"
  by (simp add: fromGeneralRoutes_def Let_def lookup_foldl_const)

lemma mwf_routesToServices: "mwf (routesToServices rs)"
  by (simp add: routesToServices_def foldl_update_distinct)

lemma general_addresses_nonempty: "general_addresses rs S = Some as \<Longrightarrow> as \<noteq> []"
  by (auto simp: general_addresses_def dest!: map_of_SomeD)

lemma lookup_clone_general:
  "mlookup (clone (routesToServices rs)) S = general_addresses rs S"
  by (auto simp: lookup_clone mwf_routesToServices lookup_routesToServices some_list_def
      dest: general_addresses_nonempty split: option.splits)

text \<open>
  C29: Merging a stored scheme with the general routes never panics. The result has the sites of the
  stored scheme; in each of them a service has its stored addresses if there are any, and otherwise
  the host of the last general route to it.
\<close>

theorem merge_with_general_routes:
  assumes "wf_scheme db"
  shows "\<exists>g. MergeDatabaseSchemeWithGeneralRoutes db rs = Ok g \<and> tTenantId g = tTenantId db \<and>
    (\<forall>site S. addresses_at g site S =
      (if site \<in> set (mkeys (tSites db))
       then (case addresses_at db site S of Some as \<Rightarrow> Some as | None \<Rightarrow> general_addresses rs S)
       else None))"
proof -
  let ?g = "fromGeneralRoutes db rs"
  let ?c = "clone (routesToServices rs)"
  have d: "distinct (map fst (ments (tSites db)))"
    and in_d: "\<And>site m. (site, m) \<in> set (ments (tSites db)) \<Longrightarrow> distinct (mkeys m)"
    using assms by (force simp: wf_scheme_def mwf_def)+
  obtain ces where c: "?c = GoMap ces" by (simp add: clone_def)
  have alloc: "\<exists>es. mlookup (tSites ?g) site = Some (GoMap es)"
    if "(site, m) \<in> set (ments (tSites db))" for site m
    using that by (force simp: general_sites c image_iff)
  have "\<exists>m'. merge_sites (tSites db) (tSites ?g) = (Ok (), m') \<and>
     (\<forall>site. case mlookup (tSites db) site of
       None \<Rightarrow> mlookup m' site = mlookup (tSites ?g) site
     | Some services \<Rightarrow> site_written (tSites ?g) m' site (ments services))"
    unfolding merge_sites_def by (intro put_sites_run d) (rule alloc)
  then obtain m' where
    run: "merge_sites (tSites db) (tSites ?g) = (Ok (), m')"
    and spec: "\<And>site. case mlookup (tSites db) site of
       None \<Rightarrow> mlookup m' site = mlookup (tSites ?g) site
     | Some services \<Rightarrow> site_written (tSites ?g) m' site (ments services)"
    by blast
  have "addresses_at (?g\<lparr>tSites := m'\<rparr>) site S =
      (if site \<in> set (mkeys (tSites db))
       then (case addresses_at db site S of Some as \<Rightarrow> Some as | None \<Rightarrow> general_addresses rs S)
       else None)" for site S
  proof (cases "mlookup (tSites db) site")
    case None
    then have "site \<notin> set (mkeys (tSites db))" by (simp add: map_of_eq_None_iff)
    with None spec [of site] show ?thesis by (simp add: addresses_at_def general_sites)
  next
    case (Some services)
    then have e: "(site, services) \<in> set (ments (tSites db))" by (rule map_of_SomeD)
    then have s: "site \<in> set (mkeys (tSites db))" by force
    have "mlookup ?c S = map_of ces S" by (simp add: c)
    with Some s spec [of site] show ?thesis
      using lookup_rev [OF in_d [OF e]] lookup_clone_general [of rs S]
      by (auto simp: addresses_at_def general_sites site_written_def c split: option.split)
  qed
  moreover have "tTenantId (?g\<lparr>tSites := m'\<rparr>) = tTenantId db"
    by (simp add: fromGeneralRoutes_def Let_def)
  ultimately show ?thesis
    by (intro exI [of _ "?g\<lparr>tSites := m'\<rparr>"])
      (simp add: MergeDatabaseSchemeWithGeneralRoutes_def Let_def run)
qed

definition sample_general_route :: route where
  "sample_general_route = \<lparr>rtMetadata = zero_metadata, rtSpec = \<lparr>rsHost = ''gen.com'', rsPath = [],
     rsService = \<lparr>tgtName = ''gateway''\<rparr>, rsPort = \<lparr>rpTargetPort = 8080\<rparr>\<rparr>\<rparr>"

lemma merge_with_general_routes_witness:
  "\<exists>g. MergeDatabaseSchemeWithGeneralRoutes sample_tenant [sample_general_route] = Ok g \<and>
    addresses_at g ''default'' ''gateway'' = Some [Address ''gen.com''] \<and>
    addresses_at g ''default'' ''bank'' = Some [Address ''https://c.com'', Address ''a.com'']"
proof -
  have "wf_scheme sample_tenant" by (simp add: wf_scheme_def sample_tenant_def mwf_def)
  from merge_with_general_routes [OF this, of "[sample_general_route]"] obtain g where
    g: "MergeDatabaseSchemeWithGeneralRoutes sample_tenant [sample_general_route] = Ok g"
    and look: "\<And>site S. addresses_at g site S =
      (if site \<in> set (mkeys (tSites sample_tenant)) then (case addresses_at sample_tenant site S of
         Some as \<Rightarrow> Some as | None \<Rightarrow> general_addresses [sample_general_route] S) else None)"
    by blast
  show ?thesis
    by (intro exI [of _ g] conjI g; subst look)
      (simp_all add: sample_tenant_def addresses_at_def general_addresses_def sample_general_route_def)
qed

section \<open>Filtering by site\<close>

lemma filter_sites_fold:
  "mlookup (foldl (\<lambda>m tenantSite. if tenantSite \<noteq> site then mdelete tenantSite m else m) m ks) x =
     (if x \<in> set ks \<and> x \<noteq> site then None else mlookup m x)"
  by (induction ks arbitrary: m) auto

text \<open>\<open>FilterBySite\<close> keeps exactly the given site of a tenant, unchanged, if it has it.\<close>

theorem filter_by_site:
  "mlookup (tSites (FilterBySite t site)) x = (if x = site then mlookup (tSites t) x else None) \<and>
   FilterBySite t site = t\<lparr>tSites := tSites (FilterBySite t site)\<rparr>"
proof -
  have "x \<notin> set (mkeys (tSites t)) \<Longrightarrow> mlookup (tSites t) x = None"
    by (simp add: map_of_eq_None_iff)
  then show ?thesis by (auto simp: FilterBySite_def filter_sites_fold)
qed

section \<open>Virtual services\<close>

lemma lookup_override:
  "map_of (foldl (\<lambda>es (k, v). AList.update k v es) es0 kvs) k =
     (case map_of (rev kvs) k of Some v \<Rightarrow> Some v | None \<Rightarrow> map_of es0 k)"
  by (induction kvs arbitrary: es0) (auto simp: map_of_append map_add_def split: option.splits)

text \<open>
  The service of a registration selects the pods of the original service, has one TCP port,
  the registered one or 8080, and carries the registered annotations, which take precedence over
  the alias prefix, the display name and the type \<open>virtual\<close>.
\<close>

theorem ToService_object:
  assumes "mwf (srVirtualServiceAnnotations s)"
  shows "service_name (ToService s) = srVirtualService s \<and>
    mlookup (ssSelector (svSpec (ToService s))) ''name'' = Some (srOriginalService s) \<and>
    map pTargetPort (ssPorts (svSpec (ToService s))) =
      [if spServicePort (srPort s) = 0 \<and> spPortName (srPort s) = [] then 8080 else spServicePort (srPort s)] \<and>
    mlookup (service_annotations (ToService s)) k =
      (case mlookup (srVirtualServiceAnnotations s) k of Some v \<Rightarrow> Some v
       | None \<Rightarrow> map_of [(ann_prefix, srVirtualService s),
            (ann_show_name, display_name (srVirtualService s)), (ann_type, ''virtual'')] k)"
proof -
  have "map_of (rev (ments (srVirtualServiceAnnotations s))) k =
      mlookup (srVirtualServiceAnnotations s) k"
    using assms by (intro lookup_rev) (simp add: mwf_def)
  moreover have "srPort s = \<lparr>spServicePort = 0, spPortName = []\<rparr> \<longleftrightarrow>
      spServicePort (srPort s) = 0 \<and> spPortName (srPort s) = []"
    by (cases "srPort s") simp
  ultimately show ?thesis
    by (simp add: ToService_def Let_def lookup_override zero_metadata_def)
qed

definition sample_registration :: service_registration where
  "sample_registration = \<lparr>srOriginalService = ''public-gateway'',
     srPort = \<lparr>spServicePort = 0, spPortName = []\<rparr>, srVirtualService = ''my-gw'',
     srVirtualServiceAnnotations = GoMap [(ann_type, ''own'')], srHostname = []\<rparr>"

lemma ToService_object_witness:
  "mlookup (service_annotations (ToService sample_registration)) ann_type = Some ''own'' \<and>
   map pTargetPort (ssPorts (svSpec (ToService sample_registration))) = [8080]"
  using ToService_object [of sample_registration ann_type]
  by (simp add: sample_registration_def)

text \<open>
  The general route of a registration is refused exactly when the label before the first dot
  has more than 63 bytes or the host more than 255; a host with no dot is only held to the second
  bound, and an empty host is replaced by the route name followed by the namespace.
\<close>

theorem route_validity:
  "snd (IsRouteValid rt namespace) \<longleftrightarrow>
     (if route_host rt = [] then length (route_name rt) + length namespace \<le> 63
      else length (route_host rt) \<le> 255 \<and>
        (case Index (route_host rt) ''.'' of Some i \<Rightarrow> i \<le> 63 | None \<Rightarrow> True)) \<and>
   (snd (IsRouteValid rt namespace) \<longleftrightarrow> fst (IsRouteValid rt namespace) = [])"
proof -
  have "i \<le> length s" if "Index s p = Some i" for s p i
    using that by (induction s arbitrary: i) (auto split: if_splits)
  then have "\<And>i. Index (route_host rt) ''.'' = Some i \<Longrightarrow> i \<le> length (route_host rt)" by blast
  then show ?thesis
    by (cases "route_host rt = []"; cases "Index (route_host rt) ''.''")
      (auto simp: IsRouteValid_def Let_def isHostnameLengthCorrect_def isFQDNLengthCorrect_def
        min_def)
qed

end
