(* ===== verification/StringSet.thy ===== *)
theory StringSet
  imports GoLib
begin

text \<open>
  The set of strings of \<open>utils/stringset.go\<close>, a Go map whose values are not used: the list of its
  keys in the order of the map.
\<close>

type_synonym string_set = "string list"

definition set_put :: "string \<Rightarrow> string_set \<Rightarrow> string_set" where
  "set_put v s = (if v \<in> set s then s else s @ [v])"

definition set_put_all :: "string list \<Rightarrow> string_set \<Rightarrow> string_set" where
  "set_put_all vs s = foldl (\<lambda>s v. set_put v s) s vs"

definition set_new :: "string list \<Rightarrow> string_set" where
  "set_new vs = set_put_all vs []"

definition set_contains :: "string_set \<Rightarrow> string \<Rightarrow> bool" where
  "set_contains s v \<longleftrightarrow> v \<in> set s"

definition set_contains_ignore_case :: "string_set \<Rightarrow> string \<Rightarrow> bool" where
  "set_contains_ignore_case s v \<longleftrightarrow> list_ex (\<lambda>key. ToLower key = ToLower v) s"

definition set_to_slice :: "string_set \<Rightarrow> string list" where
  "set_to_slice s = s"

lemma set_set_put [simp]: "set (set_put v s) = insert v (set s)"
  by (auto simp: set_put_def)

lemma distinct_set_put [simp]: "distinct s \<Longrightarrow> distinct (set_put v s)"
  by (simp add: set_put_def)

lemma set_set_put_all [simp]: "set (set_put_all vs s) = set vs \<union> set s"
  by (induction vs arbitrary: s) (auto simp: set_put_all_def)

lemma distinct_set_put_all [simp]: "distinct s \<Longrightarrow> distinct (set_put_all vs s)"
  by (induction vs arbitrary: s) (auto simp: set_put_all_def)

text \<open>
  A set built from values contains exactly these values, its slice holds each of them once, and
  membership without regard to case is invariant under lower case and implied by membership.
\<close>

theorem stringset_contents:
  "(set_contains (set_new vs) v \<longleftrightarrow> v \<in> set vs) \<and>
   set (set_to_slice (set_new vs)) = set vs \<and> distinct (set_to_slice (set_new vs)) \<and>
   (set_contains_ignore_case (set_new vs) v \<longleftrightarrow> (\<exists>w \<in> set vs. ToLower w = ToLower v)) \<and>
   set_contains_ignore_case (set_new vs) (ToLower v) = set_contains_ignore_case (set_new vs) v"
  by (auto simp: set_contains_def set_new_def set_to_slice_def set_contains_ignore_case_def list_ex_iff)

end
