(* ===== verification/Dao.thy ===== *)
theory Dao
  imports TenantLemmas StringSet
begin

text \<open>
  The tenant table (\<open>dao/pg/dao.go\<close>). The database driver (\<open>bun\<close> over PostgreSQL) is not part of
  the repository: it is the record \<open>pg_client\<close> of functions over a state of any type \<open>'s\<close>, and what
  the code relies on is the locale \<open>postgres\<close>. The operations of \<open>RouteManagerDao\<close> are defined for
  every such record; the locale \<open>tenant_store\<close> is the contract they offer to the synchronizer.
\<close>

section \<open>The driver\<close>

text \<open>
  One field per statement of the source: the connection, the selects of tenants (all, active ones,
  by primary key), insert, update and the deletes by primary key (the conditional one with the
  outcome of \<open>RowsAffected\<close>), the transaction and the two statements on the \<open>Init\<close> table.
\<close>

record 's pg_client =
  pgGetBunDb :: "('s, unit) go"
  pgSelectTenants :: "('s, tenant_dns list) go"
  pgSelectActive :: "('s, tenant_dns list) go"
  pgSelectTenant :: "string \<Rightarrow> ('s, tenant_dns) go"
  pgInsertTenant :: "tenant_dns \<Rightarrow> ('s, unit) go"
  pgUpdateTenant :: "tenant_dns \<Rightarrow> ('s, unit) go"
  pgDeleteTenant :: "string \<Rightarrow> ('s, unit) go"
  pgDeleteRemoved :: "string \<Rightarrow> ('s, go_error + int) go"
  pgRunInTx :: "('s, unit) go \<Rightarrow> ('s, unit) go"
  pgSelectInit :: "('s, bool) go"
  pgInsertInit :: "bool \<Rightarrow> ('s, unit) go"

definition ErrNoRows :: go_error where
  "ErrNoRows = SentinelError ''sql: no rows in result set''"

definition NewTenantNotFoundError :: "string \<Rightarrow> go_error" where
  "NewTenantNotFoundError tenantId =
     TenantNotFoundError (''Tenant '' @ tenantId @ '' is not present in database'')"

definition NewTenantIsNotActiveError :: "string \<Rightarrow> go_error" where
  "NewTenantIsNotActiveError tenantId =
     TenantIsNotActiveError (''Tenant '' @ tenantId @ '' is not in active state'')"

section \<open>The operations of RouteManagerDao\<close>

definition usingDB :: "'s pg_client \<Rightarrow> ('s, 'a) go \<Rightarrow> ('s, 'a) go" where
  "usingDB pg handler = gbind (pgGetBunDb pg) (\<lambda>_. handler)"

definition FindInitInformation :: "'s pg_client \<Rightarrow> ('s, bool) go" where
  "FindInitInformation pg = usingDB pg (pgSelectInit pg)"

definition SetInitInformation :: "'s pg_client \<Rightarrow> bool \<Rightarrow> ('s, unit) go" where
  "SetInitInformation pg data = usingDB pg (pgInsertInit pg data)"

definition FindAll :: "'s pg_client \<Rightarrow> ('s, tenant_dns list) go" where
  "FindAll pg = usingDB pg (pgSelectTenants pg)"

text \<open>
  \<open>res.(*domain.TenantDns)\<close> is evaluated before the error is looked at: without a connection
  \<open>res\<close> is nil and the assertion panics. Any error of the query is reported as not found.
\<close>

definition FindByTenantId :: "'s pg_client \<Rightarrow> string \<Rightarrow> ('s, tenant_dns) go" where
  "FindByTenantId pg tenantId =
     gtry (pgGetBunDb pg) (\<lambda>conn. case conn of
       Inl e \<Rightarrow> gpanic ''interface conversion: interface {} is nil, not *domain.TenantDns''
     | Inr _ \<Rightarrow> gtry (pgSelectTenant pg tenantId) (\<lambda>row. case row of
         Inl e \<Rightarrow> gerr (NewTenantNotFoundError tenantId)
       | Inr result \<Rightarrow> gret result))"

definition SaveTenant :: "'s pg_client \<Rightarrow> tenant_dns \<Rightarrow> ('s, unit) go" where
  "SaveTenant pg tenant = usingDB pg (pgInsertTenant pg tenant)"

definition dao_Upsert :: "'s pg_client \<Rightarrow> tenant_dns \<Rightarrow> ('s, unit) go" where
  "dao_Upsert pg data = usingDB pg
     (gtry (pgSelectTenant pg (tTenantId data)) (\<lambda>row. case row of
        Inr _ \<Rightarrow> pgUpdateTenant pg data
      | Inl err \<Rightarrow> if err = ErrNoRows then pgInsertTenant pg data else gerr err))"

definition dao_Delete :: "'s pg_client \<Rightarrow> string \<Rightarrow> ('s, unit) go" where
  "dao_Delete pg tenantId = usingDB pg (pgDeleteTenant pg tenantId)"

definition logRowsAffected :: "go_error + int \<Rightarrow> ('s, unit) go" where
  "logRowsAffected r = (case r of Inl err \<Rightarrow> gerr err | Inr n \<Rightarrow> gret ())"

definition DeleteIfRemoved :: "'s pg_client \<Rightarrow> string \<Rightarrow> ('s, unit) go" where
  "DeleteIfRemoved pg tenantId = usingDB pg (gbind (pgDeleteRemoved pg tenantId) logRowsAffected)"

text \<open>The update of one tenant inside the transactions, with its error wrapped.\<close>

definition update_in_tx :: "'s pg_client \<Rightarrow> tenant_dns \<Rightarrow> ('s, unit) go" where
  "update_in_tx pg tenant = gtry (pgUpdateTenant pg tenant) (\<lambda>r. case r of
     Inl err \<Rightarrow> gerr (ErrorWrapper 500 (err_message err))
   | Inr _ \<Rightarrow> gret ())"

text \<open>A nil map of sites, a missing or nil \<open>default\<close> site are replaced by empty maps.\<close>

definition default_site :: string where "default_site = ''default''"

definition or_empty :: "('k, 'v) gomap \<Rightarrow> ('k, 'v) gomap" where
  "or_empty m = (case m of NilMap \<Rightarrow> mempty | GoMap es \<Rightarrow> m)"

definition add_route :: "string \<Rightarrow> string \<Rightarrow> tenant_dns \<Rightarrow> tenant_dns" where
  "add_route host serviceName tenant =
     (let sites = or_empty (tSites tenant);
          inner = or_empty (case mlookup sites default_site of Some m \<Rightarrow> m | None \<Rightarrow> NilMap);
          addresses = (case mlookup inner serviceName of Some as \<Rightarrow> as | None \<Rightarrow> []);
          inner' = GoMap (AList.update serviceName (addresses @ [Address host]) (ments inner))
      in tenant\<lparr>tSites := GoMap (AList.update default_site inner' (ments sites))\<rparr>)"

definition AddRouteToTenants :: "'s pg_client \<Rightarrow> string \<Rightarrow> string \<Rightarrow> ('s, unit) go" where
  "AddRouteToTenants pg host serviceName = usingDB pg (pgRunInTx pg
     (gbind (pgSelectActive pg) (\<lambda>tenants.
        gfor tenants (\<lambda>tenant. update_in_tx pg (add_route host serviceName tenant)))))"

text \<open>\<open>delete(tenant.Sites[siteName], serviceName)\<close>, and the update after every site.\<close>

definition delete_service_at :: "string \<Rightarrow> string \<Rightarrow> tenant_dns \<Rightarrow> tenant_dns" where
  "delete_service_at siteName serviceName tenant =
     tenant\<lparr>tSites := mmap (\<lambda>site services.
        if site = siteName then mdelete serviceName services else services) (tSites tenant)\<rparr>"

definition delete_route_body :: "'s pg_client \<Rightarrow> string \<Rightarrow> tenant_dns \<Rightarrow> ('s, tenant_dns) go" where
  "delete_route_body pg serviceName tenant =
     gfold (mkeys (tSites tenant)) tenant (\<lambda>siteName t.
       let t' = delete_service_at siteName serviceName t in
       gbind (update_in_tx pg t') (\<lambda>_. gret t'))"

definition DeleteRouteFromTenants :: "'s pg_client \<Rightarrow> string \<Rightarrow> ('s, unit) go" where
  "DeleteRouteFromTenants pg serviceName = usingDB pg (pgRunInTx pg
     (gbind (pgSelectTenants pg) (\<lambda>tenants.
        gfor tenants (\<lambda>tenant. gbind (delete_route_body pg serviceName tenant) (\<lambda>_. gret ())))))"

definition flattenHosts :: "tenant_dns list \<Rightarrow> string_set" where
  "flattenHosts all = set_put_all (map Host (concat (map all_addresses all))) []"

definition FindAllHosts :: "'s pg_client \<Rightarrow> ('s, string_set) go" where
  "FindAllHosts pg = gbind (FindAll pg) (\<lambda>all. gret (flattenHosts all))"

lemmas dao_defs = FindInitInformation_def SetInitInformation_def FindAll_def FindByTenantId_def
  SaveTenant_def dao_Upsert_def dao_Delete_def DeleteIfRemoved_def AddRouteToTenants_def
  DeleteRouteFromTenants_def FindAllHosts_def

section \<open>What the code relies on\<close>

text \<open>The rows of a query as a map from primary key to row.\<close>

definition rows :: "tenant_dns list \<Rightarrow> string \<Rightarrow> tenant_dns option" where
  "rows ts = map_of (map (\<lambda>t. (tTenantId t, t)) ts)"

lemma rows_member: "distinct (map tTenantId ts) \<Longrightarrow> rows ts k = Some t \<longleftrightarrow> t \<in> set ts \<and> tTenantId t = k"
  unfolding rows_def by (subst map_of_eq_Some_iff) (auto simp: comp_def)

text \<open>
  \<open>db s\<close> is the tenant table, a map from primary key to row. A query does not change it and its
  rows are the table's, in any order; a statement that succeeds has its SQL meaning, one that fails
  has no effect; \<open>ErrNoRows\<close> means that no row matches; a transaction is committed when its body
  and the commit succeed and rolled back otherwise.
\<close>

locale postgres =
  fixes pg :: "'s pg_client" and db :: "'s \<Rightarrow> string \<Rightarrow> tenant_dns option"
  assumes keyed: "db s k = Some t \<Longrightarrow> tTenantId t = k"
    and conn: "db (snd (pgGetBunDb pg s)) = db s"
    and select_all: "db (snd (pgSelectTenants pg s)) = db s"
      "pgSelectTenants pg s = (Ok ts, s') \<Longrightarrow> distinct (map tTenantId ts) \<and> rows ts = db s"
    and select_active: "db (snd (pgSelectActive pg s)) = db s"
      "pgSelectActive pg s = (Ok ts, s') \<Longrightarrow> distinct (map tTenantId ts) \<and>
         rows ts = (\<lambda>k. case db s k of Some t \<Rightarrow> if tActive t then Some t else None | None \<Rightarrow> None)"
    and select_one: "db (snd (pgSelectTenant pg k s)) = db s"
      "pgSelectTenant pg k s = (Ok t, s') \<Longrightarrow> db s k = Some t"
      "pgSelectTenant pg k s = (Err ErrNoRows, s') \<Longrightarrow> db s k = None"
    and insert: "pgInsertTenant pg t s = (r, s') \<Longrightarrow>
      db s' = (if r = Ok () then (db s)(tTenantId t \<mapsto> t) else db s)"
    and update: "pgUpdateTenant pg t s = (r, s') \<Longrightarrow>
      db s' = (if r = Ok () \<and> db s (tTenantId t) \<noteq> None then (db s)(tTenantId t \<mapsto> t) else db s)"
    and delete: "pgDeleteTenant pg k s = (r, s') \<Longrightarrow>
      db s' = (if r = Ok () then (db s)(k := None) else db s)"
    and delete_removed: "pgDeleteRemoved pg k s = (q, s') \<Longrightarrow>
      db s' = (if (\<exists>n. q = Ok n) \<and> (\<exists>t. db s k = Some t \<and> tRemoved t) then (db s)(k := None) else db s)"
    and tx: "pgRunInTx pg body s = (r, s') \<Longrightarrow>
      (r = Ok () \<and> (\<exists>s0 s1. db s0 = db s \<and> body s0 = (Ok (), s1) \<and> db s' = db s1)) \<or>
      (r \<noteq> Ok () \<and> db s' = db s)"
    and inits: "db (snd (pgSelectInit pg s)) = db s" "db (snd (pgInsertInit pg b s)) = db s"
begin

lemma conn_run: "pgGetBunDb pg s = (r, s') \<Longrightarrow> db s' = db s"
  using conn [of s] by simp

lemma using_Ok:
  assumes "usingDB pg h s = (Ok x, s')"
  obtains s1 where "db s1 = db s" and "h s1 = (Ok x, s')"
  using assms unfolding usingDB_def by (auto elim!: gbind_OkE dest: conn_run)

text \<open>A property of the table that the statements of a handler keep is kept by \<open>usingDB\<close>.\<close>

lemma using_run:
  assumes "usingDB pg h s = (r, s')"
  shows "(\<exists>s1. db s1 = db s \<and> h s1 = (r, s')) \<or> ((\<forall>x. r \<noteq> Ok x) \<and> db s' = db s)"
proof -
  obtain c s1 where c: "pgGetBunDb pg s = (c, s1)" by (cases "pgGetBunDb pg s")
  with conn_run have d: "db s1 = db s" by blast
  from assms c d show ?thesis
    by (cases c) (auto simp: usingDB_def gbind_run)
qed

lemma select_one_run: "pgSelectTenant pg k s = (r, s') \<Longrightarrow> db s' = db s"
  using select_one(1) [of k s] by simp

lemma select_all_run: "pgSelectTenants pg s = (r, s') \<Longrightarrow> db s' = db s"
  using select_all(1) [of s] by simp

lemma select_active_run: "pgSelectActive pg s = (r, s') \<Longrightarrow> db s' = db s"
  using select_active(1) [of s] by simp

lemma FindByTenantId_run:
  assumes "FindByTenantId pg k s = (r, s')"
  shows "db s' = db s" and "r = Ok t \<Longrightarrow> db s k = Some t"
proof -
  obtain c s1 where c: "pgGetBunDb pg s = (c, s1)" by (cases "pgGetBunDb pg s")
  obtain q s2 where q: "pgSelectTenant pg k s1 = (q, s2)" by (cases "pgSelectTenant pg k s1")
  have d: "db s1 = db s" "db s2 = db s1" using conn_run c select_one_run q by blast+
  show "db s' = db s"
    using assms c q d by (auto simp: FindByTenantId_def go_simps split: result.splits)
  show "db s k = Some t" if "r = Ok t"
    using assms c q d that select_one(2) [of k s1]
    by (auto simp: FindByTenantId_def go_simps split: result.splits)
qed

lemma dao_Upsert_run:
  assumes "dao_Upsert pg t s = (r, s')"
  shows "db s' = (if r = Ok () then (db s)(tTenantId t \<mapsto> t) else db s)"
proof -
  let ?h = "gtry (pgSelectTenant pg (tTenantId t)) (\<lambda>row. case row of
        Inr _ \<Rightarrow> pgUpdateTenant pg t
      | Inl err \<Rightarrow> if err = ErrNoRows then pgInsertTenant pg t else gerr err)"
  have "db s' = (if r = Ok () then (db s1)(tTenantId t \<mapsto> t) else db s1)"
    if "?h s1 = (r, s')" for s1
  proof -
    obtain q s2 where q: "pgSelectTenant pg (tTenantId t) s1 = (q, s2)"
      by (cases "pgSelectTenant pg (tTenantId t) s1")
    with select_one_run have d: "db s2 = db s1" by blast
    show ?thesis
    proof (cases q)
      case (Ok u)
      with q select_one(2) have "db s1 (tTenantId t) = Some u" by blast
      with that q Ok update [of t s2 r s'] d show ?thesis by (auto simp: gtry_run)
    next
      case (Err e)
      with that q insert [of t s2 r s'] d show ?thesis
        by (cases "e = ErrNoRows") (auto simp: gtry_run gerr_run)
    qed (use that q d in \<open>auto simp: gtry_run\<close>)
  qed
  with using_run [of ?h s r s'] assms show ?thesis by (auto simp: dao_Upsert_def)
qed

lemma dao_Delete_run:
  assumes "dao_Delete pg k s = (r, s')"
  shows "db s' = (if r = Ok () then (db s)(k := None) else db s)"
  using using_run [OF assms [unfolded dao_Delete_def]] delete by fastforce

lemma DeleteIfRemoved_run:
  assumes "DeleteIfRemoved pg k s = (r, s')"
  shows "db s' = db s \<or>
    (db s' = (db s)(k := None) \<and> (\<exists>t. db s k = Some t \<and> tRemoved t))"
    and "r = Ok () \<Longrightarrow> db s k = Some t \<Longrightarrow> tRemoved t \<Longrightarrow> db s' = (db s)(k := None)"
proof -
  let ?h = "gbind (pgDeleteRemoved pg k) logRowsAffected"
  have run: "db s' = (if (\<exists>n. q = Ok n) \<and> (\<exists>t. db s1 k = Some t \<and> tRemoved t)
      then (db s1)(k := None) else db s1) \<and> (r = Ok () \<longrightarrow> (\<exists>n. q = Ok n))"
    if "?h s1 = (r, s')" and "pgDeleteRemoved pg k s1 = (q, s2)" for s1 q s2
    using that delete_removed [OF that(2)]
    by (cases q) (auto simp: gbind_run logRowsAffected_def go_simps split: sum.splits)
  have some: "\<exists>q s2. pgDeleteRemoved pg k s1 = (q, s2)" for s1 by (meson surj_pair)
  note u = using_run [of ?h s r s', folded DeleteIfRemoved_def, OF assms]
  show "db s' = db s \<or> (db s' = (db s)(k := None) \<and> (\<exists>t. db s k = Some t \<and> tRemoved t))"
    using u run some by (metis (no_types, lifting))
  show "db s' = (db s)(k := None)" if "r = Ok ()" "db s k = Some t" "tRemoved t"
    using u run some that by (metis (no_types, lifting))
qed

text \<open>A loop that updates rows it has read: each of them is replaced by its image.\<close>

lemma update_in_tx_run:
  assumes "update_in_tx pg t s = (Ok (), s')" and "db s (tTenantId t) \<noteq> None"
  shows "db s' = (db s)(tTenantId t \<mapsto> t)"
proof -
  obtain q s2 where q: "pgUpdateTenant pg t s = (q, s2)" by (cases "pgUpdateTenant pg t s")
  with update [OF q] assms show ?thesis
    by (cases q) (auto simp: update_in_tx_def gtry_run go_simps)
qed

lemma update_loop_run:
  assumes "gfor ts (\<lambda>t. body t) s = (Ok (), s')"
    and "\<And>t s s'. t \<in> set ts \<Longrightarrow> db s (tTenantId t) = Some t \<Longrightarrow> body t s = (Ok (), s') \<Longrightarrow>
      db s' = (db s)(tTenantId t \<mapsto> f t)"
    and "distinct (map tTenantId ts)" and "\<And>t. t \<in> set ts \<Longrightarrow> db s (tTenantId t) = Some t"
  shows "db s' = (\<lambda>k. case rows ts k of Some t \<Rightarrow> Some (f t) | None \<Rightarrow> db s k)"
  using assms
proof (induction ts arbitrary: s)
  case Nil
  then show ?case by (simp add: rows_def gret_run)
next
  case (Cons t ts)
  from Cons.prems(1) obtain u where u: "body t s = (Ok (), u)"
    and rest: "gfor ts (\<lambda>t. body t) u = (Ok (), s')" by (auto elim: gbind_OkE)
  have du: "db u = (db s)(tTenantId t \<mapsto> f t)"
    using Cons.prems(4) u by (intro Cons.prems(2)) simp_all
  have t: "tTenantId t \<notin> tTenantId ` set ts" using Cons.prems(3) by simp
  then have "rows ts (tTenantId t) = None" by (auto simp: rows_def map_of_eq_None_iff)
  moreover have "db s' = (\<lambda>k. case rows ts k of Some t \<Rightarrow> Some (f t) | None \<Rightarrow> db u k)"
  proof (rule Cons.IH [OF rest])
    show "db u (tTenantId x) = Some x" if "x \<in> set ts" for x
    proof -
      have "tTenantId x \<noteq> tTenantId t" using t that by (metis image_eqI)
      then show ?thesis using Cons.prems(4) that by (simp add: du)
    qed
  qed (use Cons.prems in simp_all)
  ultimately show ?case by (auto simp: du rows_def fun_eq_iff split: option.split)
qed

text \<open>Both transactions: read some rows, then rewrite each of them.\<close>

lemma tx_loop_run:
  assumes "usingDB pg (pgRunInTx pg (gbind select (\<lambda>ts. gfor ts (\<lambda>t. body t)))) s = (r, s')"
    and sel: "\<And>s ts s'. select s = (Ok ts, s') \<Longrightarrow>
      db s' = db s \<and> distinct (map tTenantId ts) \<and> rows ts = restrict (db s)"
    and sub: "\<And>d k t. restrict d k = Some t \<Longrightarrow> d k = Some t"
    and body: "\<And>t s s'. db s (tTenantId t) = Some t \<Longrightarrow> body t s = (Ok (), s') \<Longrightarrow>
      db s' = (db s)(tTenantId t \<mapsto> f t)"
  shows "db s' = (if r = Ok ()
    then (\<lambda>k. case restrict (db s) k of Some t \<Rightarrow> Some (f t) | None \<Rightarrow> db s k) else db s)"
proof -
  let ?body = "gbind select (\<lambda>ts. gfor ts (\<lambda>t. body t))"
  have loop: "db s1 = (\<lambda>k. case restrict (db s0) k of Some t \<Rightarrow> Some (f t) | None \<Rightarrow> db s0 k)"
    if b: "?body s0 = (Ok (), s1)" for s0 s1
  proof -
    from b obtain ts u where ts: "select s0 = (Ok ts, u)"
      and l: "gfor ts (\<lambda>t. body t) u = (Ok (), s1)" by (rule gbind_OkE)
    from sel [OF ts] have u: "db u = db s0" "distinct (map tTenantId ts)" "rows ts = restrict (db s0)"
      by simp_all
    have "db u (tTenantId t) = Some t" if "t \<in> set ts" for t
      using that u rows_member [OF u(2), of "tTenantId t" t] sub by simp
    then have "db s1 = (\<lambda>k. case rows ts k of Some t \<Rightarrow> Some (f t) | None \<Rightarrow> db u k)"
      using u(2) by (intro update_loop_run [OF l]) (auto intro: body)
    then show ?thesis by (simp only: u)
  qed
  have step: "db s' = (if r = Ok ()
      then (\<lambda>k. case restrict (db s1) k of Some t \<Rightarrow> Some (f t) | None \<Rightarrow> db s1 k) else db s1)"
    if "pgRunInTx pg ?body s1 = (r, s')" for s1
  proof (cases "r = Ok ()")
    case True
    with tx [OF that] obtain s0 s2 where d: "db s0 = db s1" and e: "db s' = db s2"
      and "gbind select (\<lambda>ts. gfor ts (\<lambda>t. body t)) s0 = (Ok (), s2)" by auto
    from loop [OF this(3)] show ?thesis unfolding e using True by (simp only: d if_True refl)
  qed (use tx [OF that] in auto)
  from using_run [OF assms(1)] show ?thesis
  proof (elim disjE exE conjE)
    fix s1 assume "db s1 = db s" and "pgRunInTx pg (gbind select (\<lambda>ts. gfor ts (\<lambda>t. body t))) s1 = (r, s')"
    from step [OF this(2)] this(1) show ?thesis by (simp only:)
  qed simp
qed

lemma add_route_id [simp]: "tTenantId (add_route host service t) = tTenantId t"
  by (simp add: add_route_def Let_def)

lemma AddRouteToTenants_run:
  assumes "AddRouteToTenants pg host service s = (r, s')"
  shows "db s' = (if r = Ok () then (\<lambda>k. case db s k of
      Some t \<Rightarrow> Some (if tActive t then add_route host service t else t) | None \<Rightarrow> None) else db s)"
proof -
  let ?active = "\<lambda>d k. case d k of Some t \<Rightarrow> if tActive t then Some t else None | None \<Rightarrow> None"
  have "db s' = (if r = Ok ()
      then (\<lambda>k. case ?active (db s) k of Some t \<Rightarrow> Some (add_route host service t) | None \<Rightarrow> db s k)
      else db s)"
  proof (rule tx_loop_run [where restrict = ?active])
    show "usingDB pg (pgRunInTx pg (gbind (pgSelectActive pg)
        (\<lambda>ts. gfor ts (\<lambda>t. update_in_tx pg (add_route host service t))))) s = (r, s')"
      using assms by (simp add: AddRouteToTenants_def)
    show "db s' = db s \<and> distinct (map tTenantId ts) \<and> rows ts = ?active (db s)"
      if "pgSelectActive pg s = (Ok ts, s')" for s ts s'
      using that select_active select_active_run by blast
    show "db s' = (db s)(tTenantId t \<mapsto> add_route host service t)"
      if "db s (tTenantId t) = Some t" "update_in_tx pg (add_route host service t) s = (Ok (), s')"
      for t s s'
      using update_in_tx_run [OF that(2)] that(1) by simp
  qed (auto split: option.splits if_splits)
  then show ?thesis by (auto simp: fun_eq_iff split: option.split)
qed

end

text \<open>Deleting a service from the sites of a list, one site after the other.\<close>

definition delete_service :: "string \<Rightarrow> tenant_dns \<Rightarrow> tenant_dns" where
  "delete_service serviceName tenant =
     foldl (\<lambda>t siteName. delete_service_at siteName serviceName t) tenant (mkeys (tSites tenant))"

lemma delete_service_at_id [simp]: "tTenantId (delete_service_at site service t) = tTenantId t"
  by (simp add: delete_service_at_def)

lemma addresses_at_delete_service_at:
  "addresses_at (delete_service_at site service t) site' service' =
     (if site' = site \<and> service' = service then None else addresses_at t site' service')"
  by (simp add: addresses_at_def delete_service_at_def split: option.split)

lemma fold_delete_service:
  "tTenantId (foldl (\<lambda>t siteName. delete_service_at siteName service t) t ks) = tTenantId t"
  "addresses_at (foldl (\<lambda>t siteName. delete_service_at siteName service t) t ks) site' service' =
     (if site' \<in> set ks \<and> service' = service then None else addresses_at t site' service')"
  by (induction ks arbitrary: t) (auto simp: addresses_at_delete_service_at)

lemma addresses_at_delete_service:
  "addresses_at (delete_service service t) site' service' =
     (if service' = service then None else addresses_at t site' service')"
proof -
  have "site' \<notin> set (mkeys (tSites t)) \<Longrightarrow> addresses_at t site' service' = None"
    by (simp add: addresses_at_def map_of_eq_None_iff [THEN iffD2])
  then show ?thesis by (auto simp: delete_service_def fold_delete_service)
qed

lemma delete_service_id [simp]: "tTenantId (delete_service service t) = tTenantId t"
  by (simp add: delete_service_def fold_delete_service)

text \<open>Both changes touch the sites of the tenant alone.\<close>

lemma delete_service_frame: "\<exists>m. delete_service service t = t\<lparr>tSites := m\<rparr>"
proof -
  have "\<exists>m. foldl (\<lambda>t site. delete_service_at site service t) t ks = t\<lparr>tSites := m\<rparr>" for ks
  proof (induction ks arbitrary: t)
    case Nil
    show ?case by (simp, rule exI [of _ "tSites t"], simp)
  next
    case (Cons k ks)
    from Cons.IH [of "delete_service_at k service t"] show ?case by (auto simp: delete_service_at_def)
  qed
  then show ?thesis by (simp add: delete_service_def)
qed

lemma add_route_frame: "\<exists>m. add_route host service t = t\<lparr>tSites := m\<rparr>"
  by (auto simp: add_route_def Let_def)

lemma addresses_at_add_route:
  "addresses_at (add_route host service t) site' service' =
     (if site' = default_site \<and> service' = service
      then Some ((case addresses_at t site' service' of Some as \<Rightarrow> as | None \<Rightarrow> []) @ [Address host])
      else addresses_at t site' service')"
  by (cases "tSites t") (auto simp: add_route_def Let_def or_empty_def addresses_at_def
      split: option.splits gomap.splits)

context postgres begin

lemma delete_route_loop:
  assumes "gfold ks t (\<lambda>siteName t. let t' = delete_service_at siteName service t in
      gbind (update_in_tx pg t') (\<lambda>_. gret t')) s = (Ok u, s')"
    and "db s (tTenantId t) = Some t"
  shows "u = foldl (\<lambda>t siteName. delete_service_at siteName service t) t ks"
    and "db s' = (db s)(tTenantId t \<mapsto> u)"
proof -
  have "u = foldl (\<lambda>t siteName. delete_service_at siteName service t) t ks \<and>
      db s' = (db s)(tTenantId t \<mapsto> u)"
    using assms
  proof (induction ks arbitrary: t s)
    case Nil
    then show ?case by (auto simp: gret_run)
  next
    case (Cons k ks)
    let ?t = "delete_service_at k service t"
    from Cons.prems(1) obtain s1 where upd: "update_in_tx pg ?t s = (Ok (), s1)"
      and rest: "gfold ks ?t (\<lambda>siteName t. let t' = delete_service_at siteName service t in
        gbind (update_in_tx pg t') (\<lambda>_. gret t')) s1 = (Ok u, s')"
      unfolding Let_def gfold.simps
      by (elim gbind_OkE) (simp add: gret_run)
    have d: "db s1 = (db s)(tTenantId t \<mapsto> ?t)"
      using update_in_tx_run [OF upd] Cons.prems(2) by simp
    then have "db s1 (tTenantId ?t) = Some ?t" by simp
    from Cons.IH [OF rest this] d show ?case by (auto simp: fun_eq_iff)
  qed
  then show "u = foldl (\<lambda>t siteName. delete_service_at siteName service t) t ks"
    and "db s' = (db s)(tTenantId t \<mapsto> u)" by simp_all
qed

lemma DeleteRouteFromTenants_run:
  assumes "DeleteRouteFromTenants pg service s = (r, s')"
  shows "db s' = (if r = Ok () then (\<lambda>k. map_option (delete_service service) (db s k)) else db s)"
proof -
  have "db s' = (if r = Ok ()
      then (\<lambda>k. case db s k of Some t \<Rightarrow> Some (delete_service service t) | None \<Rightarrow> db s k) else db s)"
  proof (rule tx_loop_run [where restrict = "\<lambda>d. d"])
    show "usingDB pg (pgRunInTx pg (gbind (pgSelectTenants pg)
        (\<lambda>ts. gfor ts (\<lambda>t. gbind (delete_route_body pg service t) (\<lambda>_. gret ()))))) s = (r, s')"
      using assms by (simp add: DeleteRouteFromTenants_def)
    show "db s' = db s \<and> distinct (map tTenantId ts) \<and> rows ts = db s"
      if "pgSelectTenants pg s = (Ok ts, s')" for s ts s'
      using that select_all select_all_run by blast
    show "db s' = (db s)(tTenantId t \<mapsto> delete_service service t)"
      if at: "db s (tTenantId t) = Some t"
        and run: "gbind (delete_route_body pg service t) (\<lambda>_. gret ()) s = (Ok (), s')" for t s s'
    proof -
      from run obtain u where "delete_route_body pg service t s = (Ok u, s')"
        by (auto simp: gret_run elim!: gbind_OkE)
      from delete_route_loop [OF this [unfolded delete_route_body_def] at] show ?thesis
        by (simp add: delete_service_def)
    qed
  qed simp
  then show ?thesis by (auto simp: fun_eq_iff split: option.split)
qed

end

section \<open>The contract of the tenant store\<close>

text \<open>
  What the synchronizer relies on when it calls the DAO: a successful read returns what is stored,
  a successful write is an update of the map from tenant id to tenant, a failed one has no effect,
  and the conditional delete only ever takes away a tenant that is flagged as removed.
\<close>

locale tenant_store =
  fixes store :: "'s \<Rightarrow> string \<Rightarrow> tenant_dns option"
    and find_all :: "('s, tenant_dns list) go"
    and find_one :: "string \<Rightarrow> ('s, tenant_dns) go"
    and upsert :: "tenant_dns \<Rightarrow> ('s, unit) go"
    and delete_removed_one :: "string \<Rightarrow> ('s, unit) go"
  assumes find_all_keeps: "store (snd (find_all s)) = store s"
    and find_all_rows: "find_all s = (Ok ts, s') \<Longrightarrow> distinct (map tTenantId ts) \<and> rows ts = store s"
    and find_one_keeps: "store (snd (find_one k s)) = store s"
    and find_one_row: "find_one k s = (Ok t, s') \<Longrightarrow> store s k = Some t"
    and upsert_row: "upsert t s = (r, s') \<Longrightarrow>
      store s' = (if r = Ok () then (store s)(tTenantId t \<mapsto> t) else store s)"
    and delete_removed_row: "delete_removed_one k s = (r, s') \<Longrightarrow>
      store s' = store s \<or> (store s' = (store s)(k := None) \<and> (\<exists>t. store s k = Some t \<and> tRemoved t))"
begin

text \<open>A tenant that is not flagged survives any number of conditional deletes.\<close>

lemma delete_removed_live:
  assumes "store s k = Some t" and "\<not> tRemoved t"
  shows "store (snd (delete_removed_one k' s)) k = Some t"
proof -
  obtain r s' where "delete_removed_one k' s = (r, s')" by (cases "delete_removed_one k' s")
  with delete_removed_row [OF this] assms show ?thesis by (cases "k' = k") auto
qed

lemma upsert_then_find:
  assumes "upsert t s = (Ok (), s')" and "find_one (tTenantId t) s' = (Ok u, s'')"
  shows "u = t"
  using upsert_row [OF assms(1)] find_one_row [OF assms(2)] by simp

lemma find_all_member:
  "find_all s = (Ok ts, s') \<Longrightarrow> t \<in> set ts \<longleftrightarrow> store s (tTenantId t) = Some t"
  using rows_member [of ts "tTenantId t" t] find_all_rows [of s ts s'] by simp

end

sublocale postgres \<subseteq> dao: tenant_store db "FindAll pg" "FindByTenantId pg" "dao_Upsert pg"
  "DeleteIfRemoved pg"
proof
  fix s ts s' k t r
  have all: "db s'' = db s \<and> (r' = Ok ts \<longrightarrow> distinct (map tTenantId ts) \<and> rows ts = db s)"
    if "FindAll pg s = (r', s'')" for r' s''
  proof -
    from using_run [OF that [unfolded FindAll_def]] show ?thesis
    proof (elim disjE exE conjE)
      fix s1 assume "db s1 = db s" "pgSelectTenants pg s1 = (r', s'')"
      then show ?thesis using select_all_run [of s1] select_all(2) [of s1] by auto
    qed simp
  qed
  then show "db (snd (FindAll pg s)) = db s" by (metis surjective_pairing)
  show "FindAll pg s = (Ok ts, s') \<Longrightarrow> distinct (map tTenantId ts) \<and> rows ts = db s"
    using all by blast
  show "db (snd (FindByTenantId pg k s)) = db s"
    using FindByTenantId_run(1) by (metis surjective_pairing)
  show "FindByTenantId pg k s = (Ok t, s') \<Longrightarrow> db s k = Some t"
    using FindByTenantId_run(2) by blast
  show "dao_Upsert pg t s = (r, s') \<Longrightarrow>
      db s' = (if r = Ok () then (db s)(tTenantId t \<mapsto> t) else db s)"
    by (rule dao_Upsert_run)
  show "DeleteIfRemoved pg k s = (r, s') \<Longrightarrow>
      db s' = db s \<or> (db s' = (db s)(k := None) \<and> (\<exists>t. db s k = Some t \<and> tRemoved t))"
    by (rule DeleteIfRemoved_run(1))
qed

context postgres begin

lemma dao_store:
  "tenant_store db (FindAll pg) (FindByTenantId pg) (dao_Upsert pg) (DeleteIfRemoved pg)"
  by (rule dao.tenant_store_axioms)

end

section \<open>A table in memory\<close>

text \<open>
  An implementation of the driver's behaviour on a table kept as an association list, on which the
  laws above hold; the examples of the properties below run on it.
\<close>

type_synonym mem_table = "(string \<times> tenant_dns) list"

definition mem_db :: "mem_table \<Rightarrow> string \<Rightarrow> tenant_dns option" where
  "mem_db s k = map_option (\<lambda>t. t\<lparr>tTenantId := k\<rparr>) (map_of s k)"

definition mem_select :: "(tenant_dns \<Rightarrow> bool) \<Rightarrow> mem_table \<Rightarrow> tenant_dns list" where
  "mem_select p s = filter p (map (\<lambda>(k, t). t\<lparr>tTenantId := k\<rparr>) (AList.clearjunk s))"

definition mem_pg :: "mem_table pg_client" where
  "mem_pg = \<lparr>pgGetBunDb = gret (),
     pgSelectTenants = gget (mem_select (\<lambda>t. True)),
     pgSelectActive = gget (mem_select tActive),
     pgSelectTenant = (\<lambda>k s. case mem_db s k of Some t \<Rightarrow> (Ok t, s) | None \<Rightarrow> (Err ErrNoRows, s)),
     pgInsertTenant = (\<lambda>t s. if mem_db s (tTenantId t) = None
       then (Ok (), AList.update (tTenantId t) t s) else (Err (PlainError ''duplicate key''), s)),
     pgUpdateTenant = (\<lambda>t s. if mem_db s (tTenantId t) = None
       then (Ok (), s) else (Ok (), AList.update (tTenantId t) t s)),
     pgDeleteTenant = (\<lambda>k s. (Ok (), AList.delete k s)),
     pgDeleteRemoved = (\<lambda>k s. case mem_db s k of
         Some t \<Rightarrow> if tRemoved t then (Ok (Inr 1), AList.delete k s) else (Ok (Inr 0), s)
       | None \<Rightarrow> (Ok (Inr 0), s)),
     pgRunInTx = (\<lambda>body s. case body s of (Ok _, t) \<Rightarrow> (Ok (), t)
       | (Err e, _) \<Rightarrow> (Err e, s) | (Panic p, _) \<Rightarrow> (Panic p, s)),
     pgSelectInit = gret True,
     pgInsertInit = (\<lambda>_. gret ())\<rparr>"

lemma mem_select_rows:
  "distinct (map tTenantId (mem_select p s))"
  "rows (mem_select p s) = (\<lambda>k. case mem_db s k of Some t \<Rightarrow> if p t then Some t else None | None \<Rightarrow> None)"
proof -
  let ?es = "AList.clearjunk s"
  have ids: "map tTenantId (map (\<lambda>(k, t). t\<lparr>tTenantId := k\<rparr>) es) = map fst es"
    for es :: mem_table by auto
  show d: "distinct (map tTenantId (mem_select p s))"
    unfolding mem_select_def by (rule distinct_map_filter) (simp only: ids distinct_clearjunk)
  have "t \<in> set (mem_select p s) \<and> tTenantId t = k \<longleftrightarrow> mem_db s k = Some t \<and> p t" for t k
  proof -
    have "(k, u) \<in> set ?es \<longleftrightarrow> map_of s k = Some u" for u
      using map_of_eq_Some_iff [OF distinct_clearjunk [of s], of k u] by (simp add: map_of_clearjunk)
    then show ?thesis by (force simp: mem_select_def mem_db_def)
  qed
  then show "rows (mem_select p s) =
      (\<lambda>k. case mem_db s k of Some t \<Rightarrow> if p t then Some t else None | None \<Rightarrow> None)"
    using rows_member [OF d]
    by (intro ext option_eqI) (auto split: option.splits if_splits)
qed

lemma mem_db_update [simp]:
  "mem_db (AList.update k t s) = (mem_db s)(k \<mapsto> t\<lparr>tTenantId := k\<rparr>)"
  by (auto simp: mem_db_def fun_eq_iff)

lemma mem_db_delete [simp]: "mem_db (AList.delete k s) = (mem_db s)(k := None)"
  by (auto simp: mem_db_def fun_eq_iff)

lemma tenant_id_update [simp]: "t\<lparr>tTenantId := tTenantId t\<rparr> = t"
  by simp

interpretation mem: postgres mem_pg mem_db
proof
  fix s k t s' r ts b q and body :: "(mem_table, unit) go"
  show "mem_db s k = Some t \<Longrightarrow> tTenantId t = k" by (auto simp: mem_db_def)
  show "mem_db (snd (pgGetBunDb mem_pg s)) = mem_db s" by (simp add: mem_pg_def go_simps)
  show "mem_db (snd (pgSelectTenants mem_pg s)) = mem_db s" by (simp add: mem_pg_def go_simps)
  show "pgSelectTenants mem_pg s = (Ok ts, s') \<Longrightarrow> distinct (map tTenantId ts) \<and> rows ts = mem_db s"
    using mem_select_rows [of "\<lambda>t. True" s]
    by (auto simp: mem_pg_def go_simps split: option.split)
  show "mem_db (snd (pgSelectActive mem_pg s)) = mem_db s" by (simp add: mem_pg_def go_simps)
  show "pgSelectActive mem_pg s = (Ok ts, s') \<Longrightarrow> distinct (map tTenantId ts) \<and>
      rows ts = (\<lambda>k. case mem_db s k of Some t \<Rightarrow> if tActive t then Some t else None | None \<Rightarrow> None)"
    using mem_select_rows [of tActive s] by (auto simp: mem_pg_def go_simps)
  show "mem_db (snd (pgSelectTenant mem_pg k s)) = mem_db s"
    by (simp add: mem_pg_def split: option.split)
  show "pgSelectTenant mem_pg k s = (Ok t, s') \<Longrightarrow> mem_db s k = Some t"
    by (simp add: mem_pg_def split: option.splits)
  show "pgSelectTenant mem_pg k s = (Err ErrNoRows, s') \<Longrightarrow> mem_db s k = None"
    by (simp add: mem_pg_def split: option.splits)
  show "pgInsertTenant mem_pg t s = (r, s') \<Longrightarrow>
      mem_db s' = (if r = Ok () then (mem_db s)(tTenantId t \<mapsto> t) else mem_db s)"
    by (auto simp: mem_pg_def split: if_splits)
  show "pgUpdateTenant mem_pg t s = (r, s') \<Longrightarrow> mem_db s' =
      (if r = Ok () \<and> mem_db s (tTenantId t) \<noteq> None then (mem_db s)(tTenantId t \<mapsto> t) else mem_db s)"
    by (auto simp: mem_pg_def split: if_splits)
  show "pgDeleteTenant mem_pg k s = (r, s') \<Longrightarrow>
      mem_db s' = (if r = Ok () then (mem_db s)(k := None) else mem_db s)"
    by (auto simp: mem_pg_def)
  show "pgDeleteRemoved mem_pg k s = (q, s') \<Longrightarrow> mem_db s' =
      (if (\<exists>n. q = Ok n) \<and> (\<exists>t. mem_db s k = Some t \<and> tRemoved t) then (mem_db s)(k := None)
       else mem_db s)"
    by (auto simp: mem_pg_def split: option.splits if_splits)
  show "pgRunInTx mem_pg body s = (r, s') \<Longrightarrow>
      (r = Ok () \<and> (\<exists>s0 s1. mem_db s0 = mem_db s \<and> body s0 = (Ok (), s1) \<and> mem_db s' = mem_db s1)) \<or>
      (r \<noteq> Ok () \<and> mem_db s' = mem_db s)"
    by (auto simp: mem_pg_def split: prod.splits result.splits)
  show "mem_db (snd (pgSelectInit mem_pg s)) = mem_db s" by (simp add: mem_pg_def go_simps)
  show "mem_db (snd (pgInsertInit mem_pg b s)) = mem_db s" by (simp add: mem_pg_def go_simps)
qed

section \<open>What the DAO guarantees\<close>

text \<open>
  C9: \<open>Upsert\<close> refines the update of the map from tenant id to tenant: if it succeeds the tenant is
  stored under its id, whether it was inserted or updated, and nothing else changes; if it fails
  nothing changes. What \<open>FindByTenantId\<close> then finds for that id is the tenant.
\<close>

theorem upsert_refines_map_update:
  assumes "postgres pg db" and "dao_Upsert pg t s = (r, s')"
  shows "db s' = (if r = Ok () then (db s)(tTenantId t \<mapsto> t) else db s) \<and>
    (r = Ok () \<longrightarrow> FindByTenantId pg (tTenantId t) s' = (Ok u, s'') \<longrightarrow> u = t)"
proof -
  note * = postgres.dao_Upsert_run [OF assms] postgres.FindByTenantId_run(2) [OF assms(1)]
  show ?thesis using *(1) *(2) [of "tTenantId t" s' "Ok u" s'' u] by auto
qed

definition mem_sample :: mem_table where
  "mem_sample = [(''a'', zero_tenant\<lparr>tTenantId := ''a'', tActive := True\<rparr>),
     (''b'', zero_tenant\<lparr>tTenantId := ''b'', tRemoved := True\<rparr>)]"

lemmas mem_run = mem_pg_def mem_db_def mem_select_def mem_sample_def dao_defs usingDB_def go_simps

lemma upsert_refines_map_update_witness:
  "mem_db (snd (dao_Upsert mem_pg sample_tenant mem_sample)) ''t1'' = Some sample_tenant"
proof -
  have "dao_Upsert mem_pg sample_tenant mem_sample = (Ok (), mem_sample @ [(''t1'', sample_tenant)])"
    by (simp add: mem_run sample_tenant_def zero_tenant_def)
  from upsert_refines_map_update [OF mem.postgres_axioms this] show ?thesis
    using \<open>dao_Upsert mem_pg sample_tenant mem_sample = _\<close> by (simp add: sample_tenant_def)
qed

text \<open>
  \<open>DeleteIfRemoved\<close> never takes away a tenant that is not flagged as removed, whatever the
  outcome, and takes away a flagged one when it succeeds.
\<close>

theorem delete_if_removed_safe:
  assumes "postgres pg db" and "db s k = Some t" and "DeleteIfRemoved pg k' s = (r, s')"
  shows "(\<not> tRemoved t \<longrightarrow> db s' k = Some t) \<and>
    (tRemoved t \<longrightarrow> k' = k \<longrightarrow> r = Ok () \<longrightarrow> db s' k = None) \<and> (k' \<noteq> k \<longrightarrow> db s' k = Some t)"
  using postgres.DeleteIfRemoved_run(1) [OF assms(1,3)] assms(2)
    postgres.DeleteIfRemoved_run(2) [OF assms(1,3), of t]
  by (cases "k' = k") auto

lemma delete_if_removed_safe_witness:
  "mem_db (snd (DeleteIfRemoved mem_pg ''b'' mem_sample)) ''b'' = None"
proof -
  let ?b = "zero_tenant\<lparr>tTenantId := ''b'', tRemoved := True\<rparr>"
  have at: "mem_db mem_sample ''b'' = Some ?b"
    by (simp add: mem_run zero_tenant_def)
  have run: "DeleteIfRemoved mem_pg ''b'' mem_sample =
      (Ok (), [(''a'', zero_tenant\<lparr>tTenantId := ''a'', tActive := True\<rparr>)])"
    by (simp add: mem_run logRowsAffected_def zero_tenant_def)
  from delete_if_removed_safe [OF mem.postgres_axioms at run] run show ?thesis by simp
qed

text \<open>
  C20: \<open>AddRouteToTenants\<close> is one atomic step. If it succeeds, every active tenant is as before in all
  but its sites, and in its sites the host is the last address of the service in the site
  \<open>default\<close>, which is created where it is missing, after the addresses the service had there, while
  the addresses of every other service and site are as before. Every inactive tenant is exactly
  as before and no tenant appears. If it fails, nothing has changed.
\<close>

theorem add_route_to_tenants:
  assumes "postgres pg db" and "AddRouteToTenants pg host service s = (r, s')"
  shows "if r = Ok () then
      (\<forall>k. db s k = None \<longrightarrow> db s' k = None) \<and>
      (\<forall>k t. db s k = Some t \<and> \<not> tActive t \<longrightarrow> db s' k = Some t) \<and>
      (\<forall>k t. db s k = Some t \<and> tActive t \<longrightarrow> (\<exists>t' sites. db s' k = Some t' \<and> t' = t\<lparr>tSites := sites\<rparr> \<and>
         (\<forall>site S. addresses_at t' site S = (if site = default_site \<and> S = service
            then Some ((case addresses_at t site S of Some as \<Rightarrow> as | None \<Rightarrow> []) @ [Address host])
            else addresses_at t site S))))
    else db s' = db s"
proof (cases "r = Ok ()")
  case True
  with postgres.AddRouteToTenants_run [OF assms] have
    table: "db s' k = map_option (\<lambda>t. if tActive t then add_route host service t else t) (db s k)" for k
    by (auto split: option.split)
  have active: "\<exists>t' sites. db s' k = Some t' \<and> t' = t\<lparr>tSites := sites\<rparr> \<and>
      (\<forall>site S. addresses_at t' site S = (if site = default_site \<and> S = service
         then Some ((case addresses_at t site S of Some as \<Rightarrow> as | None \<Rightarrow> []) @ [Address host])
         else addresses_at t site S))" if "db s k = Some t" "tActive t" for k t
    using that table [of k] add_route_frame [of host service t]
    by (intro exI [of _ "add_route host service t"]) (simp add: addresses_at_add_route)
  show ?thesis unfolding if_P [OF True]
    by (intro conjI allI impI) (use table in simp, use table in simp, elim conjE, rule active)
qed (use postgres.AddRouteToTenants_run [OF assms] in simp)

lemma add_route_to_tenants_witness:
  "(\<exists>t. mem_db (snd (AddRouteToTenants mem_pg ''h.com'' ''web'' mem_sample)) ''a'' = Some t \<and>
     addresses_at t default_site ''web'' = Some [Address ''h.com'']) \<and>
   mem_db (snd (AddRouteToTenants mem_pg ''h.com'' ''web'' mem_sample)) ''b'' = mem_db mem_sample ''b''"
proof -
  obtain r s' where run: "AddRouteToTenants mem_pg ''h.com'' ''web'' mem_sample = (r, s')"
    by (cases "AddRouteToTenants mem_pg ''h.com'' ''web'' mem_sample")
  then have r: "r = Ok ()"
    by (auto simp: mem_run zero_tenant_def update_in_tx_def add_route_def Let_def)
  let ?a = "zero_tenant\<lparr>tTenantId := ''a'', tActive := True\<rparr>"
  let ?b = "zero_tenant\<lparr>tTenantId := ''b'', tRemoved := True\<rparr>"
  have a: "mem_db mem_sample ''a'' = Some ?a \<and> tActive ?a"
    and b: "mem_db mem_sample ''b'' = Some ?b \<and> \<not> tActive ?b"
    by (simp_all add: mem_run zero_tenant_def)
  note * = add_route_to_tenants [OF mem.postgres_axioms run, unfolded r if_P [OF refl]]
  from * [THEN conjunct2, THEN conjunct2, rule_format, OF a] obtain t where
    t: "mem_db s' ''a'' = Some t" and "\<forall>site S. addresses_at t site S = (if site = default_site \<and> S = ''web''
       then Some ((case addresses_at ?a site S of Some as \<Rightarrow> as | None \<Rightarrow> []) @ [Address ''h.com''])
       else addresses_at ?a site S)" by blast
  then have "addresses_at t default_site ''web'' = Some [Address ''h.com'']"
    by (simp add: addresses_at_def zero_tenant_def)
  moreover from * b have "mem_db s' ''b'' = mem_db mem_sample ''b''" by simp
  ultimately show ?thesis using run t by simp
qed

text \<open>
  C21: \<open>DeleteRouteFromTenants\<close> is one atomic step: if it succeeds no tenant holds an address of the
  service in any site and every other address is as before; if it fails, nothing has changed.
\<close>

theorem delete_route_from_tenants:
  assumes "postgres pg db" and "DeleteRouteFromTenants pg service s = (r, s')"
  shows "if r = Ok () then
      (\<forall>k. map_option tTenantId (db s' k) = map_option tTenantId (db s k)) \<and>
      (\<forall>k t t' site S. db s k = Some t \<longrightarrow> db s' k = Some t' \<longrightarrow> addresses_at t' site S =
        (if S = service then None else addresses_at t site S))
    else db s' = db s"
  using postgres.DeleteRouteFromTenants_run [OF assms]
  by (auto simp: addresses_at_delete_service option.map_comp comp_def)

definition mem_routed :: mem_table where
  "mem_routed = [(''t1'', sample_tenant)]"

lemma delete_route_from_tenants_witness:
  "\<exists>t. mem_db (snd (DeleteRouteFromTenants mem_pg ''shop'' mem_routed)) ''t1'' = Some t \<and>
     addresses_at t ''default'' ''shop'' = None \<and>
     addresses_at t ''default'' ''bank'' = Some [Address ''https://c.com'', Address ''a.com'']"
proof -
  obtain r s' where run: "DeleteRouteFromTenants mem_pg ''shop'' mem_routed = (r, s')"
    by (cases "DeleteRouteFromTenants mem_pg ''shop'' mem_routed")
  then have r: "r = Ok ()"
    by (auto simp: mem_run mem_routed_def sample_tenant_def update_in_tx_def delete_route_body_def
        delete_service_at_def Let_def)
  have at: "mem_db mem_routed ''t1'' = Some sample_tenant"
    by (simp add: mem_run mem_routed_def sample_tenant_def)
  note * = delete_route_from_tenants [OF mem.postgres_axioms run, unfolded r if_P [OF refl]]
  from * at obtain t where t: "mem_db s' ''t1'' = Some t"
    by (metis (no_types, lifting) option.map_disc_iff option.exhaust option.distinct(1))
  with * at have "addresses_at t ''default'' S =
      (if S = ''shop'' then None else addresses_at sample_tenant ''default'' S)" for S by blast
  with run t show ?thesis by (simp add: sample_tenant_def addresses_at_def)
qed

text \<open>
  \<open>FindByTenantId\<close> returns the stored tenant or the error that it is not present, whatever the
  query's error was; it panics when there is no connection. It never changes the table.
\<close>

theorem find_by_tenant_id:
  assumes "postgres pg db"
  shows "db (snd (FindByTenantId pg k s)) = db s \<and>
    (case fst (FindByTenantId pg k s) of
       Ok t \<Rightarrow> db s k = Some t
     | Err e \<Rightarrow> e = NewTenantNotFoundError k
     | Panic p \<Rightarrow> (\<exists>e. fst (pgGetBunDb pg s) = Err e) \<or> (\<exists>q. fst (pgGetBunDb pg s) = Panic q) \<or>
         (\<exists>q. fst (pgSelectTenant pg k (snd (pgGetBunDb pg s))) = Panic q))"
proof -
  obtain r s' where run: "FindByTenantId pg k s = (r, s')" by (cases "FindByTenantId pg k s")
  note * = postgres.FindByTenantId_run [OF assms run]
  show ?thesis
  proof (cases r)
    case (Ok t)
    with * run show ?thesis by simp
  next
    case (Err e)
    with *(1) run show ?thesis
      by (auto simp: FindByTenantId_def go_simps split: prod.splits result.splits)
  next
    case (Panic p)
    with *(1) run show ?thesis
      by (auto simp: FindByTenantId_def go_simps split: prod.splits result.splits)
  qed
qed

lemma find_by_tenant_id_witness:
  "mem_db (snd (FindByTenantId mem_pg ''x'' mem_sample)) = mem_db mem_sample \<and>
   fst (FindByTenantId mem_pg ''x'' mem_sample) = Err (NewTenantNotFoundError ''x'')"
  using find_by_tenant_id [OF mem.postgres_axioms, of "''x''" mem_sample]
  by (simp add: mem_run)

text \<open>
  \<open>FindAllHosts\<close> returns, without repetition, exactly the hosts of the addresses that the tenants
  of the table hold.
\<close>

theorem find_all_hosts:
  assumes "postgres pg db" and "FindAllHosts pg s = (Ok hs, s')"
  shows "distinct hs \<and> db s' = db s \<and>
    set hs = {Host a | k t a. db s k = Some t \<and> a \<in> set (all_addresses t)}"
proof -
  obtain all where all: "FindAll pg s = (Ok all, s')" and hs: "hs = flattenHosts all"
    using assms(2) by (auto simp: FindAllHosts_def gret_run elim!: gbind_OkE)
  note store = postgres.dao_store [OF assms(1)]
  have mem: "t \<in> set all \<longleftrightarrow> db s (tTenantId t) = Some t" for t
    by (rule tenant_store.find_all_member [OF store all])
  have "db s' = db s" using tenant_store.find_all_keeps [OF store, of s] all by simp
  have "(\<exists>t \<in> set all. a \<in> set (all_addresses t)) \<longleftrightarrow>
      (\<exists>k t. db s k = Some t \<and> a \<in> set (all_addresses t))" for a
    using mem postgres.keyed [OF assms(1)] by metis
  moreover have "set hs = Host ` {a. \<exists>t \<in> set all. a \<in> set (all_addresses t)}"
    unfolding hs flattenHosts_def by (simp only: set_set_put_all) auto
  ultimately have "set hs = Host ` {a. \<exists>k t. db s k = Some t \<and> a \<in> set (all_addresses t)}"
    by (simp only:)
  moreover have "distinct hs" by (simp add: hs flattenHosts_def)
  ultimately show ?thesis using \<open>db s' = db s\<close> by blast
qed

lemma sample_hosts:
  "Host (Address ''http://a.com/x'') = ''a.com''" "Host (Address ''b.com'') = ''b.com''"
  "Host (Address ''https://c.com'') = ''c.com''" "Host (Address ''a.com'') = ''a.com''"
  by code_simp+

lemma find_all_hosts_witness:
  "\<exists>hs s'. FindAllHosts mem_pg mem_routed = (Ok hs, s') \<and> set hs = {''a.com'', ''b.com'', ''c.com''}"
proof -
  obtain hs where run: "FindAllHosts mem_pg mem_routed = (Ok hs, mem_routed)"
    by (simp add: mem_run)
  have one: "mem_db mem_routed k = Some t \<longleftrightarrow> k = ''t1'' \<and> t = sample_tenant" for k t
    by (auto simp: mem_db_def mem_routed_def sample_tenant_def)
  have "set hs = {Host a | a. a \<in> set (all_addresses sample_tenant)}"
    using find_all_hosts [OF mem.postgres_axioms run] by (simp add: one)
  also have "\<dots> = Host ` set (all_addresses sample_tenant)" by blast
  also have "\<dots> = {''a.com'', ''b.com'', ''c.com''}"
    by (simp add: all_addresses_def sample_tenant_def sample_hosts insert_commute)
  finally show ?thesis using run by blast
qed

end
