(* ===== verification/PaasCache.thy ===== *)
theory PaasCache
  imports PaasDomain
begin

text \<open>
  The caches of the platform mediation client (\<open>paasMediationClient/paasMediationClient.go\<close>,
  \<open>updateRoutesCache\<close>, \<open>updateServicesCache\<close>, \<open>updateConfigmapsCache\<close>): for each namespace the
  objects by key, kept up to date by the events of the watch channels. Every function is given
  here for an event that is no INIT event, as a program over its cache; \<open>PaasClient\<close> adds the INIT
  branch, which reads the objects from the server. The mutexes make each of them one step.
\<close>

type_synonym 'v cache = "(string, (string, 'v) gomap) gomap"

section \<open>The three update functions\<close>

definition stores :: "string \<Rightarrow> bool" where
  "stores updateType \<longleftrightarrow> updateType = updateTypeCreated \<or> updateType = updateTypeAdded \<or>
     updateType = updateTypeModified"

text \<open>\<open>(*ptr)[key] = object\<close>, where \<open>ptr\<close> is the entry of the namespace.\<close>

definition cache_put :: "string \<Rightarrow> string \<Rightarrow> 'v \<Rightarrow> ('v cache, unit) go" where
  "cache_put namespace key object = (\<lambda>c.
     case mput key object (case mlookup c namespace of Some m \<Rightarrow> m | None \<Rightarrow> NilMap) of
       Ok m' \<Rightarrow> (Ok (), GoMap (AList.update namespace m' (ments c)))
     | Err e \<Rightarrow> (Err e, c)
     | Panic p \<Rightarrow> (Panic p, c))"

definition cache_delete :: "string \<Rightarrow> string \<Rightarrow> ('v cache, unit) go" where
  "cache_delete namespace key = (\<lambda>c.
     case mlookup c namespace of
       Some m \<Rightarrow> (Ok (), GoMap (AList.update namespace (mdelete key m) (ments c)))
     | None \<Rightarrow> (Ok (), c))"

definition updateRoutesCache_event :: "route_update \<Rightarrow> (route cache, unit) go" where
  "updateRoutesCache_event routeUpdate = (\<lambda>c.
     let updateType = ruType routeUpdate;
         objectNamespace = mNamespace (rtMetadata (ruObject routeUpdate))
     in if c = NilMap then (Ok (), c)
        else case mlookup c objectNamespace of
          None \<Rightarrow> (Ok (), c)
        | Some NilMap \<Rightarrow> (Ok (), c)
        | Some (GoMap _) \<Rightarrow>
            let cacheKey = CacheKey (ruObject routeUpdate) in
            if stores updateType then cache_put objectNamespace cacheKey (ruObject routeUpdate) c
            else if updateType = updateTypeDeleted then cache_delete objectNamespace cacheKey c
            else (Ok (), c))"

definition updateServicesCache_event :: "service_update \<Rightarrow> (service cache, unit) go" where
  "updateServicesCache_event serviceUpdate = (\<lambda>c.
     let updateType = suType serviceUpdate;
         objectNamespace = mNamespace (svMetadata (suObject serviceUpdate))
     in if c = NilMap then (Ok (), c)
        else case mlookup c objectNamespace of
          None \<Rightarrow> (Ok (), c)
        | Some NilMap \<Rightarrow> (Ok (), c)
        | Some (GoMap _) \<Rightarrow>
            let objectName = service_name (suObject serviceUpdate) in
            if stores updateType then cache_put objectNamespace objectName (suObject serviceUpdate) c
            else if updateType = updateTypeDeleted then cache_delete objectNamespace objectName c
            else (Ok (), c))"

definition ProjectTypeConfigMapName :: string where
  "ProjectTypeConfigMapName = ''baseline-version''"

definition TMConfigsConfigmapName :: string where
  "TMConfigsConfigmapName = ''tenant-manager-configs''"

definition FilterRequiredConfigMaps :: "string \<Rightarrow> bool" where
  "FilterRequiredConfigMaps configMapName \<longleftrightarrow>
     configMapName = ProjectTypeConfigMapName \<or> configMapName = TMConfigsConfigmapName"

text \<open>
  Here the source logs that the namespace is unknown but goes on: \<open>*namespacedConfigMapPtr\<close> is then
  the dereference of a nil pointer. A nil inner map is written to, which panics as well.
\<close>

definition updateConfigmapsCache_event :: "configmap_update \<Rightarrow> (configmap cache, unit) go" where
  "updateConfigmapsCache_event configMapUpdate = (\<lambda>c.
     let updateType = cuType configMapUpdate;
         objectNamespace = cmNamespace (cfMetadata (cuObject configMapUpdate))
     in if c = NilMap then (Ok (), c)
        else case mlookup c objectNamespace of
          None \<Rightarrow> (Panic ''invalid memory address or nil pointer dereference'', c)
        | Some _ \<Rightarrow>
            let objectName = cmName (cfMetadata (cuObject configMapUpdate)) in
            if \<not> FilterRequiredConfigMaps objectName then (Ok (), c)
            else if stores updateType then cache_put objectNamespace objectName (cuObject configMapUpdate) c
            else if updateType = updateTypeDeleted then cache_delete objectNamespace objectName c
            else (Ok (), c))"

section \<open>The contract of a cache\<close>

text \<open>What a cache holds for a key of a namespace, and whether it knows the namespace.\<close>

definition cached :: "'v cache \<Rightarrow> string \<Rightarrow> string \<Rightarrow> 'v option" where
  "cached c namespace key = (case mlookup c namespace of Some m \<Rightarrow> mlookup m key | None \<Rightarrow> None)"

definition known :: "'v cache \<Rightarrow> string \<Rightarrow> bool" where
  "known c namespace \<longleftrightarrow> (\<exists>es. mlookup c namespace = Some (GoMap es))"

text \<open>The effect of one event on the value of a key: stored, deleted, or as it was.\<close>

definition event_effect :: "string \<Rightarrow> 'v \<Rightarrow> 'v option \<Rightarrow> 'v option" where
  "event_effect updateType object old =
     (if stores updateType then Some object
      else if updateType = updateTypeDeleted then None else old)"

text \<open>
  An event for a known namespace is applied to its key alone, and every known namespace stays known.
\<close>

locale keyed_cache =
  fixes step :: "'u \<Rightarrow> ('v cache, unit) go"
    and utype :: "'u \<Rightarrow> string" and namespace :: "'u \<Rightarrow> string" and key :: "'u \<Rightarrow> string"
    and object :: "'u \<Rightarrow> 'v" and relevant :: "'u \<Rightarrow> bool"
  assumes step_ok: "known c (namespace u) \<Longrightarrow> fst (step u c) = Ok ()"
    and step_cached: "known c (namespace u) \<Longrightarrow> cached (snd (step u c)) n k =
      (if relevant u \<and> n = namespace u \<and> k = key u
       then event_effect (utype u) (object u) (cached c n k) else cached c n k)"
    and step_known: "known c (namespace u) \<Longrightarrow> known (snd (step u c)) n \<longleftrightarrow> known c n"
begin

text \<open>Replaying a sequence of events.\<close>

definition replay :: "'u list \<Rightarrow> ('v cache, unit) go" where
  "replay us = gfor us step"

lemma replay_run:
  assumes "\<And>u. u \<in> set us \<Longrightarrow> known c (namespace u)"
  shows "\<exists>c'. replay us c = (Ok (), c') \<and> (\<forall>n. known c' n \<longleftrightarrow> known c n) \<and>
    (\<forall>n k. cached c' n k =
      foldl (\<lambda>v u. if relevant u \<and> namespace u = n \<and> key u = k
         then event_effect (utype u) (object u) v else v) (cached c n k) us)"
  using assms
proof (induction us arbitrary: c)
  case Nil
  then show ?case by (simp add: replay_def gret_run)
next
  case (Cons u us)
  obtain r c1 where s: "step u c = (r, c1)" by (cases "step u c")
  have k: "known c (namespace u)" using Cons.prems by simp
  from step_ok [OF k] s have r: "r = Ok ()" by simp
  have k1: "known c1 n \<longleftrightarrow> known c n" for n using step_known [OF k] s by simp
  with Cons.prems Cons.IH [of c1] obtain c' where c': "replay us c1 = (Ok (), c')"
    "\<And>n. known c' n \<longleftrightarrow> known c1 n"
    "\<And>n k. cached c' n k = foldl (\<lambda>v u. if relevant u \<and> namespace u = n \<and> key u = k
         then event_effect (utype u) (object u) v else v) (cached c1 n k) us" by auto
  have "cached c1 n k = (if relevant u \<and> namespace u = n \<and> key u = k
      then event_effect (utype u) (object u) (cached c n k) else cached c n k)" for n k
    using step_cached [OF k, of n k] s by auto
  with c' k1 s r show ?case by (intro exI [of _ c']) (simp add: replay_def gbind_run)
qed

text \<open>The last relevant event of a key that stores or deletes decides what the cache holds.\<close>

lemma replay_last:
  assumes "\<And>u. u \<in> set (us @ w # vs) \<Longrightarrow> known c (namespace u)"
    and "relevant w" and "stores (utype w) \<or> utype w = updateTypeDeleted"
    and "\<And>v. v \<in> set vs \<Longrightarrow> \<not> (relevant v \<and> namespace v = namespace w \<and> key v = key w)"
  shows "cached (snd (replay (us @ w # vs) c)) (namespace w) (key w) =
    (if stores (utype w) then Some (object w) else None)"
proof -
  let ?f = "\<lambda>v u. if relevant u \<and> namespace u = namespace w \<and> key u = key w
      then event_effect (utype u) (object u) v else v"
  from replay_run [of "us @ w # vs" c] assms(1) obtain c' where
    c': "replay (us @ w # vs) c = (Ok (), c')"
    and look: "cached c' (namespace w) (key w) = foldl ?f (cached c (namespace w) (key w)) (us @ w # vs)"
    by blast
  have "foldl ?f v vs = v" for v
    using assms(4) by (induction vs arbitrary: v) auto
  with c' look assms(2,3) show ?thesis by (auto simp: event_effect_def)
qed

end

lemma cached_put:
  assumes "known c n"
  shows "fst (cache_put n k v c) = Ok ()"
    and "cached (snd (cache_put n k v c)) n' k' = (if n' = n \<and> k' = k then Some v else cached c n' k')"
    and "known (snd (cache_put n k v c)) n' \<longleftrightarrow> known c n'"
  using assms by (auto simp: cache_put_def known_def cached_def split: if_splits)

lemma cached_delete:
  assumes "known c n"
  shows "fst (cache_delete n k c) = Ok ()"
    and "cached (snd (cache_delete n k c)) n' k' = (if n' = n \<and> k' = k then None else cached c n' k')"
    and "known (snd (cache_delete n k c)) n' \<longleftrightarrow> known c n'"
  using assms by (auto simp: cache_delete_def known_def cached_def split: if_splits)

lemma stores_not_deleted: "stores t \<Longrightarrow> t \<noteq> updateTypeDeleted"
  by (auto simp: stores_def update_type_defs)

lemma known_not_nil: "known c n \<Longrightarrow> c \<noteq> NilMap"
  by (auto simp: known_def)

lemmas event_defs = updateRoutesCache_event_def updateServicesCache_event_def
  updateConfigmapsCache_event_def event_effect_def Let_def

interpretation routes: keyed_cache updateRoutesCache_event ruType
  "\<lambda>u. mNamespace (rtMetadata (ruObject u))" "\<lambda>u. CacheKey (ruObject u)" ruObject "\<lambda>u. True"
proof
  fix c :: "route cache" and u :: route_update and n k
  assume k: "known c (mNamespace (rtMetadata (ruObject u)))"
  then obtain es where es: "mlookup c (mNamespace (rtMetadata (ruObject u))) = Some (GoMap es)"
    by (auto simp: known_def)
  note run = cached_put [OF k] cached_delete [OF k] known_not_nil [OF k] es stores_not_deleted
  show "fst (updateRoutesCache_event u c) = Ok ()" by (simp add: event_defs run)
  show "cached (snd (updateRoutesCache_event u c)) n k = (if True \<and>
      n = mNamespace (rtMetadata (ruObject u)) \<and> k = CacheKey (ruObject u)
      then event_effect (ruType u) (ruObject u) (cached c n k) else cached c n k)"
    by (simp add: event_defs run)
  show "known (snd (updateRoutesCache_event u c)) n \<longleftrightarrow> known c n" by (simp add: event_defs run)
qed

interpretation services: keyed_cache updateServicesCache_event suType
  "\<lambda>u. mNamespace (svMetadata (suObject u))" "\<lambda>u. service_name (suObject u)" suObject "\<lambda>u. True"
proof
  fix c :: "service cache" and u :: service_update and n k
  assume k: "known c (mNamespace (svMetadata (suObject u)))"
  then obtain es where es: "mlookup c (mNamespace (svMetadata (suObject u))) = Some (GoMap es)"
    by (auto simp: known_def)
  note run = cached_put [OF k] cached_delete [OF k] known_not_nil [OF k] es stores_not_deleted
  show "fst (updateServicesCache_event u c) = Ok ()" by (simp add: event_defs run)
  show "cached (snd (updateServicesCache_event u c)) n k = (if True \<and>
      n = mNamespace (svMetadata (suObject u)) \<and> k = service_name (suObject u)
      then event_effect (suType u) (suObject u) (cached c n k) else cached c n k)"
    by (simp add: event_defs run)
  show "known (snd (updateServicesCache_event u c)) n \<longleftrightarrow> known c n" by (simp add: event_defs run)
qed

interpretation configmaps: keyed_cache updateConfigmapsCache_event cuType
  "\<lambda>u. cmNamespace (cfMetadata (cuObject u))" "\<lambda>u. cmName (cfMetadata (cuObject u))" cuObject
  "\<lambda>u. FilterRequiredConfigMaps (cmName (cfMetadata (cuObject u)))"
proof
  fix c :: "configmap cache" and u :: configmap_update and n k
  assume k: "known c (cmNamespace (cfMetadata (cuObject u)))"
  then obtain es where es: "mlookup c (cmNamespace (cfMetadata (cuObject u))) = Some (GoMap es)"
    by (auto simp: known_def)
  note run = cached_put [OF k] cached_delete [OF k] known_not_nil [OF k] es stores_not_deleted
  show "fst (updateConfigmapsCache_event u c) = Ok ()" by (simp add: event_defs run)
  show "cached (snd (updateConfigmapsCache_event u c)) n k =
      (if FilterRequiredConfigMaps (cmName (cfMetadata (cuObject u))) \<and>
        n = cmNamespace (cfMetadata (cuObject u)) \<and> k = cmName (cfMetadata (cuObject u))
      then event_effect (cuType u) (cuObject u) (cached c n k) else cached c n k)"
    by (simp add: event_defs run)
  show "known (snd (updateConfigmapsCache_event u c)) n \<longleftrightarrow> known c n" by (simp add: event_defs run)
qed

section \<open>What the caches guarantee\<close>

text \<open>An event for the examples.\<close>

definition sample_event :: "string \<Rightarrow> string \<Rightarrow> route_update" where
  "sample_event type host = \<lparr>ruType = type, ruObject = \<lparr>rtMetadata = zero_metadata\<lparr>mName := ''r'',
     mNamespace := ''ns''\<rparr>, rtSpec = \<lparr>rsHost = host, rsPath = [], rsService = \<lparr>tgtName = ''s''\<rparr>,
     rsPort = \<lparr>rpTargetPort = 0\<rparr>\<rparr>\<rparr>\<rparr>"

text \<open>
  After any sequence of such events for known namespaces the config maps cache holds under a name
  what the last CREATED, ADDED, MODIFIED or DELETED event for it said. Of the config maps only
  \<open>baseline-version\<close> and \<open>tenant-manager-configs\<close> are kept: another one is never stored, whatever
  events arrive.
\<close>

theorem configmaps_cache_last_event:
  assumes "\<And>u. u \<in> set (us @ w # vs) \<Longrightarrow> known c (cmNamespace (cfMetadata (cuObject u)))"
    and "FilterRequiredConfigMaps (cmName (cfMetadata (cuObject w)))"
    and "stores (cuType w) \<or> cuType w = updateTypeDeleted"
    and "\<And>v. v \<in> set vs \<Longrightarrow> cmNamespace (cfMetadata (cuObject v)) = cmNamespace (cfMetadata (cuObject w)) \<Longrightarrow>
      cmName (cfMetadata (cuObject v)) \<noteq> cmName (cfMetadata (cuObject w))"
    and "\<not> FilterRequiredConfigMaps other" and "cached c n other = None"
  shows "cached (snd (gfor (us @ w # vs) updateConfigmapsCache_event c))
      (cmNamespace (cfMetadata (cuObject w))) (cmName (cfMetadata (cuObject w))) =
        (if stores (cuType w) then Some (cuObject w) else None) \<and>
    cached (snd (gfor (us @ w # vs) updateConfigmapsCache_event c)) n other = None"
proof
  show "cached (snd (gfor (us @ w # vs) updateConfigmapsCache_event c))
      (cmNamespace (cfMetadata (cuObject w))) (cmName (cfMetadata (cuObject w))) =
        (if stores (cuType w) then Some (cuObject w) else None)"
    using configmaps.replay_last [of us w vs c] assms(1-4) by (auto simp: configmaps.replay_def)
  let ?f = "\<lambda>v u. if FilterRequiredConfigMaps (cmName (cfMetadata (cuObject u))) \<and>
      cmNamespace (cfMetadata (cuObject u)) = n \<and> cmName (cfMetadata (cuObject u)) = other
      then event_effect (cuType u) (cuObject u) v else v"
  have id: "foldl ?f v es = v" for v es
    using assms(5) by (induction es arbitrary: v) auto
  from configmaps.replay_run [of "us @ w # vs" c] assms(1) obtain c' where
    "gfor (us @ w # vs) updateConfigmapsCache_event c = (Ok (), c')"
    and "cached c' n other = foldl ?f (cached c n other) (us @ w # vs)"
    unfolding configmaps.replay_def by blast
  then show "cached (snd (gfor (us @ w # vs) updateConfigmapsCache_event c)) n other = None"
    using id [of "cached c n other" "us @ w # vs"] assms(6) by (simp only: snd_conv)
qed

definition sample_configmap :: "string \<Rightarrow> configmap_update" where
  "sample_configmap name = \<lparr>cuType = updateTypeModified, cuObject =
     \<lparr>cfMetadata = \<lparr>cmName = name, cmNamespace = ''ns''\<rparr>,
       cfData = \<lparr>cmParent = ''base'', cmExternalRoutes = []\<rparr>\<rparr>\<rparr>"

lemma configmaps_cache_last_event_witness:
  "cached (snd (gfor [sample_configmap ''other'', sample_configmap ''baseline-version'']
      updateConfigmapsCache_event (GoMap [(''ns'', GoMap [])]))) ''ns'' ''baseline-version'' =
     Some (cuObject (sample_configmap ''baseline-version'')) \<and>
   cached (snd (gfor [sample_configmap ''other'', sample_configmap ''baseline-version'']
      updateConfigmapsCache_event (GoMap [(''ns'', GoMap [])]))) ''ns'' ''other'' = None"
proof -
  let ?w = "sample_configmap ''baseline-version''"
  note names = FilterRequiredConfigMaps_def ProjectTypeConfigMapName_def TMConfigsConfigmapName_def
  have "cached (snd (gfor ([sample_configmap ''other''] @ ?w # []) updateConfigmapsCache_event
        (GoMap [(''ns'', GoMap [])]))) (cmNamespace (cfMetadata (cuObject ?w)))
          (cmName (cfMetadata (cuObject ?w))) = (if stores (cuType ?w) then Some (cuObject ?w) else None) \<and>
      cached (snd (gfor ([sample_configmap ''other''] @ ?w # []) updateConfigmapsCache_event
        (GoMap [(''ns'', GoMap [])]))) ''ns'' ''other'' = None"
    by (rule configmaps_cache_last_event)
      (auto simp: sample_configmap_def known_def cached_def stores_def names)
  then show ?thesis
    by (simp add: sample_configmap_def stores_def del: gfor.simps)
qed

text \<open>
  An event for a namespace that the cache does not know is ignored by the routes and the services
  cache, while the config map cache dereferences a nil pointer.
\<close>

theorem unknown_namespace_events:
  assumes "c \<noteq> NilMap" and "c' \<noteq> NilMap" and "d \<noteq> NilMap"
    and "mlookup c (mNamespace (rtMetadata (ruObject u))) = None"
    and "mlookup c' (mNamespace (svMetadata (suObject v))) = None"
    and "mlookup d (cmNamespace (cfMetadata (cuObject w))) = None"
  shows "updateRoutesCache_event u c = (Ok (), c) \<and> updateServicesCache_event v c' = (Ok (), c') \<and>
    updateConfigmapsCache_event w d = (Panic ''invalid memory address or nil pointer dereference'', d)"
  using assms by (simp add: event_defs)

lemma unknown_namespace_events_witness:
  "fst (updateConfigmapsCache_event (sample_configmap ''baseline-version'') mempty) =
     Panic ''invalid memory address or nil pointer dereference''"
  using unknown_namespace_events [of mempty mempty mempty "sample_event [] []"
      "\<lparr>suType = [], suObject = \<lparr>svMetadata = zero_metadata,
        svSpec = \<lparr>ssPorts = [], ssSelector = NilMap, ssClusterIP = [], ssType = []\<rparr>\<rparr>\<rparr>"
      "sample_configmap ''baseline-version''"]
  by (simp add: mempty_def)

end
