(* ===== verification/PaasClient.thy ===== *)
theory PaasClient
  imports PaasCache
begin

text \<open>
  The client of the platform mediation service (\<open>paasMediationClient/paasMediationClient.go\<close>): the
  requests it makes, with their retries, the caches it fills and reads, and the creation, update
  and deletion of routes and services. The network, the decoding of JSON bodies, the watch channels
  and what the other goroutines do while this one sleeps are parameters, the record \<open>pm_env\<close>; the
  theorems hold for each of them.
\<close>

section \<open>Client, state and environment\<close>

record pm_client =
  pcInternalGatewayAddress :: string
  pcNamespace :: string
  pcEnableGateway :: bool

record 'x pm_state =
  psRoutes :: "route cache"
  psServices :: "service cache"
  psConfigmaps :: "configmap cache"
  psRest :: 'x

record http_response =
  hrStatusCode :: int
  hrBody :: string

text \<open>What is marshalled into the body of a request.\<close>

datatype payload = NoBody | RouteBody route | ServiceBody service

text \<open>The outcome of \<open>json.Decoder.Decode\<close>: a value, \<open>io.EOF\<close>, or an error with its message.\<close>

datatype 'a decoded = Decoded 'a | Eof | Malformed string

text \<open>The objects of the gateway API, with the fields that the source reads.\<close>

record gateway_backend =
  gbName :: string
  gbPort :: "int32 option"

record http_rule =
  hrlMatches :: "string option option list"
  hrlBackendRefs :: "gateway_backend list"

record http_route =
  htMetadata :: metadata
  htHostnames :: "string list"
  htRules :: "http_rule list"

record grpc_route =
  gtMetadata :: metadata
  gtHostnames :: "string list"
  gtRules :: "gateway_backend list list"

text \<open>
  \<open>peDo\<close>: the HTTP executor (url, verb, body). \<open>peIdle\<close>: what happens to the state while the
  goroutine sleeps. \<open>peWatch\<close>: opening a watch channel for a namespace and a kind of resource.
  The other fields decode a response body, where there is a target the decoder starts from it.
\<close>

record 'x pm_env =
  peDo :: "string \<Rightarrow> string \<Rightarrow> payload \<Rightarrow> ('x, http_response) go"
  peIdle :: "'x pm_state \<Rightarrow> 'x pm_state"
  peWatch :: "string \<Rightarrow> string \<Rightarrow> 'x \<Rightarrow> 'x"
  peRoutes :: "string \<Rightarrow> route list decoded"
  peServices :: "string \<Rightarrow> service list decoded"
  peConfigmaps :: "string \<Rightarrow> configmap list decoded"
  peHttpRoutes :: "string \<Rightarrow> http_route list decoded"
  peGrpcRoutes :: "string \<Rightarrow> grpc_route list decoded"
  peIntoRoute :: "string \<Rightarrow> route \<Rightarrow> route decoded"
  peIntoService :: "string \<Rightarrow> service \<Rightarrow> service decoded"
  peAny :: "string \<Rightarrow> unit decoded"

definition on_routes :: "(route cache, 'a) go \<Rightarrow> ('x pm_state, 'a) go" where
  "on_routes = gzoom psRoutes (\<lambda>c s. s\<lparr>psRoutes := c\<rparr>)"

definition on_services :: "(service cache, 'a) go \<Rightarrow> ('x pm_state, 'a) go" where
  "on_services = gzoom psServices (\<lambda>c s. s\<lparr>psServices := c\<rparr>)"

definition on_configmaps :: "(configmap cache, 'a) go \<Rightarrow> ('x pm_state, 'a) go" where
  "on_configmaps = gzoom psConfigmaps (\<lambda>c s. s\<lparr>psConfigmaps := c\<rparr>)"

definition on_rest :: "('x, 'a) go \<Rightarrow> ('x pm_state, 'a) go" where
  "on_rest = gzoom psRest (\<lambda>x s. s\<lparr>psRest := x\<rparr>)"

section \<open>Conversion of gateway routes\<close>

definition buildDomainRouteFromGateway ::
  "metadata \<Rightarrow> string \<Rightarrow> string \<Rightarrow> string \<Rightarrow> string \<Rightarrow> int32 \<Rightarrow> route" where
  "buildDomainRouteFromGateway metaObj kind host path backendName targetPort =
     \<lparr>rtMetadata = \<lparr>mKind = kind, mName = mName metaObj, mNamespace = mNamespace metaObj,
        mAnnotations = mAnnotations metaObj\<rparr>,
      rtSpec = \<lparr>rsHost = host, rsPath = path, rsService = \<lparr>tgtName = backendName\<rparr>,
        rsPort = \<lparr>rpTargetPort = targetPort\<rparr>\<rparr>\<rparr>"

definition or_any_host :: "string list \<Rightarrow> string list" where
  "or_any_host hostnames = (if hostnames = [] then [[]] else hostnames)"

definition convertHTTPRoutes :: "http_route list \<Rightarrow> route list" where
  "convertHTTPRoutes routes = concat (map (\<lambda>r.
     concat (map (\<lambda>rule. concat (map (\<lambda>match.
       let path = (case match of Some (Some value) \<Rightarrow> value | _ \<Rightarrow> []) in
       concat (map (\<lambda>backend. map (\<lambda>host.
         let tp = (case gbPort backend of Some p \<Rightarrow> p | None \<Rightarrow> 8080) in
         buildDomainRouteFromGateway (htMetadata r) RouteKindHTTP host path (gbName backend) tp)
         (or_any_host (htHostnames r))) (hrlBackendRefs rule)))
       (hrlMatches rule))) (htRules r))) routes)"

definition convertGRPCRoutes :: "grpc_route list \<Rightarrow> route list" where
  "convertGRPCRoutes routes = concat (map (\<lambda>r.
     concat (map (\<lambda>rule. concat (map (\<lambda>backend. map (\<lambda>host.
         let tp = (case gbPort backend of Some p \<Rightarrow> p | None \<Rightarrow> 0) in
         buildDomainRouteFromGateway (gtMetadata r) RouteKindGRPC host ''/'' (gbName backend) tp)
         (or_any_host (gtHostnames r))) rule)) (gtRules r))) routes)"

section \<open>Requests\<close>

definition routesString :: string where "routesString = ''routes''"
definition httpRoutesString :: string where "httpRoutesString = ''gateway/httproutes''"
definition grpcRoutesString :: string where "grpcRoutesString = ''gateway/grpcroutes''"
definition configmapsString :: string where "configmapsString = ''configmaps''"
definition servicesString :: string where "servicesString = ''services''"

definition attempts :: nat where "attempts = 12"
definition attemptsInit :: nat where "attemptsInit = 5"

definition buildUrl :: "pm_client \<Rightarrow> string \<Rightarrow> string \<Rightarrow> string \<Rightarrow> go_error + string" where
  "buildUrl c namespace resourceType resourceName =
     (if namespace = [] \<or> resourceType = []
      then Inl (PlainError ''namespace and resourceType parameters can not be empty'')
      else let requestedUrl = pcInternalGatewayAddress c @ ''/api/v2/paas-mediation/namespaces/'' @
             namespace @ ''/'' @ resourceType
        in Inr (if resourceName \<noteq> [] then requestedUrl @ ''/'' @ resourceName else requestedUrl))"

definition decodeResponseBody :: "'a decoded \<Rightarrow> 'a \<Rightarrow> go_error + 'a" where
  "decodeResponseBody d responseBody = (case d of
     Decoded v \<Rightarrow> Inr v | Eof \<Rightarrow> Inr responseBody | Malformed m \<Rightarrow> Inl (PlainError m))"

text \<open>
  \<open>responseBody\<close> is the value the target has before the call; the result is its value after it.
\<close>

definition performRequest ::
  "'x pm_env \<Rightarrow> string \<Rightarrow> string \<Rightarrow> payload \<Rightarrow> int \<Rightarrow> (string \<Rightarrow> 'a decoded) \<Rightarrow> 'a \<Rightarrow>
     ('x pm_state, 'a) go" where
  "performRequest env url verb body expectedCode dec responseBody =
     gtry (on_rest (peDo env url verb body)) (\<lambda>r. case r of
       Inl err \<Rightarrow> gerr (ErrorWrapper 500 (err_message err))
     | Inr resp \<Rightarrow>
         if hrStatusCode resp \<noteq> expectedCode
         then gerr (ErrorWrapper (hrStatusCode resp) (''Found '' @ Itoa (hrStatusCode resp) @
           '' instead of '' @ Itoa expectedCode @
           '' while performing paas mediation request. Returned error message: '' @ hrBody resp))
         else (case decodeResponseBody (dec (hrBody resp)) responseBody of
           Inl err \<Rightarrow> gerr (ErrorWrapper 500 (err_message err))
         | Inr v \<Rightarrow> gret v))"

text \<open>
  The \<open>err\<close> of the loop body is a new variable, so the function returns the outer one, nil, when
  all attempts have failed: the caller sees the target as it was and no error.
\<close>

fun retry_loop ::
  "nat \<Rightarrow> 'x pm_env \<Rightarrow> ('x pm_state, 'a) go \<Rightarrow> 'a \<Rightarrow> ('x pm_state, 'a) go" where
  "retry_loop 0 env request responseBody = gret responseBody"
| "retry_loop (Suc n) env request responseBody =
     gtry request (\<lambda>r. case r of
       Inr v \<Rightarrow> gret v
     | Inl err \<Rightarrow> gbind (gmodify (peIdle env)) (\<lambda>_. retry_loop n env request responseBody))"

definition performRequestWithRetry ::
  "'x pm_env \<Rightarrow> string \<Rightarrow> string \<Rightarrow> payload \<Rightarrow> int \<Rightarrow> (string \<Rightarrow> 'a decoded) \<Rightarrow> 'a \<Rightarrow>
     ('x pm_state, 'a) go" where
  "performRequestWithRetry env url verb body code dec responseBody =
     retry_loop attempts env (performRequest env url verb body code dec responseBody) responseBody"

definition from_sum :: "go_error + 'a \<Rightarrow> ('s, 'a) go" where
  "from_sum r = (case r of Inl e \<Rightarrow> gerr e | Inr x \<Rightarrow> gret x)"

definition getRoutesWithoutCache ::
  "'x pm_env \<Rightarrow> pm_client \<Rightarrow> string \<Rightarrow> ('x pm_state, route list) go" where
  "getRoutesWithoutCache env c namespace =
     gbind (from_sum (buildUrl c namespace routesString [])) (\<lambda>url.
     gbind (performRequestWithRetry env url ''GET'' NoBody 200 (peRoutes env) []) (\<lambda>routeList.
     if \<not> pcEnableGateway c then gret routeList else
     gbind (from_sum (buildUrl c namespace httpRoutesString [])) (\<lambda>url2.
     gbind (performRequestWithRetry env url2 ''GET'' NoBody 200 (peHttpRoutes env) []) (\<lambda>httpRouteList.
     gbind (from_sum (buildUrl c namespace grpcRoutesString [])) (\<lambda>url3.
     gbind (performRequestWithRetry env url3 ''GET'' NoBody 200 (peGrpcRoutes env) []) (\<lambda>grpcRouteList.
     gret (routeList @ convertHTTPRoutes httpRouteList @ convertGRPCRoutes grpcRouteList)))))))"

definition getServicesWithoutCache ::
  "'x pm_env \<Rightarrow> pm_client \<Rightarrow> string \<Rightarrow> ('x pm_state, service list) go" where
  "getServicesWithoutCache env c namespace =
     gbind (from_sum (buildUrl c namespace servicesString [])) (\<lambda>url.
     performRequestWithRetry env url ''GET'' NoBody 200 (peServices env) [])"

definition getConfigMapsWithoutCache ::
  "'x pm_env \<Rightarrow> pm_client \<Rightarrow> string \<Rightarrow> ('x pm_state, configmap list) go" where
  "getConfigMapsWithoutCache env c namespace =
     gbind (from_sum (buildUrl c namespace configmapsString [])) (\<lambda>url.
     gbind (performRequestWithRetry env url ''GET'' NoBody 200 (peConfigmaps env) []) (\<lambda>allConfigMaps.
     gret (filter (\<lambda>cm. FilterRequiredConfigMaps (cmName (cfMetadata cm))) allConfigMaps)))"

section \<open>Filling the caches\<close>

text \<open>\<open>c.cache.xs[namespace] = &m\<close>\<close>

definition set_namespace :: "string \<Rightarrow> (string, 'v) gomap \<Rightarrow> ('v cache, unit) go" where
  "set_namespace namespace m = (\<lambda>c. case mput namespace m c of
     Ok c' \<Rightarrow> (Ok (), c') | Err e \<Rightarrow> (Err e, c) | Panic p \<Rightarrow> (Panic p, c))"

definition keyed :: "('v \<Rightarrow> string) \<Rightarrow> 'v list \<Rightarrow> (string, 'v) gomap" where
  "keyed k vs = GoMap (foldl (\<lambda>es v. AList.update (k v) v es) [] vs)"

text \<open>An error of the request is logged and the cache left alone.\<close>

definition initRoutesMapInCache :: "'x pm_env \<Rightarrow> pm_client \<Rightarrow> string \<Rightarrow> ('x pm_state, unit) go" where
  "initRoutesMapInCache env c namespace =
     gtry (getRoutesWithoutCache env c namespace) (\<lambda>r. case r of
       Inr routes \<Rightarrow> on_routes (set_namespace namespace (keyed CacheKey routes))
     | Inl err \<Rightarrow> gret ())"

definition InitServicesMapInCache :: "'x pm_env \<Rightarrow> pm_client \<Rightarrow> string \<Rightarrow> ('x pm_state, unit) go" where
  "InitServicesMapInCache env c namespace =
     gtry (getServicesWithoutCache env c namespace) (\<lambda>r. case r of
       Inr services \<Rightarrow> on_services (set_namespace namespace (keyed service_name services))
     | Inl err \<Rightarrow> gret ())"

definition initConfigMapsMapInCache :: "'x pm_env \<Rightarrow> pm_client \<Rightarrow> string \<Rightarrow> ('x pm_state, unit) go" where
  "initConfigMapsMapInCache env c namespace =
     gtry (getConfigMapsWithoutCache env c namespace) (\<lambda>r. case r of
       Inr configMaps \<Rightarrow>
         on_configmaps (set_namespace namespace (keyed (\<lambda>cm. cmName (cfMetadata cm)) configMaps))
     | Inl err \<Rightarrow> gret ())"

definition updateRoutesCache :: "'x pm_env \<Rightarrow> pm_client \<Rightarrow> route_update \<Rightarrow> ('x pm_state, unit) go" where
  "updateRoutesCache env c routeUpdate = (\<lambda>s.
     if psRoutes s \<noteq> NilMap \<and> ruType routeUpdate = updateTypeInit
     then initRoutesMapInCache env c (mNamespace (rtMetadata (ruObject routeUpdate))) s
     else on_routes (updateRoutesCache_event routeUpdate) s)"

definition updateServicesCache :: "'x pm_env \<Rightarrow> pm_client \<Rightarrow> service_update \<Rightarrow> ('x pm_state, unit) go" where
  "updateServicesCache env c serviceUpdate = (\<lambda>s.
     if psServices s \<noteq> NilMap \<and> suType serviceUpdate = updateTypeInit
     then InitServicesMapInCache env c (mNamespace (svMetadata (suObject serviceUpdate))) s
     else on_services (updateServicesCache_event serviceUpdate) s)"

definition updateConfigmapsCache :: "'x pm_env \<Rightarrow> pm_client \<Rightarrow> configmap_update \<Rightarrow> ('x pm_state, unit) go" where
  "updateConfigmapsCache env c configMapUpdate = (\<lambda>s.
     if psConfigmaps s \<noteq> NilMap \<and> cuType configMapUpdate = updateTypeInit
     then initConfigMapsMapInCache env c (cmNamespace (cfMetadata (cuObject configMapUpdate))) s
     else on_configmaps (updateConfigmapsCache_event configMapUpdate) s)"

text \<open>
  The constructor starts three goroutines and waits for all; they work on disjoint parts of the
  state, so they are run one after the other. A failure is a panic of the goroutine.
\<close>

definition or_panic :: "('s, 'a) go \<Rightarrow> ('s, 'a) go" where
  "or_panic m = gtry m (\<lambda>r. case r of Inl err \<Rightarrow> gpanic (err_message err) | Inr x \<Rightarrow> gret x)"

definition watch :: "'x pm_env \<Rightarrow> string \<Rightarrow> string \<Rightarrow> ('x pm_state, unit) go" where
  "watch env namespace resource = on_rest (gmodify (peWatch env namespace resource))"

definition createWebSocketClientsForRoutesInNamespace ::
  "'x pm_env \<Rightarrow> pm_client \<Rightarrow> string \<Rightarrow> ('x pm_state, unit) go" where
  "createWebSocketClientsForRoutesInNamespace env c namespace =
     gbind (watch env namespace routesString) (\<lambda>_.
     if pcEnableGateway c
     then gbind (watch env namespace httpRoutesString) (\<lambda>_. watch env namespace grpcRoutesString)
     else gret ())"

definition initRoutesCache :: "'x pm_env \<Rightarrow> pm_client \<Rightarrow> ('x pm_state, unit) go" where
  "initRoutesCache env c =
     gbind (or_panic (getRoutesWithoutCache env c (pcNamespace c))) (\<lambda>routes.
     gbind (createWebSocketClientsForRoutesInNamespace env c (pcNamespace c)) (\<lambda>_.
     gmodify (\<lambda>s. s\<lparr>psRoutes := GoMap [(pcNamespace c, keyed CacheKey routes)]\<rparr>)))"

definition initServicesCache :: "'x pm_env \<Rightarrow> pm_client \<Rightarrow> ('x pm_state, unit) go" where
  "initServicesCache env c =
     gbind (or_panic (getServicesWithoutCache env c (pcNamespace c))) (\<lambda>services.
     gbind (watch env (pcNamespace c) servicesString) (\<lambda>_.
     gmodify (\<lambda>s. s\<lparr>psServices := GoMap [(pcNamespace c, keyed service_name services)]\<rparr>)))"

definition initConfigMapsCache :: "'x pm_env \<Rightarrow> pm_client \<Rightarrow> ('x pm_state, unit) go" where
  "initConfigMapsCache env c =
     gbind (or_panic (getConfigMapsWithoutCache env c (pcNamespace c))) (\<lambda>configmaps.
     gbind (watch env (pcNamespace c) configmapsString) (\<lambda>_.
     gmodify (\<lambda>s. s\<lparr>psConfigmaps :=
       GoMap [(pcNamespace c, keyed (\<lambda>cm. cmName (cfMetadata cm)) configmaps)]\<rparr>)))"

definition initCompositeCache :: "'x pm_env \<Rightarrow> pm_client \<Rightarrow> ('x pm_state, unit) go" where
  "initCompositeCache env c =
     gbind (initRoutesCache env c) (\<lambda>_.
     gbind (initServicesCache env c) (\<lambda>_. initConfigMapsCache env c))"

section \<open>Reading the caches\<close>

text \<open>
  The loop that waits for an unknown namespace: a sleep, then a look at the cache, up to
  \<open>attemptsInit + 1\<close> times; \<open>n\<close> is \<open>attemptsInit - i\<close>.
\<close>

fun await_namespace ::
  "nat \<Rightarrow> 'x pm_env \<Rightarrow> ('x pm_state \<Rightarrow> 'v cache) \<Rightarrow> string \<Rightarrow> string \<Rightarrow>
     ('x pm_state, (string, 'v) gomap) go" where
  "await_namespace n env sel kind namespace =
     gbind (gmodify (peIdle env)) (\<lambda>_.
     gbind (gget (\<lambda>s. mlookup (sel s) namespace)) (\<lambda>localCache.
     case localCache of
       Some m \<Rightarrow> gret m
     | None \<Rightarrow> (case n of
         0 \<Rightarrow> gerr (PlainError (''Namespace '' @ namespace @ '' was not found in '' @ kind @
               '' cache after '' @ Itoa (int attemptsInit) @ '' attempts''))
       | Suc n' \<Rightarrow> await_namespace n' env sel kind namespace)))"

declare await_namespace.simps [simp del]

text \<open>What the three getters share: the cache, or wait for it; then its values in map order.\<close>

definition get_cached ::
  "'x pm_env \<Rightarrow> ('x pm_state, unit) go \<Rightarrow> ('x pm_state \<Rightarrow> 'v cache) \<Rightarrow> string \<Rightarrow> string \<Rightarrow>
     ('x pm_state, 'v list) go" where
  "get_cached env open_watch sel kind namespace =
     gbind (gget (\<lambda>s. mlookup (sel s) namespace)) (\<lambda>found.
     gbind (case found of
         Some m \<Rightarrow> gret m
       | None \<Rightarrow> gbind open_watch (\<lambda>_. await_namespace attemptsInit env sel kind namespace))
     (\<lambda>localCache. gret (map snd (ments localCache))))"

definition or_own_namespace :: "pm_client \<Rightarrow> string \<Rightarrow> string" where
  "or_own_namespace c namespace = (if namespace = [] then pcNamespace c else namespace)"

definition GetRoutes :: "'x pm_env \<Rightarrow> pm_client \<Rightarrow> string \<Rightarrow> ('x pm_state, route list) go" where
  "GetRoutes env c namespace0 =
     (let namespace = or_own_namespace c namespace0 in
      get_cached env (createWebSocketClientsForRoutesInNamespace env c namespace) psRoutes
        ''routes'' namespace)"

definition GetServices :: "'x pm_env \<Rightarrow> pm_client \<Rightarrow> string \<Rightarrow> ('x pm_state, service list) go" where
  "GetServices env c namespace0 =
     (let namespace = or_own_namespace c namespace0 in
      get_cached env (watch env namespace servicesString) psServices ''services'' namespace)"

definition GetConfigMaps :: "'x pm_env \<Rightarrow> pm_client \<Rightarrow> string \<Rightarrow> ('x pm_state, configmap list) go" where
  "GetConfigMaps env c namespace0 =
     (let namespace = or_own_namespace c namespace0 in
      get_cached env (watch env namespace configmapsString) psConfigmaps ''ConfigMaps'' namespace)"

definition GetAllRoutesFromCurrentNamespace :: "'x pm_env \<Rightarrow> pm_client \<Rightarrow> ('x pm_state, route list) go" where
  "GetAllRoutesFromCurrentNamespace env c = GetRoutes env c (pcNamespace c)"

definition GetRoutesByFilter ::
  "'x pm_env \<Rightarrow> pm_client \<Rightarrow> string \<Rightarrow> (route \<Rightarrow> bool) \<Rightarrow> ('x pm_state, route list) go" where
  "GetRoutesByFilter env c namespace p =
     gbind (GetRoutes env c namespace) (\<lambda>routes. gret (filter p routes))"

definition GetServices2 ::
  "'x pm_env \<Rightarrow> pm_client \<Rightarrow> string \<Rightarrow> (service \<Rightarrow> bool) \<Rightarrow> ('x pm_state, service list) go" where
  "GetServices2 env c namespace p =
     gbind (GetServices env c namespace) (\<lambda>services. gret (filter p services))"

definition GetConfigMaps2 ::
  "'x pm_env \<Rightarrow> pm_client \<Rightarrow> string \<Rightarrow> (configmap \<Rightarrow> bool) \<Rightarrow> ('x pm_state, configmap list) go" where
  "GetConfigMaps2 env c namespace p =
     gbind (GetConfigMaps env c namespace) (\<lambda>configmaps. gret (filter p configmaps))"

definition GetRoutesForNamespaces ::
  "'x pm_env \<Rightarrow> pm_client \<Rightarrow> string list \<Rightarrow> ('x pm_state, route list) go" where
  "GetRoutesForNamespaces env c namespaces =
     gfold namespaces [] (\<lambda>namespace result.
       gbind (GetRoutes env c namespace) (\<lambda>routes. gret (result @ routes)))"

definition GetRoutesForNamespaces2 ::
  "'x pm_env \<Rightarrow> pm_client \<Rightarrow> string list \<Rightarrow> (route \<Rightarrow> bool) \<Rightarrow> ('x pm_state, route list) go" where
  "GetRoutesForNamespaces2 env c namespaces p =
     gbind (GetRoutesForNamespaces env c namespaces) (\<lambda>routes. gret (filter p routes))"

definition GetServicesForNamespaces ::
  "'x pm_env \<Rightarrow> pm_client \<Rightarrow> string list \<Rightarrow> ('x pm_state, service list) go" where
  "GetServicesForNamespaces env c namespaces =
     gfold namespaces [] (\<lambda>namespace result.
       gbind (GetServices env c namespace) (\<lambda>services. gret (result @ services)))"

definition GetServicesForNamespaces2 ::
  "'x pm_env \<Rightarrow> pm_client \<Rightarrow> string list \<Rightarrow> (service \<Rightarrow> bool) \<Rightarrow> ('x pm_state, service list) go" where
  "GetServicesForNamespaces2 env c namespaces p =
     gbind (GetServicesForNamespaces env c namespaces) (\<lambda>services. gret (filter p services))"

section \<open>Changing routes and services\<close>

text \<open>
  The address of the request, or the error 400. The functions that take a pointer and decode the
  response into it return the object as the call leaves it.
\<close>

definition url_or_400 :: "go_error + string \<Rightarrow> ('s, string) go" where
  "url_or_400 r = (case r of Inl err \<Rightarrow> gerr (ErrorWrapper 400 (err_message err)) | Inr url \<Rightarrow> gret url)"

definition routeHostToLowerCase :: "route \<Rightarrow> route" where
  "routeHostToLowerCase r = r\<lparr>rtSpec := (rtSpec r)\<lparr>rsHost := ToLower (rsHost (rtSpec r))\<rparr>\<rparr>"

definition DeleteRoute :: "'x pm_env \<Rightarrow> pm_client \<Rightarrow> route \<Rightarrow> ('x pm_state, unit) go" where
  "DeleteRoute env c rt =
     (let namespace = mNamespace (rtMetadata rt); name = route_name rt in
      gbind (url_or_400 (buildUrl c namespace routesString name)) (\<lambda>url.
      gbind (performRequest env url ''DELETE'' NoBody 200 (peAny env) ()) (\<lambda>_.
      updateRoutesCache env c \<lparr>ruType = updateTypeDeleted, ruObject = rt\<rparr>)))"

definition CreateRoute :: "'x pm_env \<Rightarrow> pm_client \<Rightarrow> route \<Rightarrow> string \<Rightarrow> ('x pm_state, route) go" where
  "CreateRoute env c rt0 namespace =
     gbind (url_or_400 (buildUrl c namespace routesString [])) (\<lambda>url.
     let rt = routeHostToLowerCase rt0 in
     gbind (performRequest env url ''POST'' (RouteBody rt) 201 (\<lambda>b. peIntoRoute env b rt) rt) (\<lambda>rt'.
     gbind (updateRoutesCache env c \<lparr>ruType = updateTypeCreated, ruObject = rt'\<rparr>) (\<lambda>_. gret rt')))"

definition UpdateOrCreateRoute :: "'x pm_env \<Rightarrow> pm_client \<Rightarrow> route \<Rightarrow> string \<Rightarrow> ('x pm_state, route) go" where
  "UpdateOrCreateRoute env c rt0 namespace =
     gbind (url_or_400 (buildUrl c namespace routesString [])) (\<lambda>url.
     let rt = routeHostToLowerCase rt0 in
     gbind (performRequest env url ''PUT'' (RouteBody rt) 200 (\<lambda>b. peIntoRoute env b rt) rt) (\<lambda>rt'.
     gbind (updateRoutesCache env c \<lparr>ruType = updateTypeModified, ruObject = rt'\<rparr>) (\<lambda>_. gret rt')))"

definition CreateService :: "'x pm_env \<Rightarrow> pm_client \<Rightarrow> service \<Rightarrow> string \<Rightarrow> ('x pm_state, service) go" where
  "CreateService env c sv namespace =
     gbind (url_or_400 (buildUrl c namespace servicesString [])) (\<lambda>url.
     gbind (performRequest env url ''POST'' (ServiceBody sv) 201 (\<lambda>b. peIntoService env b sv) sv) (\<lambda>sv'.
     gbind (updateServicesCache env c \<lparr>suType = updateTypeCreated, suObject = sv'\<rparr>) (\<lambda>_. gret sv')))"

definition UpdateOrCreateService ::
  "'x pm_env \<Rightarrow> pm_client \<Rightarrow> service \<Rightarrow> string \<Rightarrow> ('x pm_state, service) go" where
  "UpdateOrCreateService env c sv namespace =
     gbind (url_or_400 (buildUrl c namespace servicesString [])) (\<lambda>url.
     gbind (performRequest env url ''PUT'' (ServiceBody sv) 200 (\<lambda>b. peIntoService env b sv) sv) (\<lambda>sv'.
     gbind (updateServicesCache env c \<lparr>suType = updateTypeModified, suObject = sv'\<rparr>) (\<lambda>_. gret sv')))"

definition zero_service_spec :: service_spec where
  "zero_service_spec = \<lparr>ssPorts = [], ssSelector = NilMap, ssClusterIP = [], ssType = []\<rparr>"

definition DeleteService :: "'x pm_env \<Rightarrow> pm_client \<Rightarrow> string \<Rightarrow> string \<Rightarrow> ('x pm_state, unit) go" where
  "DeleteService env c name namespace =
     gbind (url_or_400 (buildUrl c namespace servicesString name)) (\<lambda>url.
     gbind (performRequest env url ''DELETE'' NoBody 200 (peAny env) ()) (\<lambda>_.
     updateServicesCache env c \<lparr>suType = updateTypeDeleted, suObject =
       \<lparr>svMetadata = zero_metadata\<lparr>mName := name, mNamespace := namespace\<rparr>,
        svSpec = zero_service_spec\<rparr>\<rparr>))"

end
