(* ===== verification/PaasClientLemmas.thy ===== *)
theory PaasClientLemmas
  imports PaasClient
begin

text \<open>
  What the platform mediation client guarantees: requests do not touch the caches, retried requests
  never report an error, a change of a route or service is in the cache exactly if the server
  accepted it, a getter returns exactly what is cached, waiting a bounded time for an unknown
  namespace, and the keys of native and gateway routes never collide.
\<close>

section \<open>Requests and the caches\<close>

lemma on_rest_caches [simp]:
  "psRoutes (snd (on_rest m s)) = psRoutes s" "psServices (snd (on_rest m s)) = psServices s"
  "psConfigmaps (snd (on_rest m s)) = psConfigmaps s"
  by (simp_all add: on_rest_def gzoom_def split: prod.split)

definition same_caches :: "'x pm_state \<Rightarrow> 'x pm_state \<Rightarrow> bool" where
  "same_caches s t \<longleftrightarrow> psRoutes t = psRoutes s \<and> psServices t = psServices s \<and>
     psConfigmaps t = psConfigmaps s"

lemma same_caches_refl [simp]: "same_caches s s"
  by (simp add: same_caches_def)

lemma same_caches_trans: "same_caches s t \<Longrightarrow> same_caches t u \<Longrightarrow> same_caches s u"
  by (simp add: same_caches_def)

lemma performRequest_keeps: "keeps (same_caches s0) (performRequest env url verb body code dec target)"
  unfolding performRequest_def
  by (intro keeps_gtry) (auto intro!: keepsI simp: same_caches_def go_simps split: sum.split)

lemma performRequest_caches:
  "performRequest env url verb body code dec target s = (r, t) \<Longrightarrow> same_caches s t"
  using keepsD [OF performRequest_keeps, of s s env url verb body code dec target] by simp

lemma retry_no_error: "fst (retry_loop n env request target s) \<noteq> Err e"
  by (induction n arbitrary: s)
    (auto simp: go_simps split: prod.split result.split)

lemma retry_all_fail:
  assumes "\<And>s. \<exists>e t. request s = (Err e, t)"
  shows "fst (retry_loop n env request target s) = Ok target"
proof (induction n arbitrary: s)
  case (Suc n)
  obtain e t where "request s = (Err e, t)" using assms by blast
  with Suc show ?case by (simp add: go_simps)
qed (simp add: go_simps)

lemma retry_down_target:
  assumes "\<forall>x. \<exists>e y. peDo env url verb body x = (Err e, y)"
  shows "fst (performRequestWithRetry env url verb body code dec target s) = Ok target"
proof -
  have "\<exists>e t. performRequest env url verb body code dec target s = (Err e, t)" for s
    using assms [rule_format, of "psRest s"] by (auto simp: performRequest_def on_rest_def go_simps)
  then show ?thesis unfolding performRequestWithRetry_def by (rule retry_all_fail)
qed

text \<open>
  C30: A retried request never returns an error. When the server cannot be reached in any attempt the
  target comes back as it was, with no error, so that the caller takes an empty list for the answer.
\<close>

theorem retry_hides_errors:
  "(\<forall>e. fst (performRequestWithRetry env url verb body code dec target s) \<noteq> Err e) \<and>
   ((\<forall>x. \<exists>e y. peDo env url verb body x = (Err e, y)) \<longrightarrow>
      fst (performRequestWithRetry env url verb body code dec target s) = Ok target)"
  using retry_down_target unfolding performRequestWithRetry_def by (metis retry_no_error)

text \<open>An environment whose server is down, for the witnesses.\<close>

definition env_down :: "unit pm_env" where
  "env_down = \<lparr>peDo = (\<lambda>url verb body x. (Err (PlainError ''timeout''), x)), peIdle = id,
     peWatch = (\<lambda>n k x. x), peRoutes = (\<lambda>b. Eof), peServices = (\<lambda>b. Eof), peConfigmaps = (\<lambda>b. Eof),
     peHttpRoutes = (\<lambda>b. Eof), peGrpcRoutes = (\<lambda>b. Eof), peIntoRoute = (\<lambda>b r. Eof),
     peIntoService = (\<lambda>b s. Eof), peAny = (\<lambda>b. Eof)\<rparr>"

text \<open>One whose server answers every request with the given status and an empty body.\<close>

definition env_status :: "int \<Rightarrow> unit pm_env" where
  "env_status code = env_down\<lparr>peDo := (\<lambda>url verb body x. (Ok \<lparr>hrStatusCode = code, hrBody = []\<rparr>, x))\<rparr>"

definition sample_client :: pm_client where
  "sample_client = \<lparr>pcInternalGatewayAddress = ''http://gw:8080'', pcNamespace = ''ns'',
     pcEnableGateway = False\<rparr>"

definition sample_state :: "unit pm_state" where
  "sample_state = \<lparr>psRoutes = GoMap [(''ns'', GoMap [(''Route/r'', ruObject (sample_event [] ''a.com''))])],
     psServices = GoMap [(''ns'', GoMap [])], psConfigmaps = GoMap [(''ns'', GoMap [])], psRest = ()\<rparr>"

lemma retry_hides_errors_witness:
  "fst (performRequestWithRetry env_down ''u'' ''GET'' NoBody 200 (peRoutes env_down) [] sample_state) = Ok []"
  using retry_hides_errors [of env_down "''u''" "''GET''" NoBody 200 "peRoutes env_down" "[]" sample_state]
  by (simp add: env_down_def)

section \<open>Initialising a namespace\<close>

lemma cached_keyed:
  "mlookup (keyed k vs) x = map_of (rev (map (\<lambda>v. (k v, v)) vs)) x"
proof -
  have "map_of (foldl (\<lambda>es v. AList.update (k v) v es) es0 vs) x =
      (case map_of (rev (map (\<lambda>v. (k v, v)) vs)) x of Some v \<Rightarrow> Some v | None \<Rightarrow> map_of es0 x)" for es0
    by (induction vs arbitrary: es0) (auto simp: map_of_append map_add_def split: option.splits)
  from this [of "[]"] show ?thesis by (simp add: keyed_def split: option.split)
qed

lemma set_namespace_run:
  "c \<noteq> NilMap \<Longrightarrow> set_namespace n m c = (Ok (), GoMap (AList.update n m (ments c)))"
  by (cases c) (simp_all add: set_namespace_def)

lemma retry_keeps_down:
  assumes "peIdle env = id" and "\<And>x. \<exists>e y. peDo env url verb body x = (Err e, y)"
  shows "\<exists>t. performRequestWithRetry env url verb body code dec target s = (Ok target, t) \<and> same_caches s t"
proof -
  have "same_caches s (snd (retry_loop n env (performRequest env url verb body code dec target) target s))"
    for n
  proof -
    have "keeps (same_caches s) (retry_loop n env (performRequest env url verb body code dec target) target)"
      using assms(1)
      by (induction n) (auto intro!: go_keeps keeps_gmodify performRequest_keeps)
    then show ?thesis by (rule keepsD) simp
  qed
  moreover have "fst (performRequestWithRetry env url verb body code dec target s) = Ok target"
    by (rule retry_down_target) (use assms(2) in blast)
  ultimately show ?thesis
    unfolding performRequestWithRetry_def by (metis prod.collapse)
qed

text \<open>
  An INIT event for a namespace makes the services cache hold, under each name, the last service
  of the server's answer with that name, and a server that cannot be reached is the same as one that
  answers with no service: the namespace is known and empty afterwards.
\<close>

theorem init_services_cache:
  assumes "psServices s \<noteq> NilMap" and "namespace \<noteq> []"
    and "performRequestWithRetry env (pcInternalGatewayAddress c @ ''/api/v2/paas-mediation/namespaces/'' @
        namespace @ ''/services'') ''GET'' NoBody 200 (peServices env) [] s = (Ok answer, t)"
    and "psServices t = psServices s"
  shows "\<exists>u. InitServicesMapInCache env c namespace s = (Ok (), u) \<and> known (psServices u) namespace \<and>
    (\<forall>n k. cached (psServices u) n k = (if n = namespace
       then map_of (rev (map (\<lambda>v. (service_name v, v)) answer)) k else cached (psServices s) n k))"
proof -
  have url: "buildUrl c namespace servicesString [] = Inr (pcInternalGatewayAddress c @
      ''/api/v2/paas-mediation/namespaces/'' @ namespace @ ''/services'')"
    using assms(2) by (simp add: buildUrl_def servicesString_def)
  let ?m = "keyed service_name answer"
  have "InitServicesMapInCache env c namespace s =
      (Ok (), t\<lparr>psServices := GoMap (AList.update namespace ?m (ments (psServices s)))\<rparr>)"
    unfolding InitServicesMapInCache_def getServicesWithoutCache_def url from_sum_def
    using assms set_namespace_run [of "psServices t" namespace ?m]
    by (simp add: go_simps on_services_def)
  moreover have "\<exists>es. ?m = GoMap es" by (simp add: keyed_def)
  ultimately show ?thesis
    by (auto simp: cached_def known_def cached_keyed)
qed

lemma init_services_cache_witness:
  "\<exists>u. InitServicesMapInCache env_down sample_client ''new'' sample_state = (Ok (), u) \<and>
     known (psServices u) ''new'' \<and> cached (psServices u) ''new'' ''x'' = None"
proof -
  obtain t where run: "performRequestWithRetry env_down (pcInternalGatewayAddress sample_client @
      ''/api/v2/paas-mediation/namespaces/'' @ ''new'' @ ''/services'') ''GET'' NoBody 200
        (peServices env_down) [] sample_state = (Ok [], t)" and same: "same_caches sample_state t"
    using retry_keeps_down [of env_down] by (fastforce simp: env_down_def)
  have "psServices sample_state \<noteq> NilMap" by (simp add: sample_state_def)
  from init_services_cache [OF this _ run] same show ?thesis
    by (auto simp: same_caches_def)
qed

section \<open>Changing routes\<close>

lemma updateRoutesCache_run:
  assumes "ruType u \<noteq> updateTypeInit" and "known (psRoutes s) (mNamespace (rtMetadata (ruObject u)))"
  shows "fst (updateRoutesCache env c u s) = Ok ()"
    and "cached (psRoutes (snd (updateRoutesCache env c u s))) n k =
      (if n = mNamespace (rtMetadata (ruObject u)) \<and> k = CacheKey (ruObject u)
       then event_effect (ruType u) (ruObject u) (cached (psRoutes s) n k) else cached (psRoutes s) n k)"
  using routes.step_ok [OF assms(2)] routes.step_cached [OF assms(2), of n k] assms(1)
  by (simp_all add: updateRoutesCache_def on_routes_def gzoom_fst gzoom_snd)

lemma update_types_differ [simp]:
  "updateTypeCreated \<noteq> updateTypeInit" "updateTypeModified \<noteq> updateTypeInit"
  "updateTypeDeleted \<noteq> updateTypeInit" "stores updateTypeCreated" "stores updateTypeModified"
  "\<not> stores updateTypeDeleted"
  by (simp_all add: stores_def update_type_defs)

lemma url_or_400_run:
  "url_or_400 r s = (case r of Inl err \<Rightarrow> (Err (ErrorWrapper 400 (err_message err)), s) | Inr url \<Rightarrow> (Ok url, s))"
  by (simp add: url_or_400_def go_simps split: sum.split)

text \<open>
  When the creation of a route succeeds, the route the server returned is in the cache of its
  namespace and nothing else of the routes cache has changed; when it fails with an error, of the
  address, the network, the status or the body, the caches are as they were.
\<close>

theorem create_route_cached:
  assumes "CreateRoute env c rt namespace s = (r, s')"
  shows "case r of
      Ok rt' \<Rightarrow> (known (psRoutes s) (mNamespace (rtMetadata rt')) \<longrightarrow>
        (\<forall>n k. cached (psRoutes s') n k =
          (if n = mNamespace (rtMetadata rt') \<and> k = CacheKey rt' then Some rt' else cached (psRoutes s) n k)))
    | Err e \<Rightarrow> same_caches s s'
    | Panic p \<Rightarrow> True"
proof -
  let ?rt = "routeHostToLowerCase rt"
  obtain q t where url: "url_or_400 (buildUrl c namespace routesString []) s = (q, t)"
    by (cases "url_or_400 (buildUrl c namespace routesString []) s")
  then have t: "t = s" by (auto simp: url_or_400_run split: sum.splits)
  show ?thesis
  proof (cases q)
    case (Ok u)
    obtain w t2 where req: "performRequest env u ''POST'' (RouteBody ?rt) 201
        (\<lambda>b. peIntoRoute env b ?rt) ?rt s = (w, t2)"
      by (cases "performRequest env u ''POST'' (RouteBody ?rt) 201 (\<lambda>b. peIntoRoute env b ?rt) ?rt s")
    note same = performRequest_caches [OF req]
    show ?thesis
    proof (cases w)
      case w: (Ok rt')
      let ?ev = "\<lparr>ruType = updateTypeCreated, ruObject = rt'\<rparr>"
      obtain v t3 where upd: "updateRoutesCache env c ?ev t2 = (v, t3)"
        by (cases "updateRoutesCache env c ?ev t2")
      have "(r, s') = (case v of Ok _ \<Rightarrow> (Ok rt', t3) | Err e \<Rightarrow> (Err e, t3) | Panic p \<Rightarrow> (Panic p, t3))"
        using assms url t Ok req w upd by (cases v) (simp_all add: CreateRoute_def go_simps Let_def)
      moreover have "v \<noteq> Err e" for e
        using upd by (auto simp: updateRoutesCache_def on_routes_def gzoom_def updateRoutesCache_event_def
            Let_def cache_put_def split: prod.splits if_splits option.splits gomap.splits)
      ultimately show ?thesis
        using updateRoutesCache_run [of ?ev t2 env c] upd same
        by (cases v) (auto simp: same_caches_def event_effect_def)
    qed (use assms url t Ok req same in \<open>auto simp: CreateRoute_def go_simps Let_def\<close>)
  qed (use assms url t in \<open>auto simp: CreateRoute_def go_simps Let_def\<close>)
qed

definition sample_route :: "string \<Rightarrow> string \<Rightarrow> route" where
  "sample_route name host = \<lparr>rtMetadata = zero_metadata\<lparr>mName := name, mNamespace := ''ns''\<rparr>,
     rtSpec = \<lparr>rsHost = host, rsPath = [], rsService = \<lparr>tgtName = ''s''\<rparr>,
       rsPort = \<lparr>rpTargetPort = 0\<rparr>\<rparr>\<rparr>"

lemma create_route_cached_witness:
  "cached (psRoutes (snd (CreateRoute (env_status 201) sample_client (sample_route ''q'' ''X.Com'') ''ns''
     sample_state))) ''ns'' ''Route/q'' = Some (sample_route ''q'' ''x.com'')"
proof -
  let ?m = "CreateRoute (env_status 201) sample_client (sample_route ''q'' ''X.Com'') ''ns'' sample_state"
  have low: "ToLower ''X.Com'' = ''x.com''" by code_simp
  obtain r s' where run: "?m = (r, s')" by (cases ?m)
  then have r: "r = Ok (sample_route ''q'' ''x.com'')"
    by (auto simp: CreateRoute_def go_simps Let_def buildUrl_def routesString_def url_or_400_def
        performRequest_def on_rest_def env_status_def env_down_def decodeResponseBody_def
        updateRoutesCache_def on_routes_def updateRoutesCache_event_def cache_put_def
        sample_state_def sample_route_def sample_event_def zero_metadata_def
        routeHostToLowerCase_def low update_type_defs stores_def)
  have "known (psRoutes sample_state) ''ns''" by (simp add: sample_state_def known_def)
  with create_route_cached [OF run] r run show ?thesis
    by (simp add: sample_route_def zero_metadata_def CacheKey_def RouteKindNative_def)
qed

text \<open>
  When the deletion of a route succeeds the route is no longer in the cache of its namespace and
  nothing else of the cache has changed; when it fails with an error the caches are as they were.
\<close>

theorem delete_route_cached:
  assumes "DeleteRoute env c rt s = (r, s')"
  shows "case r of
      Ok _ \<Rightarrow> (known (psRoutes s) (mNamespace (rtMetadata rt)) \<longrightarrow>
        (\<forall>n k. cached (psRoutes s') n k =
          (if n = mNamespace (rtMetadata rt) \<and> k = CacheKey rt then None else cached (psRoutes s) n k)))
    | Err e \<Rightarrow> same_caches s s'
    | Panic p \<Rightarrow> True"
proof -
  let ?url = "url_or_400 (buildUrl c (mNamespace (rtMetadata rt)) routesString (route_name rt))"
  let ?ev = "\<lparr>ruType = updateTypeDeleted, ruObject = rt\<rparr>"
  obtain q t where url: "?url s = (q, t)" by (cases "?url s")
  then have t: "t = s" by (auto simp: url_or_400_run split: sum.splits)
  show ?thesis
  proof (cases q)
    case (Ok u)
    let ?req = "performRequest env u ''DELETE'' NoBody 200 (peAny env) ()"
    obtain w t2 where req: "?req s = (w, t2)" by (cases "?req s")
    note same = performRequest_caches [OF req]
    show ?thesis
    proof (cases w)
      case w: (Ok x)
      have run: "updateRoutesCache env c ?ev t2 = (r, s')"
        using assms url t Ok req w by (simp add: DeleteRoute_def go_simps Let_def)
      then have "r \<noteq> Err e" for e
        by (auto simp: updateRoutesCache_def on_routes_def gzoom_def updateRoutesCache_event_def
            Let_def cache_delete_def cache_put_def split: prod.splits if_splits option.splits gomap.splits)
      with updateRoutesCache_run [of ?ev t2 env c] run same show ?thesis
        by (cases r) (auto simp: same_caches_def event_effect_def)
    qed (use assms url t Ok req same in \<open>auto simp: DeleteRoute_def go_simps Let_def\<close>)
  qed (use assms url t in \<open>auto simp: DeleteRoute_def go_simps Let_def\<close>)
qed

lemma delete_route_cached_witness:
  "cached (psRoutes (snd (DeleteRoute (env_status 200) sample_client (sample_route ''r'' ''a.com'')
     sample_state))) ''ns'' ''Route/r'' = None"
proof -
  let ?m = "DeleteRoute (env_status 200) sample_client (sample_route ''r'' ''a.com'') sample_state"
  obtain r s' where run: "?m = (r, s')" by (cases ?m)
  then have r: "r = Ok ()"
    by (auto simp: DeleteRoute_def go_simps Let_def buildUrl_def routesString_def url_or_400_def
        performRequest_def on_rest_def env_status_def env_down_def decodeResponseBody_def
        updateRoutesCache_def on_routes_def updateRoutesCache_event_def cache_delete_def
        sample_state_def sample_route_def sample_event_def zero_metadata_def update_type_defs stores_def)
  have "known (psRoutes sample_state) ''ns''" by (simp add: sample_state_def known_def)
  with delete_route_cached [OF run] r run show ?thesis
    by (simp add: sample_route_def zero_metadata_def CacheKey_def RouteKindNative_def)
qed

section \<open>Reading the caches\<close>

lemma await_found:
  assumes "\<And>j. j < k \<Longrightarrow> mlookup (sel ((peIdle env ^^ Suc j) s)) namespace = None"
    and "mlookup (sel ((peIdle env ^^ Suc k) s)) namespace = Some m" and "k \<le> n"
  shows "await_namespace n env sel kind namespace s = (Ok m, (peIdle env ^^ Suc k) s)"
  using assms
proof (induction k arbitrary: n s)
  case 0
  then show ?case by (subst await_namespace.simps) (simp add: go_simps)
next
  case (Suc k)
  then obtain n' where n: "n = Suc n'" "k \<le> n'" by (cases n) auto
  have shift: "(peIdle env ^^ Suc j) (peIdle env s) = (peIdle env ^^ Suc (Suc j)) s" for j
    by (simp only: funpow_Suc_right comp_apply)
  have "await_namespace n' env sel kind namespace (peIdle env s) =
      (Ok m, (peIdle env ^^ Suc k) (peIdle env s))"
    using Suc.prems n by (intro Suc.IH) (simp_all only: shift Suc_less_eq)
  moreover have "mlookup (sel (peIdle env s)) namespace = None"
    using Suc.prems(1) [of 0] by simp
  ultimately show ?case
    using n by (subst await_namespace.simps) (simp add: go_simps shift [simplified])
qed

lemma await_never:
  assumes "\<And>j. j \<le> n \<Longrightarrow> mlookup (sel ((peIdle env ^^ Suc j) s)) namespace = None"
  shows "\<exists>e. await_namespace n env sel kind namespace s = (Err e, (peIdle env ^^ Suc n) s)"
  using assms
proof (induction n arbitrary: s)
  case 0
  then show ?case using 0 [of 0] by (subst await_namespace.simps) (simp add: go_simps)
next
  case (Suc n)
  have shift: "(peIdle env ^^ Suc j) (peIdle env s) = (peIdle env ^^ Suc (Suc j)) s" for j
    by (simp only: funpow_Suc_right comp_apply)
  have "mlookup (sel (peIdle env s)) namespace = None" using Suc.prems [of 0] by simp
  moreover have "mlookup (sel ((peIdle env ^^ Suc j) (peIdle env s))) namespace = None" if "j \<le> n" for j
    using Suc.prems [of "Suc j"] that by (simp only: shift Suc_le_mono)
  ultimately show ?case
    using Suc.IH [of "peIdle env s"]
    by (subst await_namespace.simps) (simp add: go_simps shift [simplified])
qed

lemma get_cached_known:
  "mlookup (sel s) namespace = Some m \<Longrightarrow>
     get_cached env w sel kind namespace s = (Ok (map snd (ments m)), s)"
  by (simp add: get_cached_def go_simps)

text \<open>
  For a namespace the routes cache knows, \<open>GetRoutes\<close> returns exactly the cached routes and
  changes nothing; an empty name stands for the client's own namespace. For several known
  namespaces, and with a filter, the answers are concatenated and filtered.
\<close>

theorem get_routes_cached:
  assumes "\<And>n. n \<in> set ns \<Longrightarrow> mlookup (psRoutes s) (or_own_namespace c n) = Some (m n)"
  shows "GetRoutesForNamespaces2 env c ns p s =
      (Ok (filter p (concat (map (\<lambda>n. map snd (ments (m n))) ns))), s) \<and>
    (\<forall>n \<in> set ns. GetRoutes env c n s = (Ok (map snd (ments (m n))), s) \<and>
      GetRoutesByFilter env c n p s = (Ok (filter p (map snd (ments (m n)))), s))"
proof -
  have one: "GetRoutes env c n s = (Ok (map snd (ments (m n))), s)" if "n \<in> set ns" for n
    using get_cached_known [of psRoutes s] assms [OF that] by (simp add: GetRoutes_def Let_def)
  have "gfold ks acc (\<lambda>namespace result. gbind (GetRoutes env c namespace) (\<lambda>routes. gret (result @ routes))) s =
      (Ok (acc @ concat (map (\<lambda>n. map snd (ments (m n))) ks)), s)" if "set ks \<subseteq> set ns" for ks acc
    using that one by (induction ks arbitrary: acc) (auto simp: go_simps)
  from this [of ns "[]"] one show ?thesis
    by (simp add: GetRoutesForNamespaces2_def GetRoutesForNamespaces_def GetRoutesByFilter_def go_simps)
qed

lemma get_routes_cached_witness:
  "GetRoutesForNamespaces2 env_down sample_client [[], ''ns''] (\<lambda>r. True) sample_state =
     (Ok [ruObject (sample_event [] ''a.com''), ruObject (sample_event [] ''a.com'')], sample_state)"
proof -
  have "mlookup (psRoutes sample_state) (or_own_namespace sample_client n) =
      Some (GoMap [(''Route/r'', ruObject (sample_event [] ''a.com''))])" if "n \<in> set [[], ''ns'']" for n
    using that by (auto simp: sample_state_def or_own_namespace_def sample_client_def)
  from get_routes_cached [OF this, of "[[], ''ns'']" env_down "\<lambda>r. True"] show ?thesis by simp
qed

text \<open>
  For a namespace the services cache does not know, \<open>GetServices\<close> opens a watch channel and
  looks at the cache after each of at most six sleeps: it returns what the cache holds after the
  first sleep that makes the namespace known, and an error if none of the six does.
\<close>

theorem get_services_waits:
  assumes "namespace \<noteq> []" and "mlookup (psServices s) namespace = None"
    and "s1 = s\<lparr>psRest := peWatch env namespace servicesString (psRest s)\<rparr>"
    and "\<And>j. j < k \<Longrightarrow> mlookup (psServices ((peIdle env ^^ Suc j) s1)) namespace = None"
  shows "(k \<le> 5 \<longrightarrow> mlookup (psServices ((peIdle env ^^ Suc k) s1)) namespace = Some m \<longrightarrow>
      GetServices env c namespace s = (Ok (map snd (ments m)), (peIdle env ^^ Suc k) s1)) \<and>
    (6 \<le> k \<longrightarrow> (\<exists>e. GetServices env c namespace s = (Err e, (peIdle env ^^ 6) s1)))"
proof -
  have w: "watch env namespace servicesString s = (Ok (), s1)"
    using assms(3) by (simp add: watch_def on_rest_def go_simps)
  have run: "GetServices env c namespace s =
      (case await_namespace 5 env psServices ''services'' namespace s1 of
        (Ok m, t) \<Rightarrow> (Ok (map snd (ments m)), t) | (Err e, t) \<Rightarrow> (Err e, t) | (Panic p, t) \<Rightarrow> (Panic p, t))"
    using assms(1,2) w
    by (simp add: GetServices_def or_own_namespace_def get_cached_def attemptsInit_def go_simps
        split: prod.split result.split)
  have found: "GetServices env c namespace s = (Ok (map snd (ments m)), (peIdle env ^^ Suc k) s1)"
    if "k \<le> 5" "mlookup (psServices ((peIdle env ^^ Suc k) s1)) namespace = Some m"
    using await_found [of k psServices env s1 namespace m 5, OF assms(4) that(2,1)] by (simp add: run)
  have never: "\<exists>e. GetServices env c namespace s = (Err e, (peIdle env ^^ 6) s1)" if "6 \<le> k"
  proof -
    have "mlookup (psServices ((peIdle env ^^ Suc j) s1)) namespace = None" if "j \<le> 5" for j
      using assms(4) [of j] that \<open>6 \<le> k\<close> by simp
    from await_never [of 5 psServices env s1 namespace "''services''", OF this] obtain e where
      "await_namespace 5 env psServices ''services'' namespace s1 = (Err e, (peIdle env ^^ Suc 5) s1)"
      by blast
    moreover have "Suc 5 = 6" by simp
    ultimately show ?thesis unfolding run by (metis prod.case result.case(2))
  qed
  from found never show ?thesis by blast
qed

lemma get_services_waits_witness:
  "\<exists>e. GetServices env_down sample_client ''other'' sample_state = (Err e, sample_state)"
proof -
  have idle: "(peIdle env_down ^^ j) sample_state = sample_state" for j
    by (induction j) (simp_all add: env_down_def)
  have "sample_state = sample_state\<lparr>psRest := peWatch env_down ''other'' servicesString (psRest sample_state)\<rparr>"
    by (simp add: env_down_def)
  moreover have "mlookup (psServices sample_state) ''other'' = None"
    by (simp add: sample_state_def)
  ultimately have "6 \<le> (6 :: nat) \<longrightarrow> (\<exists>e. GetServices env_down sample_client ''other'' sample_state =
      (Err e, (peIdle env_down ^^ 6) sample_state))"
    using get_services_waits [of "''other''" sample_state sample_state env_down 6 undefined sample_client] idle
    by (simp only: list.distinct simp_thms)
  then show ?thesis by (simp add: idle)
qed

section \<open>Keys of native and gateway routes\<close>

text \<open>
  The routes converted from HTTP and gRPC routes never share a cache key with each other or with
  a native route, so that no kind overwrites another in the cache.
\<close>

theorem gateway_keys_disjoint:
  assumes "mKind (rtMetadata n) \<in> {[], RouteKindNative}"
  shows "CacheKey n \<notin> CacheKey ` set (convertHTTPRoutes hs) \<and>
    CacheKey n \<notin> CacheKey ` set (convertGRPCRoutes gs) \<and>
    CacheKey ` set (convertHTTPRoutes hs) \<inter> CacheKey ` set (convertGRPCRoutes gs) = {}"
proof -
  have key: "HasPrefix (CacheKey r) (mKind (rtMetadata r) @ ''/'')" if "mKind (rtMetadata r) \<noteq> []" for r
    using that HasPrefix_append [of "mKind (rtMetadata r) @ ''/''" "route_name r"] by (simp add: CacheKey_def)
  have h: "HasPrefix (CacheKey r) ''HTTPRoute/''" if "r \<in> set (convertHTTPRoutes hs)" for r
  proof -
    have "mKind (rtMetadata r) = RouteKindHTTP"
      using that by (auto simp: convertHTTPRoutes_def buildDomainRouteFromGateway_def Let_def)
    with key [of r] show ?thesis by (simp add: RouteKindHTTP_def)
  qed
  have g: "HasPrefix (CacheKey r) ''GRPCRoute/''" if "r \<in> set (convertGRPCRoutes gs)" for r
  proof -
    have "mKind (rtMetadata r) = RouteKindGRPC"
      using that by (auto simp: convertGRPCRoutes_def buildDomainRouteFromGateway_def Let_def)
    with key [of r] show ?thesis by (simp add: RouteKindGRPC_def)
  qed
  have n: "HasPrefix (CacheKey n) ''Route/''"
    using assms by (auto simp: CacheKey_def RouteKindNative_def)
  have neq: "x \<noteq> y" if "HasPrefix x p" "HasPrefix y q" "hd p \<noteq> hd q" "p \<noteq> []" "q \<noteq> []" for x y p q :: string
    using that by (cases x; cases p; cases q) auto
  have "CacheKey n \<noteq> CacheKey r" if "r \<in> set (convertHTTPRoutes hs)" for r
    using neq [OF n h [OF that]] by simp
  moreover have "CacheKey n \<noteq> CacheKey r" if "r \<in> set (convertGRPCRoutes gs)" for r
    using neq [OF n g [OF that]] by simp
  moreover have "CacheKey r \<noteq> CacheKey q"
    if "r \<in> set (convertHTTPRoutes hs)" "q \<in> set (convertGRPCRoutes gs)" for r q
    using neq [OF h [OF that(1)] g [OF that(2)]] by simp
  ultimately show ?thesis by auto
qed

lemma gateway_keys_disjoint_witness:
  "CacheKey (sample_route ''r'' ''a.com'') \<notin> CacheKey ` set (convertHTTPRoutes
     [\<lparr>htMetadata = zero_metadata\<lparr>mName := ''r''\<rparr>, htHostnames = [], htRules = [\<lparr>hrlMatches = [None],
       hrlBackendRefs = [\<lparr>gbName = ''b'', gbPort = None\<rparr>]\<rparr>]\<rparr>])"
  using gateway_keys_disjoint [of "sample_route ''r'' ''a.com''"]
  by (simp add: sample_route_def zero_metadata_def)

end
