(* ===== verification/SyncBasics.thy ===== *)
theory SyncBasics
  imports Dao PaasClientLemmas
begin

text \<open>
  The functions of \<open>synchronizer/synchronizer.go\<close> that compute on routes, tenants and namespaces
  without effects: the predicates on routes, the search for hosts, the choice of one route per
  service, the hosts of the realms and the chain of composite namespaces.
\<close>

section \<open>Predicates on routes and objects\<close>

definition IsVirtual :: "metadata \<Rightarrow> bool" where
  "IsVirtual m \<longleftrightarrow> mlookup (mAnnotations m) ann_type = Some ''virtual''"

definition RouteIsGeneral :: "route \<Rightarrow> bool" where
  "RouteIsGeneral r \<longleftrightarrow> mlookup (route_annotations r) ann_tenant_id = Some GENERAL"

definition RouteHasTenantId :: "string \<Rightarrow> route \<Rightarrow> bool" where
  "RouteHasTenantId tenantId r \<longleftrightarrow> mlookup (route_annotations r) ann_tenant_id = Some tenantId"

definition IsRouteManageable :: "route \<Rightarrow> bool" where
  "IsRouteManageable r \<longleftrightarrow>
     (case mlookup (route_annotations r) ann_tenant_id of Some v \<Rightarrow> v \<noteq> GENERAL | None \<Rightarrow> False)"

section \<open>Searching hosts\<close>

definition hostBelongsToRoutes :: "string \<Rightarrow> route list \<Rightarrow> bool" where
  "hostBelongsToRoutes host routes \<longleftrightarrow> list_ex (\<lambda>r. ToLower (route_host r) = host) routes"

definition hostBelongsToActiveTenant :: "string \<Rightarrow> tenant_dns list \<Rightarrow> bool" where
  "hostBelongsToActiveTenant host allSettings \<longleftrightarrow>
     list_ex (\<lambda>tenantSites. tActive tenantSites \<and>
       list_ex (\<lambda>a. ToLower (Host a) = ToLower host) (all_addresses tenantSites)) allSettings"

text \<open>A route of another service with the host counts as present as well.\<close>

definition isHostPresentInOpenshiftRoutes :: "address \<Rightarrow> string \<Rightarrow> route list \<Rightarrow> bool" where
  "isHostPresentInOpenshiftRoutes host service routes \<longleftrightarrow> list_ex (\<lambda>r. route_host r = Host host) routes"

definition extractSiteByHost :: "sites \<Rightarrow> string \<Rightarrow> string" where
  "extractSiteByHost sites url =
     (let foundSites = map fst (filter (\<lambda>(site, services).
            list_ex (\<lambda>(service, addressList). list_ex (\<lambda>a. Host a = url) addressList) (ments services))
            (ments sites))
      in if default_site \<in> set foundSites then default_site
         else (case foundSites of foundSite # _ \<Rightarrow> foundSite | [] \<Rightarrow> []))"

definition checkIfServiceExists :: "string \<Rightarrow> tenant_dns \<Rightarrow> string \<times> bool" where
  "checkIfServiceExists serviceName tenant =
     (case filter (\<lambda>(site, services). mlookup services serviceName \<noteq> None) (ments (tSites tenant)) of
        (site, _) # _ \<Rightarrow> (site, True)
      | [] \<Rightarrow> ([], False))"

section \<open>Namespaces\<close>

definition appendElemIfNotExists :: "string list \<Rightarrow> string \<Rightarrow> string list" where
  "appendElemIfNotExists elems elem = (if elem \<in> set elems then elems else elems @ [elem])"

definition getAllNamespacesFromTenants :: "string \<Rightarrow> tenant_dns list \<Rightarrow> string list" where
  "getAllNamespacesFromTenants ownNamespace tenants =
     appendElemIfNotExists (foldl (\<lambda>acc tenant. foldl (\<lambda>acc namespace.
       if namespace \<noteq> [] then appendElemIfNotExists acc namespace else acc)
       acc (tNamespaces tenant)) [] tenants) ownNamespace"

text \<open>
  \<open>CompositeNamespace\<close> is a chain of namespaces, from the parent to its child; the pointer to the
  child is nil at the end of the chain.
\<close>

datatype composite_namespace = CompositeNamespace "composite_namespace option" string

text \<open>
  One look through the map of config maps: in its order, an empty parent is an error, the first
  namespace whose parent is the given one is the child.
\<close>

datatype child_search = NoParent | Child string | NoChild

fun search_child :: "string \<Rightarrow> (string \<times> configmap) list \<Rightarrow> child_search" where
  "search_child parentNamespace [] = NoChild"
| "search_child parentNamespace ((namespace, cm) # rest) =
     (let parent = cmParent (cfData cm) in
      if parent = [] then NoParent
      else if parent = parentNamespace then Child namespace
      else search_child parentNamespace rest)"

lemma search_child_in: "search_child p cms = Child n \<Longrightarrow> n \<in> fst ` set cms"
  by (induction cms) (auto simp: Let_def split: if_splits)

lemma length_delete_less: "k \<in> fst ` set es \<Longrightarrow> length (AList.delete k es) < length es"
  by (auto simp: AList.delete_eq intro: length_filter_less)

function resolveChildForNamespace ::
  "string \<Rightarrow> (string \<times> configmap) list \<Rightarrow> go_error + composite_namespace" where
  "resolveChildForNamespace parentNamespace configmaps =
     (case search_child parentNamespace configmaps of
        NoParent \<Rightarrow> Inl (PlainError ''Parent was not found in configmap'')
      | NoChild \<Rightarrow> Inl (PlainError (''Cannot build hierarchy for namespaces. No child for '' @
          [CHR 0x27] @ parentNamespace @ [CHR 0x27] @ '' namespace''))
      | Child namespace \<Rightarrow>
          let rest = AList.delete namespace configmaps in
          if rest \<noteq> [] then
            (case resolveChildForNamespace namespace rest of
               Inl err \<Rightarrow> Inl err
             | Inr child \<Rightarrow> Inr (CompositeNamespace (Some child) namespace))
          else Inr (CompositeNamespace None namespace))"
  by pat_completeness auto
termination
  by (relation "measure (\<lambda>(p, cms). length cms)") (auto dest: search_child_in intro: length_delete_less)

declare resolveChildForNamespace.simps [simp del]

section \<open>One route per service\<close>

text \<open>
  The routes of a service id by falling priority. \<open>sort.Slice\<close> leaves the order of routes of equal
  priority open; here it is the order of the list.
\<close>

definition buildSortedMapFromRoutes :: "route list \<Rightarrow> (string \<times> route list) list" where
  "buildSortedMapFromRoutes routes =
     map (\<lambda>(serviceId, rs). (serviceId, sort_key (\<lambda>r. - GetPriority r) rs))
       (foldl (\<lambda>m r. let serviceId = GetServiceId r (route_service r) in
          AList.update serviceId ((case map_of m serviceId of Some rs \<Rightarrow> rs | None \<Rightarrow> []) @ [r]) m)
        [] routes)"

definition filterRoutes :: "route list \<Rightarrow> route list" where
  "filterRoutes routes = map (\<lambda>(serviceId, sortedRoutes). hd sortedRoutes) (buildSortedMapFromRoutes routes)"

section \<open>Hosts of the realms\<close>

definition add_realm_host ::
  "string list \<times> (string \<times> string list) list \<Rightarrow> route \<Rightarrow> string list \<times> (string \<times> string list) list" where
  "add_realm_host = (\<lambda>(commonRoutes, tenantRoutes) r.
     let tenantObjectId = GetTenantId r; host = route_host r in
     if tenantObjectId = [] \<or> tenantObjectId = GENERAL then (commonRoutes @ [host], tenantRoutes)
     else (commonRoutes, AList.update tenantObjectId
       ((case map_of tenantRoutes tenantObjectId of Some hosts \<Rightarrow> hosts | None \<Rightarrow> []) @ [host])
       tenantRoutes))"

definition getTenantRoutesFromOpenshiftRoutes ::
  "route list \<Rightarrow> string list \<times> (string \<times> string list) list" where
  "getTenantRoutesFromOpenshiftRoutes routes = foldl add_realm_host ([], []) routes"

section \<open>Facts\<close>

lemma RouteIsGeneral_not_manageable: "RouteIsGeneral r \<Longrightarrow> \<not> IsRouteManageable r"
  by (simp add: RouteIsGeneral_def IsRouteManageable_def)

lemma set_appendElem [simp]: "set (appendElemIfNotExists xs x) = insert x (set xs)"
  by (auto simp: appendElemIfNotExists_def)

lemma distinct_appendElem [simp]: "distinct xs \<Longrightarrow> distinct (appendElemIfNotExists xs x)"
  by (simp add: appendElemIfNotExists_def)

lemma namespaces_inner:
  "set (foldl (\<lambda>acc n. if n \<noteq> [] then appendElemIfNotExists acc n else acc) acc ns) =
     set acc \<union> {n \<in> set ns. n \<noteq> []}"
  "distinct acc \<Longrightarrow> distinct (foldl (\<lambda>acc n. if n \<noteq> [] then appendElemIfNotExists acc n else acc) acc ns)"
  by (induction ns arbitrary: acc) auto

text \<open>
  The namespaces a pass looks at are the client's own one and the non-empty ones of the tenants,
  each of them once.
\<close>

theorem namespaces_of_tenants:
  "set (getAllNamespacesFromTenants own ts) =
     insert own {n. n \<noteq> [] \<and> n \<in> set (concat (map tNamespaces ts))} \<and>
   distinct (getAllNamespacesFromTenants own ts)"
proof -
  let ?f = "foldl (\<lambda>acc tenant. foldl (\<lambda>acc n. if n \<noteq> [] then appendElemIfNotExists acc n else acc)
    acc (tNamespaces tenant))"
  have "set (?f acc ts) = set acc \<union> {n. n \<noteq> [] \<and> n \<in> set (concat (map tNamespaces ts))}" for acc
    by (induction ts arbitrary: acc) (auto simp: namespaces_inner)
  moreover have "distinct acc \<Longrightarrow> distinct (?f acc ts)" for acc
    by (induction ts arbitrary: acc) (auto simp: namespaces_inner)
  ultimately show ?thesis by (auto simp: getAllNamespacesFromTenants_def)
qed

section \<open>The chain of composite namespaces\<close>

fun chain :: "composite_namespace \<Rightarrow> string list" where
  "chain (CompositeNamespace None n) = [n]"
| "chain (CompositeNamespace (Some c) n) = n # chain c"

text \<open>Every namespace of the chain has the one before it as its parent.\<close>

fun linked :: "(string \<times> configmap) list \<Rightarrow> string \<Rightarrow> string list \<Rightarrow> bool" where
  "linked cms p [] \<longleftrightarrow> True"
| "linked cms p (n # ns) \<longleftrightarrow>
     (\<exists>cm. (n, cm) \<in> set cms \<and> cmParent (cfData cm) = p) \<and> linked cms n ns"

lemma search_child_parent:
  "search_child p cms = Child n \<Longrightarrow> \<exists>cm. (n, cm) \<in> set cms \<and> cmParent (cfData cm) = p"
  by (induction cms) (auto simp: Let_def split: if_splits)

lemma linked_mono: "linked cms p ns \<Longrightarrow> set cms \<subseteq> set cms' \<Longrightarrow> linked cms' p ns"
  by (induction ns arbitrary: p) (simp, fastforce)

lemma chain_properties:
  "resolveChildForNamespace p cms = Inr c \<Longrightarrow> distinct (map fst cms) \<Longrightarrow>
     set (chain c) = fst ` set cms \<and> distinct (chain c) \<and> linked cms p (chain c)"
proof (induction p cms arbitrary: c rule: resolveChildForNamespace.induct)
  case (1 p cms)
  from "1.prems"(1) obtain n where n: "search_child p cms = Child n"
    by (subst (asm) resolveChildForNamespace.simps) (auto split: child_search.splits)
  let ?rest = "AList.delete n cms"
  obtain cm where cm: "(n, cm) \<in> set cms" "cmParent (cfData cm) = p"
    using search_child_parent [OF n] by blast
  have keys: "fst ` set ?rest = fst ` set cms - {n}" by (auto simp: AList.delete_eq)
  have n_in: "n \<in> fst ` set cms" using cm by force
  show ?case
  proof (cases "?rest = []")
    case True
    with "1.prems"(1) n have "c = CompositeNamespace None n"
      by (subst (asm) resolveChildForNamespace.simps) simp
    moreover have "fst ` set cms = {n}" using keys n_in True by auto
    ultimately show ?thesis using cm by auto
  next
    case False
    with "1.prems"(1) n obtain child where child: "resolveChildForNamespace n ?rest = Inr child"
      and c: "c = CompositeNamespace (Some child) n"
      by (subst (asm) resolveChildForNamespace.simps) (auto simp: Let_def split: sum.splits)
    have "distinct (map fst ?rest)" using "1.prems"(2) by (rule distinct_delete)
    with "1.IH" [OF n refl False child] have IH: "set (chain child) = fst ` set ?rest"
      "distinct (chain child)" "linked ?rest n (chain child)" by simp_all
    have "linked cms n (chain child)" using IH(3) set_delete_subset by (rule linked_mono)
    with IH c cm keys n_in show ?thesis by auto
  qed
qed

text \<open>
  When the hierarchy of composite namespaces can be built from the config maps of the namespaces,
  it is a chain that holds each of these namespaces exactly once, and each of them names the one
  before it in the chain as its parent, the first one the master namespace.
\<close>

theorem composite_chain:
  assumes "resolveChildForNamespace master cms = Inr c" and "distinct (map fst cms)"
  shows "mset (chain c) = mset (map fst cms) \<and> linked cms master (chain c)"
proof
  show "mset (chain c) = mset (map fst cms)"
    using chain_properties [OF assms] assms(2) by (intro set_eq_iff_mset_eq_distinct [THEN iffD1]) simp_all
qed (use chain_properties [OF assms] in simp)

definition sample_cm :: "string \<Rightarrow> configmap" where
  "sample_cm parent = \<lparr>cfMetadata = \<lparr>cmName = ProjectTypeConfigMapName, cmNamespace = []\<rparr>,
     cfData = \<lparr>cmParent = parent, cmExternalRoutes = []\<rparr>\<rparr>"

lemma composite_chain_witness:
  "\<exists>c. resolveChildForNamespace ''m'' [(''b'', sample_cm ''a''), (''a'', sample_cm ''m'')] = Inr c \<and>
     mset (chain c) = {#''a'', ''b''#} \<and> linked [(''b'', sample_cm ''a''), (''a'', sample_cm ''m'')] ''m'' (chain c)"
proof -
  have run: "resolveChildForNamespace ''m'' [(''b'', sample_cm ''a''), (''a'', sample_cm ''m'')] =
      Inr (CompositeNamespace (Some (CompositeNamespace None ''b'')) ''a'')"
    by (subst resolveChildForNamespace.simps, simp add: sample_cm_def,
        subst resolveChildForNamespace.simps, simp add: sample_cm_def)
  from composite_chain [OF run] run show ?thesis by (simp add: add_mset_commute)
qed

section \<open>The routes that are shown\<close>

definition service_id :: "route \<Rightarrow> string" where
  "service_id r = GetServiceId r (route_service r)"

lemma sorted_map_fold:
  "map_of (foldl (\<lambda>m r. let serviceId = GetServiceId r (route_service r) in
       AList.update serviceId ((case map_of m serviceId of Some rs \<Rightarrow> rs | None \<Rightarrow> []) @ [r]) m) m0 rs) k =
     (case map_of m0 k of
        Some old \<Rightarrow> Some (old @ filter (\<lambda>r. service_id r = k) rs)
      | None \<Rightarrow> some_list (filter (\<lambda>r. service_id r = k) rs))"
  by (induction rs arbitrary: m0) (auto simp: Let_def service_id_def some_list_def split: option.splits)

lemma sorted_map_distinct:
  "distinct (map fst m0) \<Longrightarrow> distinct (map fst (foldl (\<lambda>m r. let serviceId = GetServiceId r (route_service r) in
       AList.update serviceId ((case map_of m serviceId of Some rs \<Rightarrow> rs | None \<Rightarrow> []) @ [r]) m) m0 rs))"
  by (induction rs arbitrary: m0) (auto simp: Let_def distinct_update simp del: map_map)

lemma hd_sort_key_max: "rs \<noteq> [] \<Longrightarrow> hd (sort_key k rs) \<in> set rs \<and> (\<forall>r \<in> set rs. k (hd (sort_key k rs)) \<le> k r)"
proof -
  assume ne: "rs \<noteq> []"
  obtain x xs where s: "sort_key k rs = x # xs"
    using ne by (metis length_0_conv length_sort neq_Nil_conv)
  have set: "set (sort_key k rs) = set rs" by simp
  have "sorted (map k (sort_key k rs))" by simp
  with s set show ?thesis by (auto simp: s)
qed

text \<open>
  \<open>filterRoutes\<close> keeps exactly one route for every service id of the routes, one of them whose
  priority no other route of that id exceeds.
\<close>

theorem filter_routes_one_per_service:
  "distinct (map service_id (filterRoutes rs)) \<and> service_id ` set (filterRoutes rs) = service_id ` set rs \<and>
   list_all (\<lambda>r. r \<in> set rs \<and> (\<forall>q. q \<in> set rs \<and> service_id q = service_id r \<longrightarrow>
     GetPriority q \<le> GetPriority r)) (filterRoutes rs)"
proof -
  define m where "m = foldl (\<lambda>m r. let serviceId = GetServiceId r (route_service r) in
       AList.update serviceId ((case map_of m serviceId of Some rs \<Rightarrow> rs | None \<Rightarrow> []) @ [r]) m) [] rs"
  let ?hd = "\<lambda>qs. hd (sort_key (\<lambda>r. - GetPriority r) qs)"
  have d: "distinct (map fst m)" unfolding m_def by (rule sorted_map_distinct) simp
  have look: "map_of m k = some_list (filter (\<lambda>r. service_id r = k) rs)" for k
    using sorted_map_fold [of "[]" rs k] by (simp add: m_def)
  have entry: "qs = filter (\<lambda>r. service_id r = k) rs \<and> qs \<noteq> []" if "(k, qs) \<in> set m" for k qs
    using that look [of k] d by (auto simp: some_list_def split: if_splits)
  have f: "filterRoutes rs = map (\<lambda>(k, qs). ?hd qs) m"
    by (simp add: filterRoutes_def buildSortedMapFromRoutes_def m_def [symmetric] case_prod_beta comp_def)
  have best: "?hd qs \<in> set rs \<and> service_id (?hd qs) = k \<and>
      (\<forall>q. q \<in> set rs \<and> service_id q = k \<longrightarrow> GetPriority q \<le> GetPriority (?hd qs))"
    if "(k, qs) \<in> set m" for k qs
    using entry [OF that] hd_sort_key_max [of qs "\<lambda>r. - GetPriority r"] by auto
  have ids: "map service_id (filterRoutes rs) = map fst m"
    using best by (auto simp: f)
  have keys: "set (map fst m) = service_id ` set rs"
  proof -
    have "k \<in> set (map fst m) \<longleftrightarrow> k \<in> service_id ` set rs" for k
    proof -
      have "k \<in> set (map fst m) \<longleftrightarrow> map_of m k \<noteq> None" by (simp add: map_of_eq_None_iff)
      also have "\<dots> \<longleftrightarrow> k \<in> service_id ` set rs"
        by (auto simp: look some_list_def filter_empty_conv split: if_splits)
      finally show ?thesis .
    qed
    then show ?thesis by blast
  qed
  have "service_id ` set (filterRoutes rs) = service_id ` set rs"
    using arg_cong [OF ids, of set] keys by simp
  moreover have "distinct (map service_id (filterRoutes rs))" unfolding ids by (rule d)
  moreover have "list_all (\<lambda>r. r \<in> set rs \<and> (\<forall>q. q \<in> set rs \<and> service_id q = service_id r \<longrightarrow>
     GetPriority q \<le> GetPriority r)) (filterRoutes rs)"
    using best by (auto simp: f list_all_iff)
  ultimately show ?thesis by blast
qed

section \<open>The hosts of the realms\<close>

definition is_common :: "route \<Rightarrow> bool" where
  "is_common r \<longleftrightarrow> GetTenantId r = [] \<or> GetTenantId r = GENERAL"

lemma add_realm_host_step:
  "add_realm_host p r = (if is_common r then (fst p @ [route_host r], snd p)
     else (fst p, AList.update (GetTenantId r)
       ((case map_of (snd p) (GetTenantId r) of Some hosts \<Rightarrow> hosts | None \<Rightarrow> []) @ [route_host r]) (snd p)))"
  by (simp add: add_realm_host_def is_common_def Let_def case_prod_beta)

lemma realm_hosts_fold:
  "fst (foldl add_realm_host p rs) = fst p @ map route_host (filter is_common rs)"
  "map_of (snd (foldl add_realm_host p rs)) T = (case map_of (snd p) T of
      Some hs \<Rightarrow> Some (hs @ map route_host (filter (\<lambda>r. \<not> is_common r \<and> GetTenantId r = T) rs))
    | None \<Rightarrow> some_list (map route_host (filter (\<lambda>r. \<not> is_common r \<and> GetTenantId r = T) rs)))"
  by (induction rs arbitrary: p)
    (auto simp: add_realm_host_step some_list_def split: option.split)

text \<open>
  The routes of a namespace are divided into common hosts, those of routes with no tenant or of
  the general ones, and the hosts of each tenant, in the order of the routes; no route is lost.
\<close>

theorem realm_hosts:
  assumes "getTenantRoutesFromOpenshiftRoutes rs = (common, tenants)"
  shows "common = map route_host (filter is_common rs) \<and>
    map_of tenants T = some_list (map route_host (filter (\<lambda>r. \<not> is_common r \<and> GetTenantId r = T) rs)) \<and>
    (r \<in> set rs \<longrightarrow> route_host r \<in> set common \<or>
      (\<exists>hs. map_of tenants (GetTenantId r) = Some hs \<and> route_host r \<in> set hs))"
proof -
  note fold = realm_hosts_fold [of "([], [])" rs, folded getTenantRoutesFromOpenshiftRoutes_def, unfolded assms]
  have common: "common = map route_host (filter is_common rs)" using fold(1) by simp
  have look: "map_of tenants T = some_list (map route_host (filter (\<lambda>r. \<not> is_common r \<and> GetTenantId r = T) rs))"
    for T using fold(2) [of T] by simp
  have "route_host r \<in> set common \<or> (\<exists>hs. map_of tenants (GetTenantId r) = Some hs \<and> route_host r \<in> set hs)"
    if "r \<in> set rs"
  proof (cases "is_common r")
    case True
    with that show ?thesis by (simp add: common)
  next
    case False
    with that look [of "GetTenantId r"] show ?thesis by (auto simp: some_list_def filter_empty_conv)
  qed
  with common look show ?thesis by simp
qed

definition tagged_route :: "string \<Rightarrow> string \<Rightarrow> route" where
  "tagged_route tenant host = (sample_route ''r'' host)\<lparr>rtMetadata := zero_metadata\<lparr>
     mName := ''r'', mNamespace := ''ns'', mAnnotations := GoMap [(ann_tenant_id, tenant)]\<rparr>\<rparr>"

lemma realm_hosts_witness:
  "map_of (snd (getTenantRoutesFromOpenshiftRoutes
     [tagged_route GENERAL ''g.com'', tagged_route ''t'' ''a.com'', tagged_route ''t'' ''b.com''])) ''t'' =
   Some [''a.com'', ''b.com'']"
proof -
  let ?rs = "[tagged_route GENERAL ''g.com'', tagged_route ''t'' ''a.com'', tagged_route ''t'' ''b.com'']"
  obtain c m where run: "getTenantRoutesFromOpenshiftRoutes ?rs = (c, m)" by fastforce
  from realm_hosts [OF run, of "''t''"] run show ?thesis
    by (simp add: tagged_route_def sample_route_def zero_metadata_def is_common_def GetTenantId_def
        annotation_or_def GENERAL_def some_list_def)
qed

lemma filter_routes_one_per_service_witness:
  "length (filterRoutes [tagged_route ''t'' ''a.com'', tagged_route ''t'' ''b.com'']) = 1"
proof -
  let ?rs = "[tagged_route ''t'' ''a.com'', tagged_route ''t'' ''b.com'']"
  have "service_id (tagged_route x y) = route_service (tagged_route x y)" for x y
    by (simp add: tagged_route_def sample_route_def service_id_def GetServiceId_def annotation_or_def
        ann_id_def ann_tenant_id_def)
  then have ids: "service_id ` set ?rs = {route_service (tagged_route ''t'' ''a.com'')}"
    by (simp add: tagged_route_def sample_route_def)
  let ?out = "filterRoutes ?rs"
  note kept = filter_routes_one_per_service [of ?rs]
  have "length ?out = card (set (map service_id ?out))"
    using distinct_card [OF kept [THEN conjunct1]] by simp
  also have "set (map service_id ?out) = service_id ` set ?rs"
    using kept [THEN conjunct2, THEN conjunct1] by simp
  finally have "length ?out = card (service_id ` set ?rs)" .
  then show ?thesis unfolding ids by simp
qed

section \<open>The site of a host\<close>

lemma site_found:
  "site \<in> set (map fst (filter (\<lambda>(site, services). list_ex (\<lambda>(service, addressList).
       list_ex (\<lambda>a. Host a = url) addressList) (ments services)) (ments sites))) \<longleftrightarrow>
     (\<exists>services service as a. (site, services) \<in> set (ments sites) \<and>
        (service, as) \<in> set (ments services) \<and> a \<in> set as \<and> Host a = url)"
  by (force simp: list_ex_iff)

text \<open>
  The site found for a host is the site \<open>default\<close> if one of its addresses has this host, otherwise
  some site with such an address, and the empty string exactly if there is none.
\<close>

theorem site_by_host:
  assumes "\<And>site. site \<in> set (mkeys sites) \<Longrightarrow> site \<noteq> []"
  shows "let found = (\<lambda>site. \<exists>services service as a. (site, services) \<in> set (ments sites) \<and>
        (service, as) \<in> set (ments services) \<and> a \<in> set as \<and> Host a = url)
    in (found default_site \<longrightarrow> extractSiteByHost sites url = default_site) \<and>
       (extractSiteByHost sites url \<noteq> [] \<longrightarrow> found (extractSiteByHost sites url)) \<and>
       (extractSiteByHost sites url = [] \<longleftrightarrow> (\<forall>site. \<not> found site))"
proof -
  let ?fs = "map fst (filter (\<lambda>(site, services). list_ex (\<lambda>(service, addressList).
       list_ex (\<lambda>a. Host a = url) addressList) (ments services)) (ments sites))"
  have e: "extractSiteByHost sites url = (if default_site \<in> set ?fs then default_site
      else (case ?fs of f # _ \<Rightarrow> f | [] \<Rightarrow> []))"
    by (simp only: extractSiteByHost_def Let_def)
  have ne: "site \<noteq> []" if "site \<in> set ?fs" for site
    using that by (intro assms) auto
  have d: "default_site \<noteq> []" by (simp add: default_site_def)
  have main: "(default_site \<in> set fs \<longrightarrow> e = default_site) \<and> (e \<noteq> [] \<longrightarrow> e \<in> set fs) \<and>
      (e = [] \<longleftrightarrow> (\<forall>site. site \<notin> set fs))"
    if "e = (if default_site \<in> set fs then default_site else (case fs of f # _ \<Rightarrow> f | [] \<Rightarrow> []))"
      "\<And>site. site \<in> set fs \<Longrightarrow> site \<noteq> []" for e :: string and fs
  proof (cases fs)
    case Nil
    with that(1) show ?thesis by simp
  next
    case (Cons f fs')
    then have "f \<noteq> []" by (intro that(2)) simp
    moreover have "e = (if default_site \<in> set fs then default_site else f)" "f \<in> set fs"
      using that(1) Cons by simp_all
    ultimately show ?thesis using d by (metis (full_types))
  qed
  show ?thesis unfolding Let_def site_found [symmetric] by (rule main [OF e ne])
qed

lemma site_by_host_witness:
  "extractSiteByHost (tSites sample_tenant) ''c.com'' = ''default''"
proof -
  have "\<exists>services service as a. (default_site, services) \<in> set (ments (tSites sample_tenant)) \<and>
      (service, as) \<in> set (ments services) \<and> a \<in> set as \<and> Host a = ''c.com''"
    by (intro exI [of _ "GoMap [(''shop'', [Address ''http://a.com/x'', Address ''b.com'']),
            (''bank'', [Address ''https://c.com'', Address ''a.com''])]"] exI [of _ "''bank''"]
          exI [of _ "[Address ''https://c.com'', Address ''a.com'']"] exI [of _ "Address ''https://c.com''"])
      (simp add: sample_tenant_def default_site_def sample_hosts)
  moreover have names: "site \<noteq> []" if "site \<in> set (mkeys (tSites sample_tenant))" for site
    using that by (simp add: sample_tenant_def)
  note site_by_host [where url = "''c.com''", OF names, unfolded Let_def, THEN conjunct1]
  ultimately have "extractSiteByHost (tSites sample_tenant) ''c.com'' = default_site" by blast
  then show ?thesis by (simp add: default_site_def)
qed

end
