(* ===== verification/HttpClient.thy ===== *)
theory HttpClient
  imports PaasClient
begin

text \<open>
  \<open>utils/client_utils.go\<close> and \<open>http/rest/client.go\<close>: requests with a machine-to-machine token and the
  retry of failed ones. The sender that obtains the token and calls back (a second time after a 401),
  the HTTP library, the propagation of context headers, the configuration and sleeping are the
  parameter \<open>http_env\<close>; the locale \<open>m2m_sender\<close> states what the code relies on of the sender.
\<close>

section \<open>Environment\<close>

record http_request =
  rqMethod :: string
  rqURI :: string
  rqBody :: string
  rqHeaders :: "(string \<times> string) list"

text \<open>
  \<open>heSend\<close> runs the callback on the outside world and on the variable \<open>response\<close> that the callback
  captures. \<open>heConfig\<close> is \<open>configloader.GetOrDefaultString\<close>, a duration is 64 bits of nanoseconds.
\<close>

record 'x http_env =
  heConfig :: "string \<Rightarrow> string \<Rightarrow> string"
  heSleep :: "64 word \<Rightarrow> 'x \<Rightarrow> 'x"
  heSend :: "string \<Rightarrow> (string \<Rightarrow> ('x \<times> http_response option, int) go) \<Rightarrow>
     ('x \<times> http_response option, unit) go"
  heContext :: "http_request \<Rightarrow> ('x, http_request) go"
  heDo :: "http_request \<Rightarrow> ('x, http_response) go"

section \<open>Requests\<close>

definition constructRequest ::
  "'x http_env \<Rightarrow> string \<Rightarrow> string \<Rightarrow> string \<Rightarrow> string \<Rightarrow> ('x, http_request) go" where
  "constructRequest env verb url data m2mToken = heContext env
     \<lparr>rqMethod = verb, rqURI = url, rqBody = data, rqHeaders =
        [(''Authorization'', ''Bearer '' @ m2mToken), (''Content-Type'', ''application/json'')]\<rparr>"

definition doRequestWithToken ::
  "'x http_env \<Rightarrow> string \<Rightarrow> string \<Rightarrow> string \<Rightarrow> string \<Rightarrow> ('x, http_response) go" where
  "doRequestWithToken env verb url data token =
     gbind (constructRequest env verb url data token) (\<lambda>req.
     gbind (heDo env req) (\<lambda>response.
     if 500 \<le> hrStatusCode response
     then gerr (PlainError (''Secure '' @ verb @ '' request to '' @ url @
       '' failed with 5xx http status code: '' @ Itoa (hrStatusCode response) @ '', and body: '' @
       hrBody response))
     else gret response))"

text \<open>The callback of \<open>DoRequest\<close>: it assigns \<open>response\<close>, nil when the request fails.\<close>

definition send_callback ::
  "'x http_env \<Rightarrow> string \<Rightarrow> string \<Rightarrow> string \<Rightarrow> string \<Rightarrow> ('x \<times> http_response option, int) go" where
  "send_callback env verb url data token = (\<lambda>(x, response).
     case doRequestWithToken env verb url data token x of
       (Ok r, x') \<Rightarrow> (Ok (hrStatusCode r), (x', Some r))
     | (Err e, x') \<Rightarrow> (Err e, (x', None))
     | (Panic p, x') \<Rightarrow> (Panic p, (x', response)))"

definition DoRequest ::
  "'x http_env \<Rightarrow> string \<Rightarrow> string \<Rightarrow> string \<Rightarrow> ('x, http_response option) go" where
  "DoRequest env verb url data = (\<lambda>x.
     case heSend env url (send_callback env verb url data) (x, None) of
       (Ok _, (x', response)) \<Rightarrow> (Ok response, x')
     | (Err e, (x', _)) \<Rightarrow> (Err e, x')
     | (Panic p, (x', _)) \<Rightarrow> (Panic p, x'))"

text \<open>The loop of \<open>DoRetryRequest\<close>: \<open>n\<close> attempts are left, \<open>i\<close> have been made.\<close>

fun retry_request ::
  "nat \<Rightarrow> nat \<Rightarrow> 'x http_env \<Rightarrow> 64 word \<Rightarrow> string \<Rightarrow> string \<Rightarrow> string \<Rightarrow> string \<Rightarrow>
     ('x, http_response option) go" where
  "retry_request 0 i env delay verb url data errMsg = gerr (PlainError errMsg)"
| "retry_request (Suc n) i env delay verb url data errMsg =
     gbind (if 0 < i then gmodify (heSleep env (delay * of_nat (i * i))) else gret ()) (\<lambda>_.
     gtry (DoRequest env verb url data) (\<lambda>r. case r of
       Inl err \<Rightarrow> retry_request n (Suc i) env delay verb url data
         (''Retrying request '' @ verb @ '' '' @ url @ '' after error: '' @ err_message err)
     | Inr response \<Rightarrow> gret response))"

definition retry_limit :: "'x http_env \<Rightarrow> int" where
  "retry_limit env = fst (Atoi (heConfig env ''http.client.retry.maxAttempts'' ''5''))"

definition retry_delay :: "'x http_env \<Rightarrow> 64 word" where
  "retry_delay env =
     word_of_int (fst (Atoi (heConfig env ''http.client.retry.attemptDelay'' ''2000''))) * 1000000"

definition DoRetryRequest ::
  "'x http_env \<Rightarrow> string \<Rightarrow> string \<Rightarrow> string \<Rightarrow> ('x, http_response option) go" where
  "DoRetryRequest env verb url data =
     retry_request (nat (retry_limit env)) 0 env (retry_delay env) verb url data []"

text \<open>\<open>SimpleClient.SendRequest\<close>, which wraps the error with its stack.\<close>

definition SendRequest ::
  "'x http_env \<Rightarrow> string \<Rightarrow> string \<Rightarrow> string \<Rightarrow> ('x, http_response option) go" where
  "SendRequest env url verb body = gtry (DoRequest env verb url body) (\<lambda>r. case r of
     Inl err \<Rightarrow> gerr (PlainError (err_message err)) | Inr resp \<Rightarrow> gret resp)"

text \<open>A method call on the response, which panics on nil.\<close>

definition response_of :: "http_response option \<Rightarrow> ('x, http_response) go" where
  "response_of resp = (case resp of Some r \<Rightarrow> gret r
     | None \<Rightarrow> gpanic ''invalid memory address or nil pointer dereference'')"

section \<open>What the code relies on\<close>

text \<open>
  The sender returns nil only if its last call of the callback has returned without an error, and
  leaves what that call wrote. Nothing is said of how often it calls.
\<close>

locale m2m_sender =
  fixes env :: "'x http_env"
  assumes send_Ok: "heSend env url f s = (Ok (), s') \<Longrightarrow> \<exists>token s0 code. f token s0 = (Ok code, s')"
begin

lemma DoRequest_response:
  assumes "DoRequest env verb url data x = (Ok resp, x')"
  shows "\<exists>r. resp = Some r \<and> hrStatusCode r < 500"
proof -
  from assms have "heSend env url (send_callback env verb url data) (x, None) = (Ok (), (x', resp))"
    by (auto simp: DoRequest_def split: prod.splits result.splits)
  from send_Ok [OF this] obtain token s0 code
    where "send_callback env verb url data token s0 = (Ok code, (x', resp))" by blast
  then show ?thesis
    by (auto simp: send_callback_def doRequestWithToken_def go_simps
        split: prod.splits result.splits if_splits)
qed

lemma retry_request_response:
  "retry_request n i env delay verb url data msg x = (Ok resp, x') \<Longrightarrow>
     \<exists>r. resp = Some r \<and> hrStatusCode r < 500"
  by (induction n arbitrary: i msg x)
    (auto simp: go_simps split: prod.splits result.splits if_splits dest: DoRequest_response)

lemma SendRequest_response:
  "SendRequest env url verb data x = (Ok resp, x') \<Longrightarrow> \<exists>r. resp = Some r \<and> hrStatusCode r < 500"
  by (auto simp: SendRequest_def go_simps split: prod.splits result.splits dest: DoRequest_response)

end

lemma retry_request_all_fail:
  assumes "\<And>x. \<exists>e. fst (DoRequest env verb url data x) = Err e" and "\<And>d x. heSleep env d x = x"
  shows "snd (retry_request n i env delay verb url data msg x) = ((\<lambda>x. snd (DoRequest env verb url data x)) ^^ n) x \<and>
    (\<exists>e. fst (retry_request n i env delay verb url data msg x) = Err e)"
proof (induction n arbitrary: i msg x)
  case (Suc n)
  obtain e y where "DoRequest env verb url data x = (Err e, y)" using assms(1) by (metis prod.collapse)
  with Suc.IH show ?case using assms(2)
    by (simp add: go_simps funpow_Suc_right del: funpow.simps)
qed (simp add: go_simps)

text \<open>A sender that calls back once, with the token \<open>t\<close>, over a server given by its answers.\<close>

definition direct_env :: "(http_request \<Rightarrow> ('x, http_response) go) \<Rightarrow> 'x http_env" where
  "direct_env server = \<lparr>heConfig = (\<lambda>key default. default), heSleep = (\<lambda>d x. x),
     heSend = (\<lambda>url f. gbind (f ''t'') (\<lambda>_. gret ())), heContext = gret, heDo = server\<rparr>"

interpretation direct: m2m_sender "direct_env server"
proof
  show "\<exists>token s0 code. f token s0 = (Ok code, s')"
    if "heSend (direct_env server) url f s = (Ok (), s')" for url f s s'
    using that by (intro exI [of _ "''t''"] exI [of _ s])
      (auto simp: direct_env_def go_simps split: prod.splits result.splits)
qed

text \<open>
  C31: A retried request either returns a response whose status is below 500, or, when every attempt
  fails, an error after exactly as many attempts as configured (none for a limit that is not
  positive).
\<close>

theorem retry_request_bounds:
  assumes "m2m_sender env"
  shows "(DoRetryRequest env verb url data x = (Ok resp, x') \<longrightarrow> (\<exists>r. resp = Some r \<and> hrStatusCode r < 500)) \<and>
    ((\<forall>x. \<exists>e. fst (DoRequest env verb url data x) = Err e) \<longrightarrow> (\<forall>d x. heSleep env d x = x) \<longrightarrow>
       snd (DoRetryRequest env verb url data x) =
         ((\<lambda>x. snd (DoRequest env verb url data x)) ^^ nat (retry_limit env)) x \<and>
       (\<exists>e. fst (DoRetryRequest env verb url data x) = Err e))"
  using m2m_sender.retry_request_response [OF assms] retry_request_all_fail [of env verb url data]
  by (auto simp: DoRetryRequest_def)

text \<open>A server that answers 503 and counts its requests.\<close>

definition counting_env :: "nat http_env" where
  "counting_env = direct_env (\<lambda>req n. (Ok \<lparr>hrStatusCode = 503, hrBody = []\<rparr>, Suc n))"

lemma retry_request_bounds_witness:
  "snd (DoRetryRequest counting_env ''POST'' ''http://idp'' [] 0) = 5"
proof -
  have m: "m2m_sender counting_env"
    unfolding counting_env_def by (rule direct.m2m_sender_axioms)
  have one: "\<exists>e. DoRequest counting_env ''POST'' ''http://idp'' [] x = (Err e, Suc x)" for x
    by (simp add: counting_env_def direct_env_def DoRequest_def send_callback_def doRequestWithToken_def
        constructRequest_def go_simps)
  have fails: "\<exists>e. fst (DoRequest counting_env ''POST'' ''http://idp'' [] x) = Err e"
    and counts: "snd (DoRequest counting_env ''POST'' ''http://idp'' [] x) = Suc x" for x
    using one [of x] by auto
  have limit: "retry_limit counting_env = 5"
    by (simp add: retry_limit_def counting_env_def direct_env_def) code_simp
  have "(Suc ^^ n) 0 = n" for n by (induction n) simp_all
  with retry_request_bounds [OF m, of "''POST''" "''http://idp''" "[]" 0 None 0] fails show ?thesis
    by (simp add: counts limit) (simp add: counting_env_def direct_env_def)
qed

end
