(* ===== verification/Outbound.thy ===== *)
theory Outbound
  imports SyncBasics HttpClient
begin

text \<open>
  Two small clients of the synchronizer: the request to the baseline instance of this service in a
  composite platform (\<open>composite/sm.go\<close>) and the text of the mail that tells a tenant's administrator
  the hosts of the tenant (\<open>messaging/mailsender.go\<close>).
\<close>

section \<open>The baseline instance\<close>

definition addParam :: "string \<Rightarrow> string \<Rightarrow> string \<Rightarrow> string" where
  "addParam name value state = (if state = [] then ''?'' else state @ ''&'') @ name @ ''='' @ value"

definition fillRequestParams :: "string \<Rightarrow> string \<Rightarrow> string \<Rightarrow> bool \<Rightarrow> string" where
  "fillRequestParams tenantId protocol tenantSite ignoreMissing =
     (let r0 = [];
          r1 = (if tenantId \<noteq> [] then addParam ''tenantId'' tenantId r0 else r0);
          r2 = (if protocol \<noteq> [] then addParam ''protocol'' protocol r1 else r1);
          r3 = (if tenantSite \<noteq> [] then addParam ''site'' tenantSite r2 else r2)
      in if ignoreMissing then addParam ''ignoreMissing'' ''true'' r3 else r3)"

text \<open>\<open>unmarshal\<close> is \<open>json.Unmarshal\<close>, which gives a value or an error message.\<close>

definition baseline_GetIdpRoute ::
  "'x http_env \<Rightarrow> (string \<Rightarrow> string + custom_service list) \<Rightarrow> string \<Rightarrow> string \<Rightarrow> string \<Rightarrow> string \<Rightarrow>
     bool \<Rightarrow> ('x, custom_service list) go" where
  "baseline_GetIdpRoute env unmarshal url tenantId protocol tenantSite ignoreMissing =
     gtry (SendRequest env (url @ ''/api/v1/identity-provider-route'' @
         fillRequestParams tenantId protocol tenantSite ignoreMissing) ''GET'' []) (\<lambda>r. case r of
       Inl err \<Rightarrow> gerr (PlainError (''request to baseline SM failed: '' @ err_message err))
     | Inr resp0 \<Rightarrow> gbind (response_of resp0) (\<lambda>resp.
         if hrStatusCode resp < 200 \<or> 300 \<le> hrStatusCode resp
         then gerr (PlainError (''baseline SM returned unexpected status: '' @ Itoa (hrStatusCode resp)))
         else (case unmarshal (hrBody resp) of
           Inl m \<Rightarrow> gerr (PlainError (''failed to parse response body from baseline SM'' @ m))
         | Inr result \<Rightarrow> gret result)))"

section \<open>Mail\<close>

text \<open>\<open>msFormat\<close> is \<open>fmt.Sprintf\<close> with the configured text as its format.\<close>

record mail_sender =
  msUserEmail :: string
  msFormat :: "string list \<Rightarrow> string"

text \<open>
  The loop over the sites removes the common routes of a service from the slice over which it ranges;
  the array and the slice variable live on to the next service.
\<close>

definition mail_service ::
  "string \<times> address_list \<Rightarrow> string \<times> route slice \<Rightarrow> string \<times> route slice" where
  "mail_service = (\<lambda>(service, addresses) (body, commonRoutes).
     (body @ [newline] @ ''* '' @ service @ '': '' @
        concat (map (\<lambda>a. ''http://'' @ addr a @ '' '') addresses),
      range_remove (\<lambda>r. service = route_service r) [0..<snd commonRoutes] commonRoutes))"

definition mail_site ::
  "string \<times> services \<Rightarrow> string \<times> route slice \<Rightarrow> string \<times> route slice" where
  "mail_site = (\<lambda>(name, site) (body, commonRoutes).
     fold mail_service (ments site) (body @ [newline] @ ''Site: '' @ name, commonRoutes))"

definition GenerateTextForTenantUpdate :: "mail_sender \<Rightarrow> tenant_dns \<Rightarrow> route list \<Rightarrow> string" where
  "GenerateTextForTenantUpdate ms tenant commonRoutes0 =
     (let (body0, commonRoutes) = fold mail_site (ments (tSites tenant))
            (''Following routes are available:'', slice_of commonRoutes0);
          body = body0 @ concat (map (\<lambda>r. [newline] @ ''* '' @ route_service r @ '': http://'' @ route_host r)
            (sview commonRoutes))
      in msFormat ms [msUserEmail ms, tTenantAdmin tenant, tTenantId tenant, body])"

end
