(* ===== verification/Tm.thy ===== *)
theory Tm
  imports Dao HttpClient
begin

text \<open>
  The package \<open>tm\<close>, the client of the tenant manager: requests for tenants (\<open>client.go\<close>), the cache
  of active tenants, and the callbacks that are called with the events read from its web socket
  (\<open>watch.go\<close>). A field of \<open>Tenant\<close> has the prefix \<open>tm\<close>.
\<close>

section \<open>Tenants and requests\<close>

record tm_tenant =
  tmObjectId :: string
  tmExternalId :: string
  tmDomainName :: string
  tmServiceName :: string
  tmTenantName :: string
  tmStatus :: string
  tmNamespace :: string
  tmUserEmail :: string

definition tenantManagerPath :: string where
  "tenantManagerPath = ''http://internal-gateway-service:8080/api/v4/tenant-manager''"

definition tenantsApiPath :: string where "tenantsApiPath = ''/manage/tenants''"
definition StatusActive :: string where "StatusActive = ''ACTIVE''"
definition StatusSuspended :: string where "StatusSuspended = ''SUSPENDED''"

definition ErrTenantNotFound :: go_error where
  "ErrTenantNotFound = SentinelError ''tenant not found in tenant-manager''"

text \<open>\<open>teTenant\<close> and \<open>teTenants\<close> are the JSON decoders.\<close>

record 'x tm_env =
  teHttp :: "'x http_env"
  tePg :: "'x pg_client"
  teTenant :: "string \<Rightarrow> tm_tenant decoded"
  teTenants :: "string \<Rightarrow> tm_tenant list decoded"

definition decode_or_error :: "'a decoded \<Rightarrow> ('x, 'a) go" where
  "decode_or_error d = (case d of Decoded v \<Rightarrow> gret v
     | Eof \<Rightarrow> gerr (SentinelError ''EOF'') | Malformed m \<Rightarrow> gerr (PlainError m))"

definition tm_performRequest :: "'x tm_env \<Rightarrow> string \<Rightarrow> string \<Rightarrow> string \<Rightarrow> ('x, http_response) go" where
  "tm_performRequest env url verb body =
     gbind (DoRetryRequest (teHttp env) verb url body) response_of"

text \<open>An error of the deletion is logged.\<close>

definition getTenantById :: "'x tm_env \<Rightarrow> string \<Rightarrow> ('x, tm_tenant) go" where
  "getTenantById env i =
     gbind (tm_performRequest env (tenantManagerPath @ tenantsApiPath @ ''/'' @ i) ''GET'' []) (\<lambda>resp.
     if hrStatusCode resp = 404
     then gtry (dao_Delete (tePg env) i) (\<lambda>_. gerr ErrTenantNotFound)
     else decode_or_error (teTenant env (hrBody resp)))"

definition GetTenantByExternalId :: "'x tm_env \<Rightarrow> string \<Rightarrow> ('x, tm_tenant) go" where
  "GetTenantByExternalId env externalId = getTenantById env externalId"

definition GetTenantByObjectId :: "'x tm_env \<Rightarrow> string \<Rightarrow> ('x, tm_tenant) go" where
  "GetTenantByObjectId env objectId = getTenantById env objectId"

definition GetAllTenantsByStatus :: "'x tm_env \<Rightarrow> string \<Rightarrow> ('x, tm_tenant list) go" where
  "GetAllTenantsByStatus env status =
     (let endpoint = tenantManagerPath @ tenantsApiPath @
        (if status \<noteq> [] then ''?search=status='' @ status else []) in
      gbind (tm_performRequest env endpoint ''GET'' []) (\<lambda>resp.
      decode_or_error (teTenants env (hrBody resp))))"

section \<open>The cache of active tenants\<close>

text \<open>A \<open>sync.Map\<close> from external id to tenant, in the order in which \<open>Range\<close> visits it.\<close>

type_synonym active_tenants = "(string \<times> tm_tenant) list"

definition update_active :: "tm_tenant \<Rightarrow> active_tenants \<Rightarrow> active_tenants" where
  "update_active tenant c =
     (let c1 = (if tmStatus tenant = StatusActive then AList.update (tmExternalId tenant) tenant c else c)
      in if tmStatus tenant = StatusSuspended then AList.delete (tmExternalId tenant) c1 else c1)"

definition UpdateActiveTenantsCache :: "tm_tenant list \<Rightarrow> active_tenants \<Rightarrow> active_tenants" where
  "UpdateActiveTenantsCache tenants c = foldl (\<lambda>c tenant. update_active tenant c) c tenants"

definition DeleteFromActiveTenantsCache :: "tm_tenant list \<Rightarrow> active_tenants \<Rightarrow> active_tenants" where
  "DeleteFromActiveTenantsCache tenants c = foldl (\<lambda>c tenant. AList.delete (tmExternalId tenant) c) c tenants"

definition GetActiveTenantsCache :: "active_tenants \<Rightarrow> tm_tenant list" where
  "GetActiveTenantsCache c = map snd c"

section \<open>Events\<close>

definition EventTypeSubscribed :: string where "EventTypeSubscribed = ''SUBSCRIBED''"
definition EventTypeCreated :: string where "EventTypeCreated = ''CREATED''"
definition EventTypeModified :: string where "EventTypeModified = ''MODIFIED''"
definition EventTypeDeleted :: string where "EventTypeDeleted = ''DELETED''"

definition eventTypes :: "string list" where
  "eventTypes = [EventTypeSubscribed, EventTypeCreated, EventTypeModified, EventTypeDeleted]"

text \<open>The slice of tenants of an event can be nil.\<close>

record tenant_watch_event =
  twType :: string
  twTenants :: "tm_tenant list option"

definition event_tenants :: "tenant_watch_event \<Rightarrow> tm_tenant list" where
  "event_tenants e = (case twTenants e of Some ts \<Rightarrow> ts | None \<Rightarrow> [])"

text \<open>\<open>callbacksMap\<close>, which the constructor allocates; \<open>'c\<close> names a callback.\<close>

type_synonym 'c callbacks = "(string \<times> 'c list) list"

definition SubscribeToEvent :: "string \<Rightarrow> 'c \<Rightarrow> 'c callbacks \<Rightarrow> 'c callbacks" where
  "SubscribeToEvent event callback m =
     AList.update event ((case map_of m event of Some cs \<Rightarrow> cs | None \<Rightarrow> []) @ [callback]) m"

definition SubscribeToAll :: "'c \<Rightarrow> 'c callbacks \<Rightarrow> 'c callbacks" where
  "SubscribeToAll callback m = foldl (\<lambda>m eventType. SubscribeToEvent eventType callback m) m eventTypes"

definition SubscribeToAllExcept :: "string \<Rightarrow> 'c \<Rightarrow> 'c callbacks \<Rightarrow> 'c callbacks" where
  "SubscribeToAllExcept subEventType callback m =
     foldl (\<lambda>m eventType. if eventType \<noteq> subEventType then SubscribeToEvent eventType callback m else m)
       m eventTypes"

text \<open>A callback's error is logged and its panic recovered.\<close>

definition guarded :: "('s, unit) go \<Rightarrow> ('s, unit) go" where
  "guarded m = (\<lambda>s. (Ok (), snd (m s)))"

text \<open>
  What the reading loop does with one frame: \<open>parse\<close> is \<open>json.Unmarshal\<close>, \<open>call\<close> runs a callback.
\<close>

definition handle_frame ::
  "(string \<Rightarrow> tenant_watch_event option) \<Rightarrow> ('c \<Rightarrow> tenant_watch_event \<Rightarrow> ('s, unit) go) \<Rightarrow>
     'c callbacks \<Rightarrow> string \<Rightarrow> ('s, unit) go" where
  "handle_frame parse call m body =
     (if body = [] then gret ()
      else case parse body of
        None \<Rightarrow> gret ()
      | Some tenantEvent \<Rightarrow>
          if twTenants tenantEvent = None then gret ()
          else (case map_of m (twType tenantEvent) of
            Some cs \<Rightarrow> gfor cs (\<lambda>callback. guarded (call callback tenantEvent))
          | None \<Rightarrow> gret ()))"

text \<open>The callback that keeps the cache of active tenants up to date (\<open>synchronizer.go\<close>).\<close>

definition ActualizeActiveTenantsCache :: "tenant_watch_event \<Rightarrow> (active_tenants, unit) go" where
  "ActualizeActiveTenantsCache tenantEvent =
     gbind (if twType tenantEvent = EventTypeModified \<or> twType tenantEvent = EventTypeSubscribed
        then gmodify (UpdateActiveTenantsCache (event_tenants tenantEvent)) else gret ()) (\<lambda>_.
     if twType tenantEvent = EventTypeDeleted
     then gmodify (DeleteFromActiveTenantsCache (event_tenants tenantEvent)) else gret ())"

section \<open>What the cache of active tenants holds\<close>

text \<open>The effect of one tenant of an event on the entry of its external id.\<close>

definition active_step :: "string \<Rightarrow> tm_tenant option \<Rightarrow> tm_tenant \<Rightarrow> tm_tenant option" where
  "active_step ty old t =
     (if ty = EventTypeDeleted then None
      else if ty = EventTypeModified \<or> ty = EventTypeSubscribed then
        (if tmStatus t = StatusSuspended then None else if tmStatus t = StatusActive then Some t else old)
      else old)"

definition tenants_of :: "tenant_watch_event list \<Rightarrow> (string \<times> tm_tenant) list" where
  "tenants_of es = concat (map (\<lambda>e. map (Pair (twType e)) (event_tenants e)) es)"

definition active_only :: "active_tenants \<Rightarrow> bool" where
  "active_only c \<longleftrightarrow> (\<forall>(k, t) \<in> set c. tmStatus t = StatusActive \<and> tmExternalId t = k)"

lemmas event_type_defs = EventTypeSubscribed_def EventTypeCreated_def EventTypeModified_def
  EventTypeDeleted_def

lemma status_differ [simp]: "StatusActive \<noteq> StatusSuspended" "StatusSuspended \<noteq> StatusActive"
  by (simp_all add: StatusActive_def StatusSuspended_def)

lemma lookup_update_active:
  "map_of (update_active t c) k =
     (if tmExternalId t = k then active_step EventTypeModified (map_of c k) t else map_of c k)"
  by (auto simp: update_active_def Let_def active_step_def event_type_defs)

lemma lookup_UpdateActive:
  "map_of (UpdateActiveTenantsCache ts c) k =
     foldl (\<lambda>v t. if tmExternalId t = k then active_step EventTypeModified v t else v) (map_of c k) ts"
  unfolding UpdateActiveTenantsCache_def
  by (induction ts arbitrary: c) (simp_all add: lookup_update_active)

lemma lookup_DeleteFromActive:
  "map_of (DeleteFromActiveTenantsCache ts c) k =
     foldl (\<lambda>v t. if tmExternalId t = k then active_step EventTypeDeleted v t else v) (map_of c k) ts"
  unfolding DeleteFromActiveTenantsCache_def
  by (induction ts arbitrary: c) (auto simp: active_step_def)

lemma active_step_other:
  "ty \<noteq> EventTypeModified \<Longrightarrow> ty \<noteq> EventTypeSubscribed \<Longrightarrow> ty \<noteq> EventTypeDeleted \<Longrightarrow> active_step ty v t = v"
  by (simp add: active_step_def)

lemma active_step_subscribed: "active_step EventTypeSubscribed = active_step EventTypeModified"
  by (simp add: active_step_def fun_eq_iff event_type_defs)

lemma foldl_if_id: "foldl (\<lambda>v t. v) v ts = v"
  by (induction ts) simp_all

lemma Actualize_lookup:
  "map_of (snd (ActualizeActiveTenantsCache e c)) k =
     foldl (\<lambda>v t. if tmExternalId t = k then active_step (twType e) v t else v) (map_of c k) (event_tenants e)"
proof -
  have differ: "EventTypeDeleted \<noteq> EventTypeModified" "EventTypeDeleted \<noteq> EventTypeSubscribed"
    by (simp_all add: event_type_defs)
  consider "twType e = EventTypeModified" | "twType e = EventTypeSubscribed" | "twType e = EventTypeDeleted"
    | "twType e \<noteq> EventTypeModified" "twType e \<noteq> EventTypeSubscribed" "twType e \<noteq> EventTypeDeleted" by blast
  then show ?thesis
  proof cases
    case 4
    then have "(\<lambda>v t. if tmExternalId t = k then active_step (twType e) v t else v) = (\<lambda>v t. v)"
      by (simp add: fun_eq_iff active_step_other)
    with 4 show ?thesis by (simp add: ActualizeActiveTenantsCache_def go_simps foldl_if_id)
  qed (use differ in \<open>simp_all add: ActualizeActiveTenantsCache_def go_simps lookup_UpdateActive
      lookup_DeleteFromActive active_step_subscribed not_sym cong: if_cong\<close>)
qed

lemma Actualize_Ok: "fst (ActualizeActiveTenantsCache e c) = Ok ()"
  by (simp add: ActualizeActiveTenantsCache_def go_simps)

lemma active_only_remove: "active_only c \<Longrightarrow> active_only (AList.delete k c)"
  unfolding active_only_def using set_delete_subset by fast

lemma active_only_update_active: "active_only c \<Longrightarrow> active_only (update_active t c)"
  unfolding update_active_def Let_def
  by (auto intro!: active_only_remove) (auto simp: active_only_def dest!: in_update_alist)

lemma active_only_update: "active_only c \<Longrightarrow> active_only (UpdateActiveTenantsCache ts c)"
  unfolding UpdateActiveTenantsCache_def
  by (induction ts arbitrary: c) (simp_all add: active_only_update_active)

lemma active_only_delete: "active_only c \<Longrightarrow> active_only (DeleteFromActiveTenantsCache ts c)"
  unfolding DeleteFromActiveTenantsCache_def
  by (induction ts arbitrary: c) (simp_all add: active_only_remove)

lemma active_only_keeps [go_keeps]: "keeps active_only (ActualizeActiveTenantsCache e)"
  unfolding ActualizeActiveTenantsCache_def
  by (intro go_keeps keeps_gmodify active_only_update active_only_delete)

text \<open>
  C28: However many events arrive, the cache of active tenants holds under an external id what the tenants
  with this id in the events said one after the other, beginning with what it held: an active
  tenant of a MODIFIED or SUBSCRIBED event is stored, a suspended one takes the entry away, so does any
  tenant of a DELETED event, and tenants with other statuses and events of other types leave the
  entry as it is. If the cache only held active tenants under their own ids, it still does.
\<close>

theorem active_cache_events:
  "map_of (snd (gfor es ActualizeActiveTenantsCache c)) k =
     foldl (\<lambda>v (ty, t). if tmExternalId t = k then active_step ty v t else v) (map_of c k) (tenants_of es) \<and>
   (active_only c \<longrightarrow> active_only (snd (gfor es ActualizeActiveTenantsCache c)))"
proof (rule conjI)
  have "gfor (e # es) ActualizeActiveTenantsCache c =
      gfor es ActualizeActiveTenantsCache (snd (ActualizeActiveTenantsCache e c))" for e es c
    using Actualize_Ok [of e c] by (cases "ActualizeActiveTenantsCache e c") (simp add: go_simps)
  then show "map_of (snd (gfor es ActualizeActiveTenantsCache c)) k =
      foldl (\<lambda>v (ty, t). if tmExternalId t = k then active_step ty v t else v) (map_of c k) (tenants_of es)"
    by (induction es arbitrary: c)
      (simp_all add: tenants_of_def go_simps Actualize_lookup foldl_map del: gfor.simps(2))
  show "active_only c \<longrightarrow> active_only (snd (gfor es ActualizeActiveTenantsCache c))"
    by (blast intro: keepsD keeps_gfor active_only_keeps)
qed

definition sample_tm_tenant :: "string \<Rightarrow> tm_tenant" where
  "sample_tm_tenant status = \<lparr>tmObjectId = ''o1'', tmExternalId = ''e1'', tmDomainName = [], tmServiceName = [],
     tmTenantName = ''t'', tmStatus = status, tmNamespace = [], tmUserEmail = []\<rparr>"

lemma active_cache_events_witness:
  "map_of (snd (gfor [\<lparr>twType = EventTypeSubscribed, twTenants = Some [sample_tm_tenant StatusActive]\<rparr>,
      \<lparr>twType = EventTypeModified, twTenants = Some [sample_tm_tenant StatusSuspended]\<rparr>]
      ActualizeActiveTenantsCache [])) ''e1'' = None \<and>
   active_only (snd (gfor [] ActualizeActiveTenantsCache []))"
  using active_cache_events [of "[\<lparr>twType = EventTypeSubscribed, twTenants = Some [sample_tm_tenant StatusActive]\<rparr>,
      \<lparr>twType = EventTypeModified, twTenants = Some [sample_tm_tenant StatusSuspended]\<rparr>]" "[]" "''e1''"]
    active_cache_events [of "[]" "[]" "[]"]
  by (simp add: tenants_of_def event_tenants_def sample_tm_tenant_def active_step_def active_only_def event_type_defs)

section \<open>A tenant the tenant manager does not know\<close>

text \<open>Requests and pauses leave the table of tenants alone.\<close>

locale http_frame =
  fixes http :: "'x http_env" and db :: "'x \<Rightarrow> 'd"
  assumes request_keeps: "db (snd (DoRequest http verb url data x)) = db x"
    and sleep_keeps: "db (heSleep http d x) = db x"
begin

lemma keeps_DoRequest: "keeps (\<lambda>x. db x = d) (DoRequest http verb url data)"
  by (simp add: keeps_def request_keeps)

lemma keeps_retry_request: "keeps (\<lambda>x. db x = d) (retry_request n i http delay verb url data msg)"
  by (induction n arbitrary: i msg)
    (auto intro!: go_keeps keeps_gmodify keeps_DoRequest simp: sleep_keeps)

lemma keeps_DoRetryRequest: "keeps (\<lambda>x. db x = d) (DoRetryRequest http verb url data)"
  unfolding DoRetryRequest_def by (rule keeps_retry_request)

lemma keeps_response_of: "keeps P (response_of resp)"
  unfolding response_of_def by (intro go_keeps)

lemma keeps_SendRequest: "keeps (\<lambda>x. db x = d) (SendRequest http url verb data)"
  unfolding SendRequest_def by (intro go_keeps keeps_DoRequest)

end

locale tm_world = postgres "tePg env" db + http_frame "teHttp env" db
  for env :: "'x tm_env" and db :: "'x \<Rightarrow> string \<Rightarrow> tenant_dns option"
begin

lemma tm_request_keeps: "keeps (\<lambda>x. db x = d) (tm_performRequest env url verb body)"
  unfolding tm_performRequest_def by (intro go_keeps keeps_DoRetryRequest keeps_response_of)

end

context tm_world begin

lemma getTenantById_run:
  assumes "getTenantById env i s = (r, s')"
  shows "(r \<noteq> Err ErrTenantNotFound \<longrightarrow> db s' = db s) \<and> (db s' = db s \<or> db s' = (db s)(i := None))"
proof -
  let ?req = "tm_performRequest env (tenantManagerPath @ tenantsApiPath @ ''/'' @ i) ''GET'' []"
  obtain q u where q: "?req s = (q, u)" by (cases "?req s")
  with keepsD [OF tm_request_keeps [of "db s"], of s] have u: "db u = db s" by (metis snd_conv)
  show ?thesis
  proof (cases q)
    case (Ok resp)
    show ?thesis
    proof (cases "hrStatusCode resp = 404")
      case True
      obtain p v where p: "dao_Delete (tePg env) i u = (p, v)" by (cases "dao_Delete (tePg env) i u")
      have "s' = v" and "p = Ok () \<Longrightarrow> r = Err ErrTenantNotFound"
        using assms q Ok True p by (cases p; simp add: getTenantById_def go_simps)+
      then show ?thesis using dao_Delete_run [OF p] u by simp
    next
      case False
      then have "s' = u" using assms q Ok
        by (auto simp: getTenantById_def go_simps decode_or_error_def split: decoded.splits)
      then show ?thesis using u by simp
    qed
  qed (use assms q u in \<open>auto simp: getTenantById_def go_simps\<close>)
qed

end

text \<open>
  C33: Asking the tenant manager for a tenant leaves the table of tenants as it is, unless it answers
  that it does not know the id: then the row with this id, and no other, may be deleted.
\<close>

theorem unknown_tenant_deleted:
  assumes "tm_world env db" and "getTenantById env i s = (r, s')"
  shows "(r \<noteq> Err ErrTenantNotFound \<longrightarrow> db s' = db s) \<and> (k \<noteq> i \<longrightarrow> db s' k = db s k) \<and>
    (db s' i = db s i \<or> db s' i = None)"
  using tm_world.getTenantById_run [OF assms] by auto

text \<open>A tenant manager that answers every request with the given status.\<close>

definition mem_http :: "int \<Rightarrow> mem_table http_env" where
  "mem_http code = direct_env (\<lambda>req s. (Ok \<lparr>hrStatusCode = code, hrBody = []\<rparr>, s))"

definition mem_tm :: "int \<Rightarrow> mem_table tm_env" where
  "mem_tm code = \<lparr>teHttp = mem_http code, tePg = mem_pg,
     teTenant = (\<lambda>b. Decoded (sample_tm_tenant StatusActive)), teTenants = (\<lambda>b. Decoded [])\<rparr>"

interpretation mem_tm: tm_world "mem_tm code" mem_db
proof -
  have "postgres (tePg (mem_tm code)) mem_db" by (simp add: mem_tm_def mem.postgres_axioms)
  moreover have "http_frame (teHttp (mem_tm code)) mem_db"
    by unfold_locales
      (auto simp: mem_tm_def mem_http_def direct_env_def DoRequest_def send_callback_def
        doRequestWithToken_def constructRequest_def go_simps split: prod.split result.split)
  ultimately show "tm_world (mem_tm code) mem_db" by (simp add: tm_world_def)
qed

lemma unknown_tenant_deleted_witness:
  "mem_db (snd (getTenantById (mem_tm 404) ''b'' mem_sample)) ''a'' = mem_db mem_sample ''a''"
  using unknown_tenant_deleted [OF mem_tm.tm_world_axioms surjective_pairing, of 404 "''b''" mem_sample "''a''"]
  by simp

end
