(* ===== verification/Idp.thy ===== *)
theory Idp
  imports HttpClient
begin

text \<open>
  The package \<open>idp\<close>: the request that tells the identity provider which hosts are trusted
  (\<open>facade.go\<close>), the client that sends it (\<open>rest.go\<close>), and the client that keeps sending it in the
  background until it is accepted or superseded (\<open>retry.go\<close>), which is a state machine over its
  goroutines.
\<close>

section \<open>The facade\<close>

record idp_tenant =
  itId :: string
  itURLs :: "string list"

record uri_request =
  urNamespace :: string
  urTenants :: "idp_tenant list"
  urCloudCommon :: "string list"

text \<open>The interface \<open>Client\<close>.\<close>

record 'x idp_client =
  icCheckPostURIFeature :: "('x, bool) go"
  icPostURI :: "uri_request \<Rightarrow> ('x, unit) go"

definition notNullSliceWithNonEmptyValues :: "string list \<Rightarrow> string list" where
  "notNullSliceWithNonEmptyValues strings = filter (\<lambda>v. v \<noteq> []) strings"

definition uriRequest :: "(string, string list) gomap \<Rightarrow> string list \<Rightarrow> uri_request" where
  "uriRequest tenantURIs commonURIs =
     \<lparr>urNamespace = [],
      urTenants = map (\<lambda>(tenantId, uris). \<lparr>itId = tenantId, itURLs = notNullSliceWithNonEmptyValues uris\<rparr>)
        (ments tenantURIs),
      urCloudCommon = notNullSliceWithNonEmptyValues commonURIs\<rparr>"

text \<open>\<open>errors.Wrap\<close> keeps the message.\<close>

definition wrapped :: "('x, 'a) go \<Rightarrow> ('x, 'a) go" where
  "wrapped m = gtry m (\<lambda>r. case r of Inl err \<Rightarrow> gerr (PlainError (err_message err)) | Inr x \<Rightarrow> gret x)"

definition facade_CheckPostURIFeature :: "'x idp_client \<Rightarrow> ('x, bool) go" where
  "facade_CheckPostURIFeature client = wrapped (icCheckPostURIFeature client)"

definition SetRedirectURIs ::
  "string \<Rightarrow> 'x idp_client \<Rightarrow> (string, string list) gomap \<Rightarrow> string list \<Rightarrow> ('x, unit) go" where
  "SetRedirectURIs namespace client tenantURIs commonURIs =
     (let request = (uriRequest tenantURIs commonURIs)\<lparr>urNamespace := namespace\<rparr>
      in wrapped (icPostURI client request))"

section \<open>The client over HTTP\<close>

definition postURIPath :: string where "postURIPath = ''/auth/actions/urls''"

definition UnexpectedResponseCode :: "int \<Rightarrow> go_error" where
  "UnexpectedResponseCode code =
     PlainError (''got response with unexpected code from identity-provider '' @ [CHR 0x27] @ Itoa code @
       [CHR 0x27])"

definition rest_CheckPostURIFeature :: "'x http_env \<Rightarrow> string \<Rightarrow> ('x, bool) go" where
  "rest_CheckPostURIFeature env idpURL =
     gbind (wrapped (SendRequest env (idpURL @ postURIPath) ''OPTIONS'' [])) (\<lambda>resp0.
     gbind (response_of resp0) (\<lambda>resp.
     if hrStatusCode resp = 200 then gret True
     else if hrStatusCode resp = 404 then gret False
     else gerr (PlainError (''got unexpected code from IDP: '' @ Itoa (hrStatusCode resp)))))"

text \<open>\<open>marshal\<close> is \<open>json.Marshal\<close>.\<close>

definition rest_PostURI :: "'x http_env \<Rightarrow> (uri_request \<Rightarrow> string) \<Rightarrow> string \<Rightarrow> uri_request \<Rightarrow> ('x, unit) go" where
  "rest_PostURI env marshal idpURL request =
     gbind (wrapped (SendRequest env (idpURL @ postURIPath) ''POST'' (marshal request))) (\<lambda>resp0.
     gbind (response_of resp0) (\<lambda>resp.
     if hrStatusCode resp < 200 \<or> 299 < hrStatusCode resp
     then gerr (UnexpectedResponseCode (hrStatusCode resp)) else gret ()))"

definition rest_client :: "'x http_env \<Rightarrow> (uri_request \<Rightarrow> string) \<Rightarrow> string \<Rightarrow> 'x idp_client" where
  "rest_client env marshal idpURL =
     \<lparr>icCheckPostURIFeature = rest_CheckPostURIFeature env idpURL,
      icPostURI = rest_PostURI env marshal idpURL\<rparr>"

definition dummy_client :: "'x idp_client" where
  "dummy_client = \<lparr>icCheckPostURIFeature = gret False, icPostURI = (\<lambda>_. gret ())\<rparr>"

section \<open>The client with retry\<close>

text \<open>
  \<open>CheckPostURIFeature\<close> asks again, after a pause, as long as the client reports an error; if it
  never stops doing so the function does not return.
\<close>

partial_function (option) retry_CheckPostURIFeature ::
  "'x idp_client \<Rightarrow> ('x \<Rightarrow> 'x) \<Rightarrow> 'x \<Rightarrow> (bool result \<times> 'x) option" where
  "retry_CheckPostURIFeature client pause x =
     (case icCheckPostURIFeature client x of
        (Err e, y) \<Rightarrow> retry_CheckPostURIFeature client pause (pause y)
      | (Ok b, y) \<Rightarrow> Some (Ok b, y)
      | (Panic p, y) \<Rightarrow> Some (Panic p, y))"

text \<open>
  A goroutine of \<open>PostURI\<close>: before its first request, waiting for the next one after a failure, or
  finished. \<open>wkCancelled\<close> is the state of its context.
\<close>

datatype phase = Fresh | Waiting | Finished

record worker =
  wkRequest :: uri_request
  wkCancelled :: bool
  wkPhase :: phase

text \<open>The goroutines in the order in which they were started; \<open>cancel\<close> belongs to the last one.\<close>

record 'x retry_client =
  rcHash :: "64 word"
  rcWorkers :: "worker list"
  rcWorld :: 'x

definition cancel_last :: "worker list \<Rightarrow> worker list" where
  "cancel_last ws = (if ws = [] then [] else butlast ws @ [(last ws)\<lparr>wkCancelled := True\<rparr>])"

text \<open>\<open>hash\<close> is \<open>hashstructure.Hash\<close>.\<close>

definition retry_PostURI ::
  "(uri_request \<Rightarrow> go_error + 64 word) \<Rightarrow> uri_request \<Rightarrow> ('x retry_client, unit) go" where
  "retry_PostURI hash request = (\<lambda>c. case hash request of
     Inl err \<Rightarrow> (Err (PlainError (err_message err)), c)
   | Inr h \<Rightarrow> if h \<noteq> rcHash c
       then (Ok (), c\<lparr>rcHash := h, rcWorkers := cancel_last (rcWorkers c) @
          [\<lparr>wkRequest = request, wkCancelled = False, wkPhase = Fresh\<rparr>]\<rparr>)
       else (Ok (), c))"

definition retry_Reset :: "'x retry_client \<Rightarrow> 'x retry_client" where
  "retry_Reset c = c\<lparr>rcHash := 0\<rparr>"

text \<open>One request of a goroutine.\<close>

definition attempt :: "'x idp_client \<Rightarrow> nat \<Rightarrow> 'x retry_client \<Rightarrow> 'x retry_client" where
  "attempt client i c = (let w = rcWorkers c ! i in
     case icPostURI client (wkRequest w) (rcWorld c) of (r, y) \<Rightarrow>
       c\<lparr>rcWorld := y, rcWorkers := (rcWorkers c)[i := w\<lparr>wkPhase :=
          (if r = Ok () then Finished else Waiting)\<rparr>]\<rparr>)"

text \<open>
  The steps: the two methods, and the goroutines. The first request does not look at the context.
  When the context is done and the timer has fired, \<open>select\<close> takes either, so a cancelled goroutine
  may send once more.
\<close>

inductive retry_step ::
  "'x idp_client \<Rightarrow> (uri_request \<Rightarrow> go_error + 64 word) \<Rightarrow> 'x retry_client \<Rightarrow> 'x retry_client \<Rightarrow> bool"
  for client hash where
  post: "retry_PostURI hash request c = (r, c') \<Longrightarrow> retry_step client hash c c'"
| reset: "retry_step client hash c (retry_Reset c)"
| first: "i < length (rcWorkers c) \<Longrightarrow> wkPhase (rcWorkers c ! i) = Fresh \<Longrightarrow>
    retry_step client hash c (attempt client i c)"
| again: "i < length (rcWorkers c) \<Longrightarrow> wkPhase (rcWorkers c ! i) = Waiting \<Longrightarrow>
    retry_step client hash c (attempt client i c)"
| quit: "i < length (rcWorkers c) \<Longrightarrow> wkPhase (rcWorkers c ! i) = Waiting \<Longrightarrow>
    wkCancelled (rcWorkers c ! i) \<Longrightarrow>
    retry_step client hash c
      (c\<lparr>rcWorkers := (rcWorkers c)[i := (rcWorkers c ! i)\<lparr>wkPhase := Finished\<rparr>]\<rparr>)"

definition new_retry_client :: "'x \<Rightarrow> 'x retry_client" where
  "new_retry_client x = \<lparr>rcHash = 0, rcWorkers = [], rcWorld = x\<rparr>"

inductive retry_reachable ::
  "'x idp_client \<Rightarrow> (uri_request \<Rightarrow> go_error + 64 word) \<Rightarrow> 'x \<Rightarrow> 'x retry_client \<Rightarrow> bool"
  for client hash x where
  start: "retry_reachable client hash x (new_retry_client x)"
| step: "retry_reachable client hash x c \<Longrightarrow> retry_step client hash c c' \<Longrightarrow>
    retry_reachable client hash x c'"

section \<open>Which goroutines can still send\<close>

text \<open>
  Only the last goroutine has a live context, and unless the client was reset the stored hash is the
  one of its request.
\<close>

definition retry_inv :: "(uri_request \<Rightarrow> go_error + 64 word) \<Rightarrow> 'x retry_client \<Rightarrow> bool" where
  "retry_inv hash c \<longleftrightarrow> (\<forall>w \<in> set (butlast (rcWorkers c)). wkCancelled w) \<and>
     (rcWorkers c = [] \<longrightarrow> rcHash c = 0) \<and>
     (rcWorkers c \<noteq> [] \<longrightarrow> \<not> wkCancelled (last (rcWorkers c)) \<and>
        (rcHash c = 0 \<or> hash (wkRequest (last (rcWorkers c))) = Inr (rcHash c)))"

lemma retry_inv_start: "retry_inv hash (new_retry_client x)"
  by (simp add: retry_inv_def new_retry_client_def)

lemma cancel_last_cancelled:
  "\<forall>w \<in> set (butlast ws). wkCancelled w \<Longrightarrow> \<forall>w \<in> set (cancel_last ws). wkCancelled w"
  by (auto simp: cancel_last_def)

lemma retry_inv_post:
  assumes "retry_inv hash c" and "retry_PostURI hash request c = (r, c')"
  shows "retry_inv hash c'"
proof -
  have "\<forall>w \<in> set (cancel_last (rcWorkers c)). wkCancelled w"
    using assms(1) by (intro cancel_last_cancelled) (simp add: retry_inv_def)
  then show ?thesis
    using assms by (auto simp: retry_PostURI_def retry_inv_def split: sum.splits if_splits)
qed

text \<open>A step of a goroutine changes its phase only.\<close>

lemma retry_inv_phase:
  assumes "retry_inv hash c" and "i < length (rcWorkers c)"
    and "wkCancelled w = wkCancelled (rcWorkers c ! i)" and "wkRequest w = wkRequest (rcWorkers c ! i)"
  shows "retry_inv hash (c\<lparr>rcWorkers := (rcWorkers c)[i := w]\<rparr>)"
proof -
  let ?ws = "rcWorkers c"
  have ne: "?ws \<noteq> []" using assms(2) by auto
  have last: "wkCancelled (last (?ws[i := w])) = wkCancelled (last ?ws)"
    "wkRequest (last (?ws[i := w])) = wkRequest (last ?ws)"
    using assms(2-4) ne by (auto simp: last_conv_nth nth_list_update)
  have "wkCancelled x" if "x \<in> set (butlast (?ws[i := w]))" for x
  proof (cases "i = length ?ws - 1")
    case True
    then show ?thesis using that assms(1) by (simp add: butlast_list_update retry_inv_def)
  next
    case False
    then have "i < length (butlast ?ws)" using assms(2) by simp
    moreover have "wkCancelled (butlast ?ws ! i)"
      using calculation assms(1) by (auto simp: retry_inv_def)
    ultimately have "wkCancelled w" using assms(3) by (simp add: nth_butlast)
    then show ?thesis
      using that assms(1) False set_update_subset_insert [of "butlast ?ws" i w]
      by (auto simp: butlast_list_update retry_inv_def)
  qed
  then show ?thesis using assms(1) ne by (simp add: retry_inv_def last)
qed

lemma retry_inv_world: "retry_inv hash (c\<lparr>rcWorld := y\<rparr>) = retry_inv hash c"
  by (simp add: retry_inv_def)

lemma retry_inv_attempt:
  assumes "retry_inv hash c" and "i < length (rcWorkers c)"
  shows "retry_inv hash (attempt client i c)"
  using retry_inv_phase [of hash "c\<lparr>rcWorld := y\<rparr>" i for y] assms
  by (simp add: attempt_def Let_def retry_inv_world split: prod.split)

lemma retry_inv_step: "retry_step client hash c c' \<Longrightarrow> retry_inv hash c \<Longrightarrow> retry_inv hash c'"
proof (induction rule: retry_step.induct)
  case (reset c)
  then show ?case by (auto simp: retry_Reset_def retry_inv_def)
next
  case (quit i c)
  then show ?case by (intro retry_inv_phase) simp_all
qed (auto intro: retry_inv_post retry_inv_attempt)

lemma retry_reachable_inv: "retry_reachable client hash x c \<Longrightarrow> retry_inv hash c"
  by (induction rule: retry_reachable.induct) (auto intro: retry_inv_start retry_inv_step)

text \<open>
  In every reachable state at most one goroutine has a context that is not cancelled, the one
  started last. If the stored hash is not the initial one, there is such a goroutine and it carries
  a request with this hash; so a request is skipped as already sent only while a goroutine with the
  same hash has sent it or is still trying.
\<close>

theorem retry_one_live_request:
  assumes "retry_reachable client hash x c"
  shows "length (filter (\<lambda>w. \<not> wkCancelled w) (rcWorkers c)) \<le> 1 \<and>
    (rcHash c \<noteq> 0 \<longrightarrow> rcWorkers c \<noteq> [] \<and> \<not> wkCancelled (last (rcWorkers c)) \<and>
       hash (wkRequest (last (rcWorkers c))) = Inr (rcHash c))"
proof -
  note inv = retry_reachable_inv [OF assms]
  have "length (filter (\<lambda>w. \<not> wkCancelled w) (rcWorkers c)) \<le> 1"
  proof (cases "rcWorkers c" rule: rev_cases)
    case (snoc ws w)
    with inv have "\<forall>w \<in> set ws. wkCancelled w" by (simp add: retry_inv_def)
    then have "filter (\<lambda>w. \<not> wkCancelled w) ws = []" by (simp add: filter_empty_conv)
    then show ?thesis using snoc by simp
  qed simp
  with inv show ?thesis by (auto simp: retry_inv_def)
qed

text \<open>A client that records what it accepts, and two requests with their hashes.\<close>

definition log_client :: "uri_request list idp_client" where
  "log_client = \<lparr>icCheckPostURIFeature = gret True, icPostURI = (\<lambda>req. gmodify (\<lambda>log. log @ [req]))\<rparr>"

definition sample_request :: "string \<Rightarrow> uri_request" where
  "sample_request host = \<lparr>urNamespace = ''ns'', urTenants = [], urCloudCommon = [host]\<rparr>"

definition sample_hash :: "uri_request \<Rightarrow> go_error + 64 word" where
  "sample_hash req = Inr (of_nat (Suc (length (concat (urCloudCommon req)))))"

lemma retry_one_live_request_witness:
  "\<exists>c. retry_reachable log_client sample_hash [] c \<and> rcHash c \<noteq> 0 \<and> \<not> wkCancelled (last (rcWorkers c))"
proof -
  let ?r = "sample_request ''a.com''"
  let ?c = "snd (retry_PostURI sample_hash ?r (new_retry_client ([] :: uri_request list)))"
  have reach: "retry_reachable log_client sample_hash [] ?c"
    by (rule retry_reachable.step [OF retry_reachable.start]) (auto intro: retry_step.post [OF surjective_pairing])
  moreover have "rcHash ?c = 6"
    by (simp add: retry_PostURI_def sample_hash_def sample_request_def new_retry_client_def)
  ultimately show ?thesis using retry_one_live_request [OF reach] by auto
qed

section \<open>A superseded request can win\<close>

text \<open>Both goroutines are started before the first of them sends.\<close>

definition overtaken :: "uri_request \<Rightarrow> uri_request \<Rightarrow> 64 word \<Rightarrow> uri_request list retry_client" where
  "overtaken a b h = \<lparr>rcHash = h, rcWorkers =
     [\<lparr>wkRequest = a, wkCancelled = True, wkPhase = Finished\<rparr>,
      \<lparr>wkRequest = b, wkCancelled = False, wkPhase = Finished\<rparr>], rcWorld = [b, a]\<rparr>"

text \<open>
  C32: The first request of a goroutine does not look at its context, so a superseded request can be
  accepted after the one that superseded it: a state is reachable in which both were delivered in
  the wrong order, no goroutine is left, and the same request is not sent again.
\<close>

theorem superseded_request_wins:
  assumes "hash a = Inr ha" and "hash b = Inr hb" and "ha \<noteq> 0" and "hb \<noteq> ha"
  shows "retry_reachable log_client hash [] (overtaken a b hb) \<and>
    retry_PostURI hash b (overtaken a b hb) = (Ok (), overtaken a b hb)"
proof
  let ?wa = "\<lambda>c p. \<lparr>wkRequest = a, wkCancelled = c, wkPhase = p\<rparr>"
  let ?wb = "\<lambda>p. \<lparr>wkRequest = b, wkCancelled = False, wkPhase = p\<rparr>"
  let ?c1 = "\<lparr>rcHash = ha, rcWorkers = [?wa False Fresh], rcWorld = []\<rparr> :: uri_request list retry_client"
  let ?c2 = "\<lparr>rcHash = hb, rcWorkers = [?wa True Fresh, ?wb Fresh], rcWorld = []\<rparr>
    :: uri_request list retry_client"
  let ?c3 = "\<lparr>rcHash = hb, rcWorkers = [?wa True Fresh, ?wb Finished], rcWorld = [b]\<rparr>
    :: uri_request list retry_client"
  note steps = retry_reachable.step [of log_client hash "[]"]
  have s1: "retry_step log_client hash (new_retry_client []) ?c1"
    by (rule retry_step.post [of hash a]) (use assms in
      \<open>simp add: retry_PostURI_def new_retry_client_def cancel_last_def\<close>)
  have s2: "retry_step log_client hash ?c1 ?c2"
    by (rule retry_step.post [of hash b]) (use assms in \<open>simp add: retry_PostURI_def cancel_last_def\<close>)
  have s3: "retry_step log_client hash ?c2 ?c3"
    using retry_step.first [of 1 ?c2 log_client hash]
    by (simp add: attempt_def log_client_def go_simps Let_def)
  have s4: "retry_step log_client hash ?c3 (overtaken a b hb)"
    using retry_step.first [of 0 ?c3 log_client hash]
    by (simp add: attempt_def log_client_def go_simps Let_def overtaken_def)
  show "retry_reachable log_client hash [] (overtaken a b hb)"
    by (intro steps [OF _ s4] steps [OF _ s3] steps [OF _ s2] steps [OF _ s1] retry_reachable.start)
  show "retry_PostURI hash b (overtaken a b hb) = (Ok (), overtaken a b hb)"
    using assms by (simp add: retry_PostURI_def overtaken_def)
qed

lemma superseded_request_wins_witness:
  "\<exists>c. retry_reachable log_client sample_hash [] c \<and>
     rcWorld c = [sample_request ''new.com'', sample_request ''a.com''] \<and> rcHash c = 8"
  using superseded_request_wins [of sample_hash "sample_request ''a.com''" 6 "sample_request ''new.com''" 8]
  by (intro exI [of _ "overtaken (sample_request ''a.com'') (sample_request ''new.com'') 8"])
    (simp add: sample_hash_def sample_request_def overtaken_def)

section \<open>Waiting for the identity provider\<close>

text \<open>The world before the \<open>n\<close>-th request, if all requests before it fail.\<close>

definition after_failures :: "'x idp_client \<Rightarrow> ('x \<Rightarrow> 'x) \<Rightarrow> nat \<Rightarrow> 'x \<Rightarrow> 'x" where
  "after_failures client pause n x = ((\<lambda>x. pause (snd (icCheckPostURIFeature client x))) ^^ n) x"

lemma after_failures_Suc:
  "after_failures client pause (Suc n) x =
     after_failures client pause n (pause (snd (icCheckPostURIFeature client x)))"
  by (simp only: after_failures_def funpow_Suc_right comp_apply)

lemma retry_check_returns:
  assumes "retry_CheckPostURIFeature client pause x = Some y"
  shows "(\<exists>n. icCheckPostURIFeature client (after_failures client pause n x) = y) \<and> (\<forall>e. fst y \<noteq> Err e)"
proof (rule retry_CheckPostURIFeature.raw_induct
    [where xa = "((client, pause), x)", unfolded prod.case, OF _ assms])
  fix self :: "'a idp_client \<Rightarrow> ('a \<Rightarrow> 'a) \<Rightarrow> 'a \<Rightarrow> (bool result \<times> 'a) option"
    and client pause x y
  let ?P = "\<lambda>client pause x y.
    (\<exists>n. icCheckPostURIFeature client (after_failures client pause n x) = y) \<and> (\<forall>e. fst y \<noteq> Err e)"
  assume IH: "\<And>client pause x y. self client pause x = Some y \<Longrightarrow> ?P client pause x y"
    and body: "(case icCheckPostURIFeature client x of
        (Err e, y) \<Rightarrow> self client pause (pause y)
      | (Ok b, y) \<Rightarrow> Some (Ok b, y)
      | (Panic p, y) \<Rightarrow> Some (Panic p, y)) = Some y"
  obtain r t where r: "icCheckPostURIFeature client x = (r, t)" by (cases "icCheckPostURIFeature client x")
  show "?P client pause x y"
  proof (cases r)
    case (Err e)
    with body r have "self client pause (pause t) = Some y" by simp
    from IH [OF this] obtain n
      where "icCheckPostURIFeature client (after_failures client pause n (pause t)) = y"
        and ok: "\<forall>e. fst y \<noteq> Err e" by blast
    then have "icCheckPostURIFeature client (after_failures client pause (Suc n) x) = y"
      using r by (simp add: after_failures_Suc)
    with ok show ?thesis by blast
  qed (use body r in \<open>auto simp: after_failures_def intro!: exI [of _ 0]\<close>)
qed

lemma retry_check_terminates:
  "(\<forall>e. fst (icCheckPostURIFeature client (after_failures client pause n x)) \<noteq> Err e) \<Longrightarrow>
     \<exists>y. retry_CheckPostURIFeature client pause x = Some y"
proof (induction n arbitrary: x)
  case 0
  then show ?case
    by (subst retry_CheckPostURIFeature.simps) (auto simp: after_failures_def split: prod.splits result.splits)
next
  case (Suc n)
  then show ?case
    by (subst retry_CheckPostURIFeature.simps) (auto simp: after_failures_Suc split: prod.splits result.splits)
qed

text \<open>
  Asking whether the identity provider takes redirect URIs returns exactly if some request is
  not answered with an error, and then never returns an error but the answer to such a request.
\<close>

theorem feature_check_returns:
  "((\<exists>y. retry_CheckPostURIFeature client pause x = Some y) \<longleftrightarrow>
     (\<exists>n. \<forall>e. fst (icCheckPostURIFeature client (after_failures client pause n x)) \<noteq> Err e)) \<and>
   (retry_CheckPostURIFeature client pause x = Some y \<longrightarrow>
     (\<exists>n. icCheckPostURIFeature client (after_failures client pause n x) = y) \<and> (\<forall>e. fst y \<noteq> Err e))"
  using retry_check_returns [of client pause x] retry_check_terminates [of client pause _ x] by blast

text \<open>A provider that answers at the third request.\<close>

definition late_client :: "nat idp_client" where
  "late_client = \<lparr>icCheckPostURIFeature = (\<lambda>n. if n < 2 then (Err (PlainError ''refused''), Suc n)
     else (Ok True, Suc n)), icPostURI = (\<lambda>_. gret ())\<rparr>"

lemma feature_check_returns_witness:
  "\<exists>y. retry_CheckPostURIFeature late_client id 0 = Some y"
proof -
  have "after_failures late_client id (2 :: nat) 0 = 2"
    by (simp add: after_failures_def late_client_def numeral_2_eq_2)
  then have "\<forall>e. fst (icCheckPostURIFeature late_client (after_failures late_client id 2 0)) \<noteq> Err e"
    by (simp add: late_client_def)
  with feature_check_returns [of late_client id 0] show ?thesis by blast
qed

end
