(* ===== verification/SchemeValidator.thy ===== *)
theory SchemeValidator
  imports TenantLemmas
begin

text \<open>
  The validation of a tenant's scheme (\<open>domain/validator/schemevalidator.go\<close>): three checkers in a
  chain, each of which runs one function over every address of the tenant and records the verdict
  per site and service. The Go interface \<open>SchemeValidator\<close> is the locale \<open>scheme_validator\<close>.
\<close>

section \<open>Results\<close>

record validation_info =
  viValid :: bool
  viReason :: string

text \<open>
  \<open>ValidationResult\<close> is a map of maps that \<open>NewValidationResult\<close> and \<open>iterateOverTenant\<close> always
  allocate, so both levels are lists of entries.
\<close>

type_synonym validation_result = "(string \<times> (string \<times> validation_info) list) list"

definition NewValidationResult :: validation_result where
  "NewValidationResult = []"

definition site_infos :: "validation_result \<Rightarrow> string \<Rightarrow> (string \<times> validation_info) list" where
  "site_infos r site = (case map_of r site of Some m \<Rightarrow> m | None \<Rightarrow> [])"

definition info_at :: "validation_result \<Rightarrow> string \<Rightarrow> string \<Rightarrow> validation_info option" where
  "info_at r site service = map_of (site_infos r site) service"

definition set_info ::
  "string \<Rightarrow> string \<Rightarrow> validation_info \<Rightarrow> validation_result \<Rightarrow> validation_result" where
  "set_info site service info r =
     AList.update site (AList.update service info (site_infos r site)) r"

text \<open>A checking function: service, address, tenant, all tenants; an error is its message.\<close>

type_synonym url_check = "string \<Rightarrow> string \<Rightarrow> tenant_dns \<Rightarrow> tenant_dns list \<Rightarrow> string option"

definition check_address ::
  "url_check \<Rightarrow> tenant_dns \<Rightarrow> tenant_dns list \<Rightarrow> string \<Rightarrow> string \<Rightarrow>
     validation_result \<Rightarrow> address \<Rightarrow> validation_result" where
  "check_address f tenant data site service r a =
     (case f service (addr a) tenant data of
        Some err \<Rightarrow> set_info site service \<lparr>viValid = False, viReason = err\<rparr> r
      | None \<Rightarrow>
          (if info_at r site service = None
           then set_info site service \<lparr>viValid = True, viReason = []\<rparr> r else r))"

definition check_site ::
  "url_check \<Rightarrow> tenant_dns \<Rightarrow> tenant_dns list \<Rightarrow> validation_result \<Rightarrow>
     string \<times> services \<Rightarrow> validation_result" where
  "check_site f tenant data r = (\<lambda>(site, siteServices).
     let r' = (if map_of r site = None then AList.update site [] r else r) in
     foldl (\<lambda>r (service, addresses). foldl (check_address f tenant data site service) r addresses)
       r' (ments siteServices))"

definition iterateOverTenant ::
  "tenant_dns \<Rightarrow> tenant_dns list \<Rightarrow> validation_result \<Rightarrow> url_check \<Rightarrow> validation_result" where
  "iterateOverTenant tenant data result f = foldl (check_site f tenant data) result (ments (tSites tenant))"

section \<open>The checking functions\<close>

definition domain_char :: "char \<Rightarrow> bool" where
  "domain_char c \<longleftrightarrow> c = CHR ''-'' \<or> is_alnum c"

definition validatePart :: "string \<Rightarrow> bool \<Rightarrow> bool" where
  "validatePart part isLastPart \<longleftrightarrow>
     (if 1 \<le> length part \<and> length part \<le> 63 then
        (if \<not> list_all domain_char part then False
         else if CHR ''-'' \<noteq> hd part \<and> CHR ''-'' \<noteq> last part
         then \<not> isLastPart \<or> \<not> is_digit (hd part)
         else False)
      else False)"

definition validateUrl :: url_check where
  "validateUrl service url tenant data =
     (let urlToCheck = (if \<not> HasPrefix url httpProtocol \<and> \<not> HasPrefix url httpsProtocol
            then httpProtocol @ url else url) in
      case url_parse urlToCheck of
        None \<Rightarrow> Some ''Not a valid URL''
      | Some u \<Rightarrow>
          if uScheme u = [] \<or> uHost u = [] then Some ''Not a valid URL''
          else let parts = Split (uHost u) (CHR ''.'') in
            if 127 < length parts then Some ''Domain has too many parts''
            else if \<not> validatePart (last parts) True then Some ''Not a valid URL''
            else if list_ex (\<lambda>part. \<not> validatePart part False) (butlast parts)
            then Some ''Not a valid URL'' else None)"

definition trim_http :: "string \<Rightarrow> string" where
  "trim_http url = (if HasPrefix url httpProtocol then TrimPrefix url httpProtocol else url)"

definition duplication_check :: "string \<Rightarrow> string \<Rightarrow> url_check" where
  "duplication_check service urlToCheck = (\<lambda>internalService address tenant data.
     if trim_http address = urlToCheck \<and> internalService \<noteq> service
     then Some (''There are duplications in tenant scheme for address '' @ trim_http address)
     else None)"

text \<open>The first invalid service of the result, in the order of its maps, is reported.\<close>

definition invalid_services :: "validation_result \<Rightarrow> string list" where
  "invalid_services r =
     concat (map (\<lambda>(site, m). map fst (filter (\<lambda>(service, info). \<not> viValid info) m)) r)"

definition validateTenantDuplications :: url_check where
  "validateTenantDuplications service url tenant data =
     (case invalid_services (iterateOverTenant tenant [] NewValidationResult
         (duplication_check service (trim_http url))) of
        [] \<Rightarrow> None
      | other # _ \<Rightarrow> Some (''Matches with another service '' @ other @ '' in current tenant''))"

definition anyMatch :: "string \<Rightarrow> tenant_dns list \<Rightarrow> (string \<Rightarrow> string \<Rightarrow> bool) \<Rightarrow> string option" where
  "anyMatch tenantId data predicate =
     (case concat (map (\<lambda>tenantSites. if tTenantId tenantSites \<noteq> tenantId then
         concat (map (\<lambda>(site, siteServices). concat (map (\<lambda>(service, addresses).
           map (\<lambda>_. (service, tTenantId tenantSites))
             (filter (\<lambda>a. predicate service (addr a)) addresses))
           (ments siteServices))) (ments (tSites tenantSites))) else []) data) of
        [] \<Rightarrow> None
      | (service, tid) # _ \<Rightarrow>
          Some (''Matches with url for service '' @ service @ '' in tenant '' @ tid))"

definition validateSchemeDuplications :: url_check where
  "validateSchemeDuplications service url tenant data =
     (let urlToCheck = (if HasPrefix url httpProtocol then TrimPrefix url httpProtocol
            else if HasPrefix url httpsProtocol then TrimPrefix url httpsProtocol else url)
      in anyMatch (tTenantId tenant) data
           (\<lambda>internalService address. address = urlToCheck \<and> internalService \<noteq> service))"

section \<open>The chain of checkers\<close>

type_synonym checker = "tenant_dns \<Rightarrow> tenant_dns list \<Rightarrow> validation_result \<Rightarrow> validation_result"

definition run_next :: "checker option \<Rightarrow> checker" where
  "run_next next tenant data result =
     (case next of Some c \<Rightarrow> c tenant data result | None \<Rightarrow> result)"

definition urlChecker_Check :: "checker option \<Rightarrow> checker" where
  "urlChecker_Check next tenant data result =
     run_next next tenant data (iterateOverTenant tenant data result validateUrl)"

definition inTenantDuplicationChecker_Check :: "checker option \<Rightarrow> checker" where
  "inTenantDuplicationChecker_Check next tenant data result =
     run_next next tenant data (iterateOverTenant tenant data result validateTenantDuplications)"

definition inSchemeDuplicationChecker_Check :: "checker option \<Rightarrow> checker" where
  "inSchemeDuplicationChecker_Check next tenant data result =
     run_next next tenant data (iterateOverTenant tenant data result validateSchemeDuplications)"

definition NewSchemeValidator :: checker where
  "NewSchemeValidator =
     (let sdc = inSchemeDuplicationChecker_Check None;
          tdc = inTenantDuplicationChecker_Check (Some sdc)
      in urlChecker_Check (Some tdc))"

section \<open>One pass over the tenant\<close>

text \<open>What a pass makes of the verdict of one service: an error always overwrites.\<close>

definition verdict_step ::
  "(address \<Rightarrow> string option) \<Rightarrow> validation_info option \<Rightarrow> address \<Rightarrow> validation_info option" where
  "verdict_step g v a = (case g a of
       Some err \<Rightarrow> Some \<lparr>viValid = False, viReason = err\<rparr>
     | None \<Rightarrow> (case v of None \<Rightarrow> Some \<lparr>viValid = True, viReason = []\<rparr> | Some i \<Rightarrow> Some i))"

definition ok_so_far :: "validation_info option \<Rightarrow> bool" where
  "ok_so_far v = (case v of None \<Rightarrow> True | Some i \<Rightarrow> viValid i)"

lemma verdict_valid:
  "as \<noteq> [] \<Longrightarrow> \<exists>i. foldl (verdict_step g) v as = Some i \<and>
     (viValid i \<longleftrightarrow> ok_so_far v \<and> (\<forall>a \<in> set as. g a = None))"
proof (induction as rule: rev_induct)
  case (snoc a as)
  then show ?case
    by (cases "as = []") (auto simp: verdict_step_def ok_so_far_def split: option.splits)
qed simp

lemma info_at_set [simp]:
  "info_at (set_info site service i r) site' service' =
     (if site' = site \<and> service' = service then Some i else info_at r site' service')"
  by (simp add: info_at_def set_info_def site_infos_def)

lemma info_at_new_site [simp]:
  "map_of r site = None \<Longrightarrow> info_at (AList.update site [] r) site' service = info_at r site' service"
  by (simp add: info_at_def site_infos_def)

lemma info_at_addresses:
  "info_at (foldl (check_address f t data site service) r as) site' service' =
     (if site' = site \<and> service' = service
      then foldl (verdict_step (\<lambda>a. f service (addr a) t data)) (info_at r site service) as
      else info_at r site' service')"
proof (induction as arbitrary: r)
  case (Cons a as)
  have "info_at (check_address f t data site service r a) site' service' =
     (if site' = site \<and> service' = service
      then verdict_step (\<lambda>a. f service (addr a) t data) (info_at r site service) a
      else info_at r site' service')"
    by (auto simp: check_address_def verdict_step_def split: option.splits)
  with Cons [of "check_address f t data site service r a"] show ?case
    by (cases "site' = site \<and> service' = service") auto
qed simp

lemma foldl_by_key:
  assumes "distinct (map fst es)"
    and "\<And>r e. e \<in> set es \<Longrightarrow> obs (step r e) = (if fst e = k then g (snd e) (obs r) else obs r)"
  shows "obs (foldl step r es) = (case map_of es k of None \<Rightarrow> obs r | Some v \<Rightarrow> g v (obs r))"
  using assms
proof (induction es arbitrary: r)
  case (Cons e es)
  then have k: "fst e = k \<Longrightarrow> map_of es k = None" by (auto simp: map_of_eq_None_iff)
  have "obs (foldl step (step r e) es) =
      (case map_of es k of None \<Rightarrow> obs (step r e) | Some v \<Rightarrow> g v (obs (step r e)))"
    using Cons.prems by (intro Cons.IH) auto
  with k Cons.prems(2) [of e r] show ?case by (cases e) (auto split: option.split)
qed simp

lemma info_at_check_site:
  assumes "mwf (snd e)"
  shows "info_at (check_site f t data r e) site service =
     (if fst e = site then
        (case mlookup (snd e) service of None \<Rightarrow> info_at r site service
         | Some as \<Rightarrow> foldl (verdict_step (\<lambda>a. f service (addr a) t data)) (info_at r site service) as)
      else info_at r site service)"
proof -
  obtain s m where e: "e = (s, m)" by (cases e)
  let ?r = "if map_of r s = None then AList.update s [] r else r"
  let ?step = "\<lambda>r (service, addresses). foldl (check_address f t data s service) r addresses"
  have r: "info_at ?r site service = info_at r site service" by simp
  show ?thesis
  proof (cases "s = site")
    case True
    have "info_at (foldl ?step ?r (ments m)) site service =
        (case mlookup m service of None \<Rightarrow> info_at ?r site service
         | Some as \<Rightarrow> foldl (verdict_step (\<lambda>a. f service (addr a) t data)) (info_at ?r site service) as)"
      using assms e True
      by (intro foldl_by_key [where obs = "\<lambda>r. info_at r site service" and
            g = "\<lambda>as v. foldl (verdict_step (\<lambda>a. f service (addr a) t data)) v as"])
        (auto simp: mwf_def info_at_addresses)
    with True e r show ?thesis by (simp only: check_site_def Let_def prod.case fst_conv snd_conv if_True refl simp_thms)
  next
    case False
    have "info_at (foldl ?step r' es) site service = info_at r' site service" for r' es
      using False by (induction es arbitrary: r') (auto simp: info_at_addresses)
    with False e r show ?thesis by (simp add: check_site_def Let_def)
  qed
qed

lemma info_at_iterate:
  assumes "wf_scheme t"
  shows "info_at (iterateOverTenant t data r f) site service =
    (case addresses_at t site service of None \<Rightarrow> info_at r site service
     | Some as \<Rightarrow> foldl (verdict_step (\<lambda>a. f service (addr a) t data)) (info_at r site service) as)"
proof -
  have "info_at (foldl (check_site f t data) r (ments (tSites t))) site service =
      (case mlookup (tSites t) site of None \<Rightarrow> info_at r site service
       | Some m \<Rightarrow> (case mlookup m service of None \<Rightarrow> info_at r site service
           | Some as \<Rightarrow> foldl (verdict_step (\<lambda>a. f service (addr a) t data)) (info_at r site service) as))"
    using assms
    by (intro foldl_by_key [where obs = "\<lambda>r. info_at r site service" and
          g = "\<lambda>m v. case mlookup m service of None \<Rightarrow> v
            | Some as \<Rightarrow> foldl (verdict_step (\<lambda>a. f service (addr a) t data)) v as"])
      (auto simp: wf_scheme_def mwf_def [symmetric] info_at_check_site)
  then show ?thesis
    by (simp add: iterateOverTenant_def addresses_at_def split: option.split)
qed

section \<open>Results have distinct keys\<close>

definition wf_result :: "validation_result \<Rightarrow> bool" where
  "wf_result r \<longleftrightarrow> distinct (map fst r) \<and> (\<forall>m \<in> snd ` set r. distinct (map fst m))"

lemma wf_result_update:
  "wf_result r \<Longrightarrow> distinct (map fst m) \<Longrightarrow> wf_result (AList.update site m r)"
  by (auto simp: wf_result_def dest: in_update_alist)

lemma wf_site_infos: "wf_result r \<Longrightarrow> distinct (map fst (site_infos r site))"
  by (force simp: wf_result_def site_infos_def split: option.split dest: map_of_SomeD)

lemma wf_check_address: "wf_result r \<Longrightarrow> wf_result (check_address f t data site service r a)"
  by (auto simp: check_address_def set_info_def wf_result_update wf_site_infos distinct_update
      simp del: map_map split: option.split)

lemma foldl_invariant: "(\<And>r x. P r \<Longrightarrow> P (step r x)) \<Longrightarrow> P r \<Longrightarrow> P (foldl step r xs)"
  by (induction xs arbitrary: r) auto

lemma wf_check_site:
  assumes "wf_result r"
  shows "wf_result (check_site f t data r e)"
  using assms wf_result_update [of r "[]" "fst e"]
  by (auto simp: check_site_def Let_def split: prod.splits
      intro!: foldl_invariant [of wf_result] wf_check_address)

lemma wf_iterate: "wf_result r \<Longrightarrow> wf_result (iterateOverTenant t data r f)"
  unfolding iterateOverTenant_def by (rule foldl_invariant [of wf_result]) (rule wf_check_site)

lemma invalid_services_Nil:
  assumes "wf_result r"
  shows "invalid_services r = [] \<longleftrightarrow>
    (\<forall>site service i. info_at r site service = Some i \<longrightarrow> viValid i)"
proof -
  have "info_at r site service = Some i \<longleftrightarrow> (\<exists>m. (site, m) \<in> set r \<and> (service, i) \<in> set m)"
    for site service i
  proof (cases "map_of r site")
    case None
    then have "(site, m) \<notin> set r" for m by (force simp: map_of_eq_None_iff)
    with None show ?thesis by (simp add: info_at_def site_infos_def)
  next
    case (Some m)
    have "(site, m') \<in> set r \<longleftrightarrow> m' = m" for m'
      using assms Some map_of_eq_Some_iff [of r site m'] by (auto simp: wf_result_def)
    moreover have "distinct (map fst m)"
      using assms Some wf_site_infos [of r site] by (simp add: site_infos_def)
    ultimately show ?thesis using Some by (simp add: info_at_def site_infos_def)
  qed
  then show ?thesis
    unfolding invalid_services_def concat_map_pair_Nil
    by (simp add: filter_empty_conv split_beta) (metis fst_conv snd_conv surjective_pairing)
qed

lemma iterate_fresh_valid:
  assumes "wf_scheme t"
  shows "invalid_services (iterateOverTenant t data NewValidationResult f) = [] \<longleftrightarrow>
    (\<forall>site service as. addresses_at t site service = Some as \<longrightarrow>
       (\<forall>a \<in> set as. f service (addr a) t data = None))"
proof -
  let ?r = "iterateOverTenant t data NewValidationResult f"
  have wf: "wf_result ?r" by (intro wf_iterate) (simp add: NewValidationResult_def wf_result_def)
  have "(\<forall>i. info_at ?r site service = Some i \<longrightarrow> viValid i) \<longleftrightarrow>
      (\<forall>as. addresses_at t site service = Some as \<longrightarrow>
        (\<forall>a \<in> set as. f service (addr a) t data = None))" for site service
  proof -
    have none: "info_at NewValidationResult site service = None"
      by (simp add: info_at_def site_infos_def NewValidationResult_def)
    show ?thesis
    proof (cases "addresses_at t site service")
      case (Some as)
      then show ?thesis
        using verdict_valid [of as "\<lambda>a. f service (addr a) t data" None] none
        by (cases "as = []") (auto simp: info_at_iterate [OF assms] ok_so_far_def)
    qed (simp add: info_at_iterate [OF assms] none)
  qed
  then show ?thesis by (simp add: invalid_services_Nil [OF wf])
qed

section \<open>What the duplication checks accept\<close>

lemma validateTenantDuplications_None:
  assumes "wf_scheme t"
  shows "validateTenantDuplications service url t data = None \<longleftrightarrow>
    (\<forall>site service' as. addresses_at t site service' = Some as \<longrightarrow> service' \<noteq> service \<longrightarrow>
       (\<forall>a \<in> set as. trim_http (addr a) \<noteq> trim_http url))"
proof -
  have "validateTenantDuplications service url t data = None \<longleftrightarrow>
      invalid_services (iterateOverTenant t [] NewValidationResult
        (duplication_check service (trim_http url))) = []"
    by (simp add: validateTenantDuplications_def split: list.split)
  then show ?thesis
    unfolding iterate_fresh_valid [OF assms]
    by (simp add: duplication_check_def imp_conjL [symmetric]) blast
qed

definition trim_protocol :: "string \<Rightarrow> string" where
  "trim_protocol url = (if HasPrefix url httpProtocol then TrimPrefix url httpProtocol
     else if HasPrefix url httpsProtocol then TrimPrefix url httpsProtocol else url)"

definition holds_address :: "tenant_dns \<Rightarrow> string \<Rightarrow> address \<Rightarrow> bool" where
  "holds_address t service a \<longleftrightarrow>
     (\<exists>(site, services) \<in> set (ments (tSites t)). \<exists>(service', as) \<in> set (ments services).
        service' = service \<and> a \<in> set as)"

lemma anyMatch_None:
  "anyMatch tid data p = None \<longleftrightarrow>
     (\<forall>t \<in> set data. tTenantId t \<noteq> tid \<longrightarrow>
        (\<forall>service a. holds_address t service a \<longrightarrow> \<not> p service (addr a)))"
proof -
  let ?xs = "concat (map (\<lambda>tenantSites. if tTenantId tenantSites \<noteq> tid then
         concat (map (\<lambda>(site, siteServices). concat (map (\<lambda>(service, addresses).
           map (\<lambda>_. (service, tTenantId tenantSites)) (filter (\<lambda>a. p service (addr a)) addresses))
           (ments siteServices))) (ments (tSites tenantSites))) else []) data)"
  have "anyMatch tid data p = None \<longleftrightarrow> ?xs = []"
    unfolding anyMatch_def by (cases ?xs) (simp_all only: list.case list.distinct refl simp_thms split_beta option.distinct)
  also have "\<dots> \<longleftrightarrow> (\<forall>t \<in> set data. tTenantId t \<noteq> tid \<longrightarrow>
      (\<forall>site services. (site, services) \<in> set (ments (tSites t)) \<longrightarrow>
        (\<forall>service as. (service, as) \<in> set (ments services) \<longrightarrow>
           (\<forall>a \<in> set as. \<not> p service (addr a)))))"
    unfolding concat_map_Nil by (rule ball_cong [OF refl])
      (simp only: if_list_Nil concat_map_pair_Nil map_is_Nil_conv filter_empty_conv simp_thms)
  finally show ?thesis by (fastforce simp: holds_address_def)
qed

lemma validateSchemeDuplications_None:
  "validateSchemeDuplications service url t data = None \<longleftrightarrow>
     (\<forall>t' \<in> set data. tTenantId t' \<noteq> tTenantId t \<longrightarrow>
        (\<forall>service' a. holds_address t' service' a \<longrightarrow> service' \<noteq> service \<longrightarrow>
           addr a \<noteq> trim_protocol url))"
  by (auto simp: validateSchemeDuplications_def anyMatch_None trim_protocol_def Let_def)

section \<open>The interface and its checkers\<close>

text \<open>
  \<open>SchemeValidator\<close>: running \<open>check\<close> on a tenant turns the verdict of a service with addresses
  into one that is valid exactly if it was not invalid before and every address passes; the other
  verdicts stay as they were.
\<close>

locale scheme_validator =
  fixes check :: "tenant_dns \<Rightarrow> tenant_dns list \<Rightarrow> validation_result \<Rightarrow> validation_result"
    and passes :: "string \<Rightarrow> string \<Rightarrow> tenant_dns \<Rightarrow> tenant_dns list \<Rightarrow> bool"
  assumes check_info: "wf_scheme t \<Longrightarrow> addresses_at t site service = Some as \<Longrightarrow> as \<noteq> [] \<Longrightarrow>
      \<exists>i. info_at (check t data r) site service = Some i \<and>
        (viValid i \<longleftrightarrow> ok_so_far (info_at r site service) \<and>
          (\<forall>a \<in> set as. passes service (addr a) t data))"
    and check_frame: "wf_scheme t \<Longrightarrow> addresses_at t site service \<in> {None, Some []} \<Longrightarrow>
      info_at (check t data r) site service = info_at r site service"
begin

text \<open>A checker with function \<open>f\<close> before a validator is a validator of both conditions.\<close>

lemma chain_info:
  assumes "wf_scheme t" and "addresses_at t site service = Some as" and "as \<noteq> []"
  shows "\<exists>i. info_at (check t data (iterateOverTenant t data r f)) site service = Some i \<and>
    (viValid i \<longleftrightarrow> ok_so_far (info_at r site service) \<and>
      (\<forall>a \<in> set as. f service (addr a) t data = None \<and> passes service (addr a) t data))"
proof -
  obtain j where "info_at (iterateOverTenant t data r f) site service = Some j"
    and "viValid j \<longleftrightarrow> ok_so_far (info_at r site service) \<and>
      (\<forall>a \<in> set as. f service (addr a) t data = None)"
    using verdict_valid [OF assms(3), of "\<lambda>a. f service (addr a) t data"]
    by (fastforce simp: info_at_iterate [OF assms(1)] assms(2))
  with check_info [OF assms, of data "iterateOverTenant t data r f"] show ?thesis
    by (auto simp: ok_so_far_def)
qed

lemma chain_frame:
  assumes "wf_scheme t" and "addresses_at t site service \<in> {None, Some []}"
  shows "info_at (check t data (iterateOverTenant t data r f)) site service = info_at r site service"
  using check_frame [OF assms] assms by (auto simp: info_at_iterate)

lemma valid_iff_passes:
  assumes "wf_scheme t" and "addresses_at t site service = Some as" and "as \<noteq> []"
  shows "(\<exists>i. info_at (check t data NewValidationResult) site service = Some i \<and> viValid i) \<longleftrightarrow>
    (\<forall>a \<in> set as. passes service (addr a) t data)"
  using check_info [OF assms, of data NewValidationResult]
  by (auto simp: ok_so_far_def info_at_def site_infos_def NewValidationResult_def)

end

text \<open>The last checker of the chain, then each of the others in front of it.\<close>

definition scheme_passes :: "string \<Rightarrow> string \<Rightarrow> tenant_dns \<Rightarrow> tenant_dns list \<Rightarrow> bool" where
  "scheme_passes service url t data \<longleftrightarrow> validateSchemeDuplications service url t data = None"

definition tenant_passes :: "string \<Rightarrow> string \<Rightarrow> tenant_dns \<Rightarrow> tenant_dns list \<Rightarrow> bool" where
  "tenant_passes service url t data \<longleftrightarrow>
     validateTenantDuplications service url t data = None \<and> scheme_passes service url t data"

definition url_passes :: "string \<Rightarrow> string \<Rightarrow> tenant_dns \<Rightarrow> tenant_dns list \<Rightarrow> bool" where
  "url_passes service url t data \<longleftrightarrow>
     validateUrl service url t data = None \<and> tenant_passes service url t data"

interpretation sdc: scheme_validator "inSchemeDuplicationChecker_Check None" scheme_passes
proof
  fix t site service as data r
  assume *: "wf_scheme t" "addresses_at t site service = Some as" "as \<noteq> []"
  then show "\<exists>i. info_at (inSchemeDuplicationChecker_Check None t data r) site service = Some i \<and>
      (viValid i \<longleftrightarrow> ok_so_far (info_at r site service) \<and>
        (\<forall>a \<in> set as. scheme_passes service (addr a) t data))"
    using verdict_valid [OF *(3)]
    by (simp add: inSchemeDuplicationChecker_Check_def run_next_def info_at_iterate scheme_passes_def)
next
  fix t site service data r
  assume "wf_scheme t" "addresses_at t site service \<in> {None, Some []}"
  then show "info_at (inSchemeDuplicationChecker_Check None t data r) site service =
      info_at r site service"
    by (auto simp: inSchemeDuplicationChecker_Check_def run_next_def info_at_iterate)
qed

interpretation tdc: scheme_validator
  "inTenantDuplicationChecker_Check (Some (inSchemeDuplicationChecker_Check None))" tenant_passes
  unfolding inTenantDuplicationChecker_Check_def run_next_def tenant_passes_def option.case
  by unfold_locales (rule sdc.chain_info, assumption+, rule sdc.chain_frame, assumption+)

interpretation validator: scheme_validator NewSchemeValidator url_passes
  unfolding NewSchemeValidator_def Let_def urlChecker_Check_def run_next_def url_passes_def option.case
  by unfold_locales (rule tdc.chain_info, assumption+, rule tdc.chain_frame, assumption+)

section \<open>What a validated scheme guarantees\<close>

text \<open>A label of a domain: 1 to 63 letters, digits and dashes, no dash at either end.\<close>

definition domain_label :: "string \<Rightarrow> bool" where
  "domain_label l \<longleftrightarrow> 1 \<le> length l \<and> length l \<le> 63 \<and> list_all domain_char l \<and>
     hd l \<noteq> CHR ''-'' \<and> last l \<noteq> CHR ''-''"

definition domain_name :: "string \<Rightarrow> bool" where
  "domain_name h \<longleftrightarrow> length (Split h (CHR ''.'')) \<le> 127 \<and> list_all domain_label (Split h (CHR ''.'')) \<and>
     \<not> is_digit (hd (last (Split h (CHR ''.''))))"

lemma validatePart_label:
  "validatePart l isLast \<longleftrightarrow> domain_label l \<and> (isLast \<longrightarrow> \<not> is_digit (hd l))"
  by (auto simp: validatePart_def domain_label_def)

lemma list_all_butlast_last:
  "xs \<noteq> [] \<Longrightarrow> list_all P xs \<longleftrightarrow> list_all P (butlast xs) \<and> P (last xs)"
  by (cases xs rule: rev_cases) auto

lemma Split_chars: "c \<in> set s \<Longrightarrow> c = d \<or> (\<exists>p \<in> set (Split s d). c \<in> set p)"
  by (induction s) (auto split: list.splits)

lemma domain_name_not_Nil: "domain_name h \<Longrightarrow> h \<noteq> []"
  by (auto simp: domain_name_def domain_label_def)

lemma domain_name_chars: "domain_name h \<Longrightarrow> c \<in> set h \<Longrightarrow> c = CHR ''.'' \<or> domain_char c"
  using Split_chars [of c h "CHR ''.''"]
  by (auto simp: domain_name_def domain_label_def list_all_iff)

lemma validateUrl_None:
  "validateUrl service url t data = None \<longleftrightarrow>
     (\<exists>u. url_parse (if HasPrefix url httpProtocol \<or> HasPrefix url httpsProtocol then url
             else httpProtocol @ url) = Some u \<and> uScheme u \<noteq> [] \<and> domain_name (uHost u))"
proof -
  have parts: "\<not> 127 < length ps \<and> validatePart (last ps) True \<and>
        \<not> list_ex (\<lambda>p. \<not> validatePart p False) (butlast ps) \<longleftrightarrow>
      length ps \<le> 127 \<and> list_all domain_label ps \<and> \<not> is_digit (hd (last ps))" if "ps \<noteq> []" for ps
    unfolding list_all_butlast_last [OF that]
    by (auto simp: validatePart_label list_ex_iff list_all_iff)
  show ?thesis
  proof (cases "url_parse (if \<not> HasPrefix url httpProtocol \<and> \<not> HasPrefix url httpsProtocol
      then httpProtocol @ url else url)")
    case None
    then show ?thesis by (auto simp: validateUrl_def Let_def split: if_splits)
  next
    case (Some u)
    let ?ps = "Split (uHost u) (CHR ''.'')"
    from Some have "validateUrl service url t data = None \<longleftrightarrow>
        uScheme u \<noteq> [] \<and> uHost u \<noteq> [] \<and> \<not> 127 < length ?ps \<and> validatePart (last ?ps) True \<and>
        \<not> list_ex (\<lambda>p. \<not> validatePart p False) (butlast ?ps)"
      by (simp add: validateUrl_def Let_def)
    then have "validateUrl service url t data = None \<longleftrightarrow>
        uScheme u \<noteq> [] \<and> uHost u \<noteq> [] \<and> domain_name (uHost u)"
      unfolding domain_name_def parts [OF Split_not_Nil] .
    with Some show ?thesis using domain_name_not_Nil by (auto split: if_splits)
  qed
qed

text \<open>The host of an address, whichever protocol is put in front of a bare one.\<close>

lemma Host_http:
  "Host a = (case url_parse (if HasPrefix (addr a) httpProtocol \<or> HasPrefix (addr a) httpsProtocol
      then addr a else httpProtocol @ addr a) of None \<Rightarrow> [] | Some u \<Rightarrow> uHost u)"
proof -
  have "map_option uHost (url_parse (httpsProtocol @ s)) = map_option uHost (url_parse (httpProtocol @ s))"
    for s using url_parse_host [of "''https''" "''http''" s]
    by (simp add: http_scheme_def httpProtocol_def httpsProtocol_def)
  from this [of "addr a"] show ?thesis
    by (auto simp: Host_def with_protocol_def split: option.splits)
qed

text \<open>
  C12: An address that passes the URL check has a host that is a domain name: at most 127 labels of
  1 to 63 letters, digits and inner dashes, the last of which does not start with a digit; no port,
  no brackets, no percent sign. In particular flattening addresses to hosts is stable on it.
\<close>

theorem validated_host:
  assumes "validateUrl service (addr a) t data = None"
  shows "domain_name (Host a) \<and> length (Host a) \<le> 127 * 64 \<and> simple_host a \<and>
    Host (Address (Host a)) = Host a"
proof -
  from assms have dn: "domain_name (Host a)"
    by (auto simp: validateUrl_None Host_http split: option.split)
  have "CHR ''['' \<notin> set (Host a)" "CHR ''%'' \<notin> set (Host a)"
    using domain_name_chars [OF dn, of "CHR ''[''"] domain_name_chars [OF dn, of "CHR ''%''"]
    by (auto simp: domain_char_def is_alnum_def is_upper_def is_lower_def is_digit_def byte_def)
  then have s: "simple_host a" by (simp add: simple_host_def)
  have len: "length h + 1 \<le> (\<Sum>p\<leftarrow>Split h c. length p + 1)" for h c
    by (induction h) (auto split: list.splits)
  have "(\<Sum>p\<leftarrow>ps. length p + 1) \<le> length ps * 64" if "list_all domain_label ps" for ps
    using that by (induction ps) (auto simp: domain_label_def)
  with dn len [of "Host a" "CHR ''.''"] have "length (Host a) + 1 \<le> length (Split (Host a) (CHR ''.'')) * 64"
    unfolding domain_name_def using order_trans by blast
  moreover have "length (Split (Host a) (CHR ''.'')) * 64 \<le> 127 * 64"
    using dn by (simp add: domain_name_def)
  ultimately show ?thesis using dn s Host_Host [OF s] by simp
qed

lemma validated_host_witness:
  "Host (Address ''https://my-shop.example.com/a'') = ''my-shop.example.com'' \<and>
   domain_name (Host (Address ''https://my-shop.example.com/a''))"
proof -
  have "validateUrl ''s'' (addr (Address ''https://my-shop.example.com/a'')) sample_tenant [] = None"
    by code_simp
  from validated_host [OF this] show ?thesis by (simp, code_simp)
qed

text \<open>
  C11: In the result of the validator chain a service of the tenant is valid exactly if every one of
  its addresses has a domain name as host, no other service of the tenant holds the same address
  (up to \<open>http://\<close>), and no other service of another tenant holds the address without protocol.
\<close>

theorem validator_verdict:
  assumes "wf_scheme t" and "addresses_at t site service = Some as" and "as \<noteq> []"
  shows "(\<exists>i. info_at (NewSchemeValidator t data NewValidationResult) site service = Some i \<and> viValid i) \<longleftrightarrow>
    (\<forall>a \<in> set as. validateUrl service (addr a) t data = None \<and>
      (\<forall>site' service' bs. addresses_at t site' service' = Some bs \<longrightarrow> service' \<noteq> service \<longrightarrow>
         (\<forall>b \<in> set bs. trim_http (addr b) \<noteq> trim_http (addr a))) \<and>
      (\<forall>t' \<in> set data. tTenantId t' \<noteq> tTenantId t \<longrightarrow>
         (\<forall>service' b. holds_address t' service' b \<longrightarrow> service' \<noteq> service \<longrightarrow>
            addr b \<noteq> trim_protocol (addr a))))"
  unfolding validator.valid_iff_passes [OF assms] url_passes_def tenant_passes_def
    scheme_passes_def validateTenantDuplications_None [OF assms(1)] validateSchemeDuplications_None
  by blast

lemma validator_verdict_witness:
  "\<exists>i. info_at (NewSchemeValidator sample_tenant [] NewValidationResult) ''default'' ''shop'' = Some i \<and>
     viValid i"
proof -
  have wf: "wf_scheme sample_tenant" by (simp add: wf_scheme_def sample_tenant_def mwf_def)
  have as: "addresses_at sample_tenant ''default'' ''shop'' =
      Some [Address ''http://a.com/x'', Address ''b.com'']"
    by (simp add: addresses_at_def sample_tenant_def)
  have urls: "validateUrl ''shop'' ''http://a.com/x'' sample_tenant [] = None"
    "validateUrl ''shop'' ''b.com'' sample_tenant [] = None" by code_simp+
  have "trim_http (addr b) \<noteq> trim_http (addr a)"
    if "addresses_at sample_tenant site' service' = Some bs" "service' \<noteq> ''shop''" "b \<in> set bs"
      "a \<in> set [Address ''http://a.com/x'', Address ''b.com'']" for site' service' bs b a
    using that
    by (auto simp: addresses_at_def sample_tenant_def trim_http_def httpProtocol_def
        TrimPrefix_def split: if_splits)
  with urls show ?thesis
    unfolding validator_verdict [OF wf as list.distinct(2)] by simp
qed

end
