(* ===== verification/SyncUpsert.thy ===== *)
theory SyncUpsert
  imports Outbound Tm Idp SchemeValidator
begin

text \<open>
  The state of the synchronizer and its operations that change the stored schemes
  (\<open>synchronizer/synchronizer.go\<close>): the signal bus, generated hosts and service names, \<open>Upsert\<close> and
  the operations on one tenant. The state of the mediation client is the part \<open>yPm\<close>, whose rest is
  the outside world (the database, the servers); \<open>sync_env\<close> has the collaborators and settings.
\<close>

section \<open>State and environment\<close>

text \<open>\<open>yBus\<close> is the number of signals in the channel \<open>bus\<close>, whose capacity is 16.\<close>

record 'x sync_state =
  yPm :: "'x pm_state"
  yActive :: active_tenants
  yBus :: nat

text \<open>
  \<open>seUnprintable\<close>: the first rune of a string that \<open>unicode.IsPrint\<close> refuses, as \<open>%#U\<close> shows it, and
  its position. \<open>seStrings\<close>: \<open>json.Unmarshal\<close> of a list of strings. \<open>seRand\<close>: \<open>rand.Int\<close>.
  \<open>seNotify\<close>: the goroutine that sends a mail. \<open>seFuel\<close> bounds the search for a service name, which
  the source does not bound.
\<close>

record 'x sync_env =
  sePm :: "'x pm_env"
  seClient :: pm_client
  seTm :: "'x tm_env"
  seIdp :: "'x idp_client"
  seMail :: mail_sender
  seNotify :: "string \<Rightarrow> string \<Rightarrow> 'x \<Rightarrow> 'x"
  seProtocol :: string
  seDefaultDomainZone :: string
  sePlatformHostname :: string
  seCompositeSatellite :: bool
  seBaselineUrl :: string
  seUnmarshalServices :: "string \<Rightarrow> string + custom_service list"
  seStrings :: "string \<Rightarrow> string + string list"
  seUnprintable :: "string \<Rightarrow> (string \<times> nat) option"
  seRand :: "('x, int) go"
  seIdpServerAddr :: string
  seFuel :: nat

abbreviation sePg :: "'x sync_env \<Rightarrow> 'x pg_client" where "sePg e \<equiv> tePg (seTm e)"
abbreviation seHttp :: "'x sync_env \<Rightarrow> 'x http_env" where "seHttp e \<equiv> teHttp (seTm e)"
abbreviation own_namespace :: "'x sync_env \<Rightarrow> string" where "own_namespace e \<equiv> pcNamespace (seClient e)"

definition on_pm :: "('x pm_state, 'a) go \<Rightarrow> ('x sync_state, 'a) go" where
  "on_pm = gzoom yPm (\<lambda>c s. s\<lparr>yPm := c\<rparr>)"

definition on_world :: "('x, 'a) go \<Rightarrow> ('x sync_state, 'a) go" where
  "on_world m = on_pm (on_rest m)"

definition gresult :: "'a result \<Rightarrow> ('s, 'a) go" where
  "gresult r = (\<lambda>s. (r, s))"

text \<open>\<open>select\<close> with a default: the signal is dropped when the channel is full.\<close>

definition bus_capacity :: nat where "bus_capacity = 16"

definition Sync :: "('x sync_state, unit) go" where
  "Sync = gmodify (\<lambda>s. if yBus s < bus_capacity then s\<lparr>yBus := yBus s + 1\<rparr> else s)"

text \<open>The calls of the mediation client that the synchronizer makes.\<close>

definition s_GetRoutes :: "'x sync_env \<Rightarrow> string \<Rightarrow> ('x sync_state, route list) go" where
  "s_GetRoutes e namespace = on_pm (GetRoutes (sePm e) (seClient e) namespace)"

definition s_GetRoutesByFilter :: "'x sync_env \<Rightarrow> string \<Rightarrow> (route \<Rightarrow> bool) \<Rightarrow> ('x sync_state, route list) go" where
  "s_GetRoutesByFilter e namespace p = on_pm (GetRoutesByFilter (sePm e) (seClient e) namespace p)"

definition s_GetRoutesForNamespaces2 ::
  "'x sync_env \<Rightarrow> string list \<Rightarrow> (route \<Rightarrow> bool) \<Rightarrow> ('x sync_state, route list) go" where
  "s_GetRoutesForNamespaces2 e namespaces p =
     on_pm (GetRoutesForNamespaces2 (sePm e) (seClient e) namespaces p)"

definition s_GetServices2 :: "'x sync_env \<Rightarrow> string \<Rightarrow> (service \<Rightarrow> bool) \<Rightarrow> ('x sync_state, service list) go" where
  "s_GetServices2 e namespace p = on_pm (GetServices2 (sePm e) (seClient e) namespace p)"

section \<open>Generated hosts\<close>

text \<open>\<open>fmt.Sprintf\<close> with \<open>%v\<close> prints the message of the error.\<close>

definition GetPublicServices :: "'x sync_env \<Rightarrow> string list \<Rightarrow> ('x sync_state, service list) go" where
  "GetPublicServices e namespaces0 =
     (let namespaces = (if namespaces0 = [] then [own_namespace e] else namespaces0) in
      gfold namespaces [] (\<lambda>namespace result.
        gtry (s_GetServices2 e namespace (\<lambda>sv. mlookup (service_annotations sv) ann_prefix \<noteq> None)) (\<lambda>r. case r of
          Inl err \<Rightarrow> gerr (PlainError (''Error get service list: '' @ err_message err))
        | Inr raw \<Rightarrow> gret (result @ raw))))"

text \<open>
  The host of the generated URL: from the domain name, or from the first general route to the
  service; empty if there is none.
\<close>

definition service_url_host ::
  "'x sync_env \<Rightarrow> string \<Rightarrow> string list \<Rightarrow> service \<Rightarrow> ('x sync_state, string) go" where
  "service_url_host e domainName namespaces sv =
     (if domainName \<noteq> [] then gret (service_GetPrefix sv @ ''.'' @ domainName)
      else gbind (s_GetRoutesForNamespaces2 e namespaces
          (\<lambda>r. RouteIsGeneral r \<and> route_service r = service_name sv)) (\<lambda>routes.
        gret (case routes of r # _ \<Rightarrow> route_host r | [] \<Rightarrow> [])))"

definition generateRoutesForServices ::
  "'x sync_env \<Rightarrow> string \<Rightarrow> service list \<Rightarrow> string list \<Rightarrow> ('x sync_state, services) go" where
  "generateRoutesForServices e domainName publicServices namespaces =
     gbind (gfold publicServices [] (\<lambda>sv result.
       gbind (service_url_host e domainName namespaces sv) (\<lambda>host.
       gret (AList.update (service_name sv)
         (if host \<noteq> [] then [Address (url_string (seProtocol e) host)] else [Address []]) result))))
     (\<lambda>result. gret (GoMap result))"

definition generateShoppingRoute :: "'x sync_env \<Rightarrow> string \<Rightarrow> string \<Rightarrow> address_list" where
  "generateShoppingRoute e domainName tenantName =
     (let host = (if domainName \<noteq> [] then domainName
            else if seDefaultDomainZone e \<noteq> [] then tenantName @ ''.'' @ seDefaultDomainZone e
            else tenantName @ ''.'' @ sePlatformHostname e)
      in [Address (url_string (seProtocol e) host)])"

definition shoppingFrontendName :: string where "shoppingFrontendName = ''shopping-frontend''"

text \<open>\<open>m[site]\<close> of a map of maps: a missing key gives a nil map.\<close>

definition site_at :: "sites \<Rightarrow> string \<Rightarrow> services" where
  "site_at sites site = (case mlookup sites site of Some m \<Rightarrow> m | None \<Rightarrow> NilMap)"

definition set_sites :: "(sites, unit) go \<Rightarrow> tenant_dns \<Rightarrow> ('s, tenant_dns) go" where
  "set_sites m data = (case m (tSites data) of
       (Ok _, sites) \<Rightarrow> gret (data\<lparr>tSites := sites\<rparr>)
     | (Err err, _) \<Rightarrow> gerr err
     | (Panic p, _) \<Rightarrow> gpanic p)"

definition put_site :: "string \<Rightarrow> services \<Rightarrow> (sites, unit) go" where
  "put_site site services = (\<lambda>m. case mput site services m of
       Ok m' \<Rightarrow> (Ok (), m') | Err err \<Rightarrow> (Err err, m) | Panic p \<Rightarrow> (Panic p, m))"

text \<open>Nothing happens if the old tenant is not found.\<close>

definition generateNewUrlsForServicesIfNecessary ::
  "'x sync_env \<Rightarrow> tenant_dns \<Rightarrow> ('x sync_state, tenant_dns) go" where
  "generateNewUrlsForServicesIfNecessary e data =
     (if \<not> tActive data \<and> mlookup (tSites data) default_site \<noteq> None then
        gtry (on_world (FindByTenantId (sePg e) (tTenantId data))) (\<lambda>r. case r of
          Inl err \<Rightarrow> gret data
        | Inr oldTenant \<Rightarrow>
            if tDomainName oldTenant \<noteq> tDomainName data \<or> tTenantName oldTenant \<noteq> tTenantName data then
              let namespaces = appendElemIfNotExists (tNamespaces data) (own_namespace e) in
              gbind (if tDomainName oldTenant \<noteq> tDomainName data then
                  gbind (GetPublicServices e namespaces) (\<lambda>publicServices.
                  gbind (generateRoutesForServices e (tDomainName data) publicServices namespaces) (\<lambda>services.
                  set_sites (put_site default_site services) data))
                else gret data) (\<lambda>data.
              if mlookup (site_at (tSites data) default_site) shoppingFrontendName \<noteq> None then
                set_sites (put_in_site default_site shoppingFrontendName
                  (generateShoppingRoute e (tDomainName data) (tTenantName data))) data
              else gret data)
            else gret data)
      else gret data)"

section \<open>Composite namespaces\<close>

definition getConfigMapsForNamespaces ::
  "'x sync_env \<Rightarrow> string list \<Rightarrow> ('x sync_state, (string \<times> configmap) list) go" where
  "getConfigMapsForNamespaces e namespaces =
     gfold namespaces [] (\<lambda>namespace configmaps.
       gbind (on_pm (GetConfigMaps2 (sePm e) (seClient e) namespace
           (\<lambda>cm. cmName (cfMetadata cm) = ProjectTypeConfigMapName))) (\<lambda>found.
       case found of
         [] \<Rightarrow> gerr (PlainError (''Config map '' @ ProjectTypeConfigMapName @
           '' was not found for namespacae '' @ namespace))
       | cm # _ \<Rightarrow> gret (AList.update namespace cm configmaps)))"

text \<open>
  The own namespace is removed from the slice while it is ranged over. The slice variable is local,
  but its array is the one of the caller's \<open>Namespaces\<close>, whose length does not change: the second
  component is what the caller's slice holds afterwards.
\<close>

definition getCompositeNamespaceForTenant ::
  "'x sync_env \<Rightarrow> tenant_dns \<Rightarrow> ('x sync_state, composite_namespace \<times> string list) go" where
  "getCompositeNamespaceForTenant e data =
     (let sl = remove_while_ranging (\<lambda>namespace. namespace = own_namespace e) (tNamespaces data);
          namespaces = sview sl
      in gbind (case namespaces of
            [] \<Rightarrow> gret None
          | [namespace] \<Rightarrow> gret (Some (CompositeNamespace None namespace))
          | _ \<Rightarrow> gbind (getConfigMapsForNamespaces e namespaces) (\<lambda>configmaps.
              gbind (from_sum (resolveChildForNamespace (own_namespace e) configmaps)) (\<lambda>child.
              gret (Some child))))
         (\<lambda>childNameSpace. gret (CompositeNamespace childNameSpace (own_namespace e), fst sl)))"

section \<open>General routes are not stored\<close>

text \<open>
  The loop over the addresses of one service: the variable \<open>addresses\<close> gets shorter, in an array
  that the map still refers to with the old length; the service is deleted when an address matches
  while the variable has length one.
\<close>

fun filter_addresses ::
  "(address \<Rightarrow> bool) \<Rightarrow> nat list \<Rightarrow> address slice \<times> bool \<Rightarrow> address slice \<times> bool" where
  "filter_addresses general [] st = st"
| "filter_addresses general (i # is) (addresses, deleted) =
     filter_addresses general is
       (if general (fst addresses ! i)
        then (if snd addresses = 1 then (addresses, True) else (sremove i addresses, deleted))
        else (addresses, deleted))"

definition filter_service :: "(address \<Rightarrow> bool) \<Rightarrow> address_list \<Rightarrow> address_list option" where
  "filter_service general addresses =
     (case filter_addresses general [0..<length addresses] (slice_of addresses, False) of
        (sl, deleted) \<Rightarrow> if deleted then None else Some (fst sl))"

definition filter_services :: "(address \<Rightarrow> bool) \<Rightarrow> services \<Rightarrow> services" where
  "filter_services general siteServices = (case siteServices of
       NilMap \<Rightarrow> NilMap
     | GoMap es \<Rightarrow> GoMap (concat (map (\<lambda>(service, addresses). case filter_service general addresses of
         None \<Rightarrow> [] | Some addresses' \<Rightarrow> [(service, addresses')]) es)))"

definition filterGeneralRoutes :: "'x sync_env \<Rightarrow> tenant_dns \<Rightarrow> ('x sync_state, tenant_dns) go" where
  "filterGeneralRoutes e data =
     (let namespaces = appendElemIfNotExists (tNamespaces data) (own_namespace e) in
      gbind (gfold namespaces [] (\<lambda>namespace generalRoutes.
        gbind (s_GetRoutesByFilter e namespace RouteIsGeneral) (\<lambda>rs. gret (generalRoutes @ rs))))
      (\<lambda>generalRoutes. gret (data\<lparr>tSites := mmap (\<lambda>site siteServices.
        filter_services (\<lambda>a. hostBelongsToRoutes (ToLower (Host a)) generalRoutes) siteServices)
        (tSites data)\<rparr>)))"

section \<open>Service names\<close>

definition nameMaxLength :: nat where "nameMaxLength = 63"
definition tenantPrefix :: string where "tenantPrefix = ''tenant-''"

definition serviceNameAlreadyExists :: "'x sync_env \<Rightarrow> string \<Rightarrow> ('x sync_state, bool) go" where
  "serviceNameAlreadyExists e serviceName =
     gbind (s_GetServices2 e (own_namespace e) (\<lambda>sv. service_name sv = serviceName)) (\<lambda>services.
     gret (services \<noteq> []))"

text \<open>
  The next candidate. The counter is declared in the loop body, so it is always 1. \<open>optionalPart\<close>
  is the tenant name until it has been shortened once.
\<close>

definition next_service_name ::
  "'x sync_env \<Rightarrow> string \<Rightarrow> string \<Rightarrow> string \<Rightarrow> ('x sync_state, string \<times> string) go" where
  "next_service_name e tenantName optionalPart serviceName =
     (if length (serviceName @ Itoa 1) \<le> nameMaxLength then gret (optionalPart, serviceName @ Itoa 1)
      else let optionalPart' = (if nameMaxLength div 2 < length tenantName
             then take (nameMaxLength div 2) tenantName else optionalPart) in
        gbind (on_world (seRand e)) (\<lambda>n. gret (optionalPart', take nameMaxLength (optionalPart' @ Itoa n))))"

fun unique_name_loop ::
  "nat \<Rightarrow> 'x sync_env \<Rightarrow> string \<Rightarrow> string \<Rightarrow> string \<Rightarrow> ('x sync_state, string) go" where
  "unique_name_loop 0 e tenantName optionalPart serviceName = gpanic ''out of fuel''"
| "unique_name_loop (Suc n) e tenantName optionalPart serviceName =
     gbind (serviceNameAlreadyExists e serviceName) (\<lambda>exists.
     if \<not> exists then gret serviceName
     else gbind (next_service_name e tenantName optionalPart serviceName) (\<lambda>(optionalPart', serviceName').
       unique_name_loop n e tenantName optionalPart' serviceName'))"

definition generateUniqueServiceName :: "'x sync_env \<Rightarrow> string \<Rightarrow> ('x sync_state, string) go" where
  "generateUniqueServiceName e tenantName =
     unique_name_loop (seFuel e) e tenantName tenantName (take nameMaxLength (tenantPrefix @ tenantName))"

definition changeServiceNameIfExists ::
  "'x sync_env \<Rightarrow> string \<Rightarrow> string \<Rightarrow> string \<Rightarrow> tenant_dns \<Rightarrow> ('s, tenant_dns) go" where
  "changeServiceNameIfExists e from to site tenant =
     (case seUnprintable e to of
        Some (runeValue, index) \<Rightarrow> gerr (PlainError (''Passed tenant serviceName '' @ to @
          '' is incorrect. It contains a forbidden symbol '' @ runeValue @ '' at byte position '' @
          Itoa (int index) @ ''.''))
      | None \<Rightarrow> (case mlookup (site_at (tSites tenant) site) from of
          None \<Rightarrow> gret tenant
        | Some service \<Rightarrow> set_sites (put_in_site site to service) (delete_service_at site from tenant)))"

section \<open>Upsert\<close>

definition CheckCollisions :: "'x sync_env \<Rightarrow> tenant_dns \<Rightarrow> ('x sync_state, validation_result) go" where
  "CheckCollisions e data =
     gbind (on_world (FindAll (sePg e))) (\<lambda>scheme.
     gret (NewSchemeValidator data scheme NewValidationResult))"

text \<open>The part of \<open>Upsert\<close> that gives the shopping frontend the service name of the tenant.\<close>

definition name_shopping_service ::
  "'x sync_env \<Rightarrow> tenant_dns \<Rightarrow> tenant_dns \<Rightarrow> string \<Rightarrow> ('x sync_state, tenant_dns) go" where
  "name_shopping_service e data filteredData site =
     gbind (if tServiceName data = [] then
         gtry (on_world (FindByTenantId (sePg e) (tTenantId filteredData))) (\<lambda>r.
         case r of
           Inr scheme \<Rightarrow> if tServiceName scheme \<noteq> [] then gret (tServiceName scheme)
             else generateUniqueServiceName e (tTenantName filteredData)
         | Inl err \<Rightarrow> generateUniqueServiceName e (tTenantName filteredData))
       else gret (tServiceName filteredData)) (\<lambda>name.
     changeServiceNameIfExists e shoppingFrontendName name site (filteredData\<lparr>tServiceName := name\<rparr>))"

text \<open>The result of the check for collisions is not looked at, only its error.\<close>

definition prepare_upsert :: "'x sync_env \<Rightarrow> tenant_dns \<Rightarrow> ('x sync_state, tenant_dns) go" where
  "prepare_upsert e data0 =
     gbind (getCompositeNamespaceForTenant e data0) (\<lambda>(_, namespaces).
     gbind (generateNewUrlsForServicesIfNecessary e (data0\<lparr>tNamespaces := namespaces\<rparr>)) (\<lambda>data.
     gbind (filterGeneralRoutes e data) (\<lambda>filteredData.
     gbind (case checkIfServiceExists shoppingFrontendName filteredData of (site, exists) \<Rightarrow>
         if exists then name_shopping_service e data filteredData site else gret filteredData) (\<lambda>filteredData.
     gbind (CheckCollisions e filteredData) (\<lambda>_. gret filteredData)))))"

definition Upsert :: "'x sync_env \<Rightarrow> tenant_dns \<Rightarrow> ('x sync_state, unit) go" where
  "Upsert e data =
     gbind (prepare_upsert e data) (\<lambda>filteredData.
     gbind (on_world (dao_Upsert (sePg e) filteredData)) (\<lambda>_. Sync))"

section \<open>Operations on one tenant\<close>

text \<open>What both deletions share: a tenant that is not found is no error.\<close>

definition update_and_sync :: "'x sync_env \<Rightarrow> string \<Rightarrow> (tenant_dns \<Rightarrow> tenant_dns) \<Rightarrow> ('x sync_state, unit) go" where
  "update_and_sync e tenantId f =
     gtry (on_world (FindByTenantId (sePg e) tenantId)) (\<lambda>r. case r of
       Inl (TenantNotFoundError m) \<Rightarrow> gret ()
     | Inl err \<Rightarrow> gerr err
     | Inr tenant \<Rightarrow> gbind (on_world (dao_Upsert (sePg e) (f tenant))) (\<lambda>_. Sync))"

definition DeleteTenant :: "'x sync_env \<Rightarrow> string \<Rightarrow> ('x sync_state, unit) go" where
  "DeleteTenant e tenantId = update_and_sync e tenantId (\<lambda>t. t\<lparr>tSites := mempty, tRemoved := True\<rparr>)"

definition DeleteRoutes :: "'x sync_env \<Rightarrow> string \<Rightarrow> ('x sync_state, unit) go" where
  "DeleteRoutes e tenantId = update_and_sync e tenantId (\<lambda>t. t\<lparr>tSites := mempty\<rparr>)"

definition ChangeTenantStatus :: "'x sync_env \<Rightarrow> string \<Rightarrow> bool \<Rightarrow> ('x sync_state, unit) go" where
  "ChangeTenantStatus e tenantId active =
     gbind (on_world (FindByTenantId (sePg e) tenantId)) (\<lambda>tenant. Upsert e (tenant\<lparr>tActive := active\<rparr>))"

definition actualizeTenantStatus ::
  "'x sync_env \<Rightarrow> tenant_dns \<Rightarrow> bool \<Rightarrow> ('x sync_state, tenant_dns) go" where
  "actualizeTenantStatus e tenant active =
     (if tActive tenant \<noteq> active
      then gbind (ChangeTenantStatus e (tTenantId tenant) active) (\<lambda>_. gret (tenant\<lparr>tActive := active\<rparr>))
      else gret tenant)"

definition RegisterTenant :: "'x sync_env \<Rightarrow> tm_tenant \<Rightarrow> ('x sync_state, unit) go" where
  "RegisterTenant e tenant =
     (let namespaces = (if tmNamespace tenant \<noteq> [] then Split (tmNamespace tenant) (CHR '','') else [])
      in on_world (SaveTenant (sePg e) (zero_tenant\<lparr>tTenantId := tmObjectId tenant,
        tNamespaces := namespaces, tTenantName := tmTenantName tenant\<rparr>)))"

definition GetServiceName :: "'x sync_env \<Rightarrow> string \<Rightarrow> ('x sync_state, string) go" where
  "GetServiceName e externalId =
     gbind (on_world (GetTenantByExternalId (seTm e) externalId)) (\<lambda>tenantData.
     gbind (on_world (FindByTenantId (sePg e) (tmObjectId tenantData))) (\<lambda>tenant0.
     gbind (actualizeTenantStatus e tenant0 (tmStatus tenantData = Active)) (\<lambda>tenant.
     if tServiceName tenant = [] then
       gbind (generateUniqueServiceName e (tTenantName tenant)) (\<lambda>serviceName.
       gbind (on_world (dao_Upsert (sePg e) (tenant\<lparr>tServiceName := serviceName\<rparr>))) (\<lambda>_.
       gret serviceName))
     else gret (tServiceName tenant))))"

text \<open>
  The start of the service: the stored schemes are built from the routes unless that was done before.
  An error of the tenant manager is ignored.
\<close>

definition getScheme :: "'x sync_env \<Rightarrow> ('x sync_state, tenant_dns list) go" where
  "getScheme e = gbind (s_GetRoutesByFilter e (own_namespace e) IsRouteManageable) (\<lambda>manageableRoutes.
     gret (FromRoutes manageableRoutes))"

definition buildSchemeIfRequired :: "'x sync_env \<Rightarrow> ('x sync_state, unit) go" where
  "buildSchemeIfRequired e =
     gtry (on_world (FindInitInformation (sePg e))) (\<lambda>r. case r of
       Inr _ \<Rightarrow> gret ()
     | Inl _ \<Rightarrow>
         gbind (getScheme e) (\<lambda>scheme.
         gbind (gfor scheme (\<lambda>tenant.
           gbind (if tTenantName tenant = [] then
               gtry (on_world (GetTenantByObjectId (seTm e) (tTenantId tenant))) (\<lambda>q. case q of
                 Inl _ \<Rightarrow> gret tenant
               | Inr tenantData \<Rightarrow> gret (tenant\<lparr>tTenantName := tmTenantName tenantData,
                   tServiceName := (if tServiceName tenant = [] then tmServiceName tenantData
                     else tServiceName tenant)\<rparr>))
             else gret tenant) (\<lambda>tenant. on_world (dao_Upsert (sePg e) tenant)))) (\<lambda>_.
         on_world (SetInitInformation (sePg e) True))))"

end
