(* ===== verification/SyncPass.thy ===== *)
theory SyncPass
  imports SyncUpsert
begin

text \<open>
  The synchronization of the platform with the stored schemes (\<open>synchronizer/synchronizer.go\<close>,
  \<open>processSynchronization\<close> and what it calls): routes that no active tenant accounts for are deleted,
  tenants flagged as removed are deleted from the database, missing routes are created and the
  administrators of the tenants that changed are told.
\<close>

section \<open>Does a service exist\<close>

text \<open>The child is searched first; the name of the namespace that has the service, or empty.\<close>

fun findServiceInNamespaces ::
  "'x sync_env \<Rightarrow> string \<Rightarrow> composite_namespace \<Rightarrow> ('x sync_state, string) go" where
  "findServiceInNamespaces e service (CompositeNamespace child namespace) =
     gbind (case child of
         Some c \<Rightarrow> findServiceInNamespaces e service c
       | None \<Rightarrow> gret []) (\<lambda>found.
     if found \<noteq> [] then gret found
     else gbind (s_GetServices2 e namespace (\<lambda>sv. service_name sv = service)) (\<lambda>services.
       gret (if services \<noteq> [] then namespace else [])))"

definition serviceTimeout :: nat where "serviceTimeout = 20000"
definition timeout_step :: nat where "timeout_step = 2000"

text \<open>
  The loop of \<open>isServiceInNamespace\<close>, with \<open>n\<close> iterations left. The variable \<open>namespace\<close> is assigned
  the result of each search, so after a failed one it is empty, and so is the argument of the
  cache's initialisation. \<open>previous\<close> is what the last search gave.
\<close>

fun service_loop ::
  "nat \<Rightarrow> 'x sync_env \<Rightarrow> string \<Rightarrow> string \<Rightarrow> go_error + string \<Rightarrow> ('x sync_state, go_error + string) go" where
  "service_loop 0 e service namespace previous = gret previous"
| "service_loop (Suc n) e service namespace previous =
     gtry (findServiceInNamespaces e service (CompositeNamespace None namespace)) (\<lambda>r.
     let found = (case r of Inr ns \<Rightarrow> ns | Inl _ \<Rightarrow> []) in
     if found \<noteq> [] then gret r
     else gbind (on_pm (InitServicesMapInCache (sePm e) (seClient e) found)) (\<lambda>_.
       gbind (on_pm (gmodify (peIdle (sePm e)))) (\<lambda>_. service_loop n e service found r)))"

definition isServiceInNamespace :: "'x sync_env \<Rightarrow> string \<Rightarrow> string \<Rightarrow> ('x sync_state, unit) go" where
  "isServiceInNamespace e service namespace =
     gbind (service_loop (serviceTimeout div timeout_step) e service namespace (Inr namespace)) (\<lambda>r. case r of
       Inl err \<Rightarrow> gerr err
     | Inr found \<Rightarrow> if found \<noteq> [] then gret ()
         else gerr (PlainError (''Service '' @ service @ '' was'' @ [CHR ''n'', CHR 0x27] @
           ''t found in namespace: '' @ found)))"

section \<open>The phases of a pass\<close>

text \<open>An error is logged.\<close>

definition ignoring :: "('s, 'a) go \<Rightarrow> ('s, unit) go" where
  "ignoring m = gtry m (\<lambda>_. gret ())"

definition is_stale :: "tenant_dns list \<Rightarrow> route \<Rightarrow> bool" where
  "is_stale allSettings r \<longleftrightarrow> \<not> RouteIsGeneral r \<and> \<not> hostBelongsToActiveTenant (route_host r) allSettings"

definition delete_stale_routes ::
  "'x sync_env \<Rightarrow> tenant_dns list \<Rightarrow> route list \<Rightarrow> ('x sync_state, unit) go" where
  "delete_stale_routes e allSettings manageableRoutes =
     gfor manageableRoutes (\<lambda>r. if is_stale allSettings r
       then ignoring (on_pm (DeleteRoute (sePm e) (seClient e) r)) else gret ())"

definition deleteRemovedTenants :: "'x sync_env \<Rightarrow> tenant_dns list \<Rightarrow> ('x sync_state, unit) go" where
  "deleteRemovedTenants e tenants = gfor tenants (\<lambda>tenant.
     if tRemoved tenant then ignoring (on_world (DeleteIfRemoved (sePg e) (tTenantId tenant))) else gret ())"

definition refreshSettings :: "'x sync_env \<Rightarrow> tenant_dns list \<Rightarrow> ('x sync_state, tenant_dns list) go" where
  "refreshSettings e snapshot = gtry (on_world (FindAll (sePg e))) (\<lambda>r. case r of
       Inl err \<Rightarrow> gret snapshot | Inr fresh \<Rightarrow> gret fresh)"

text \<open>The map of changed tenants is the accumulator.\<close>

definition create_route_if_missing ::
  "'x sync_env \<Rightarrow> tenant_dns \<Rightarrow> string \<Rightarrow> address \<Rightarrow> (string \<times> tenant_dns) list \<Rightarrow>
     ('x sync_state, (string \<times> tenant_dns) list) go" where
  "create_route_if_missing e tenantSites service a changedTenants =
     gtry (isServiceInNamespace e service (own_namespace e)) (\<lambda>found. case found of
       Inl err \<Rightarrow> gret changedTenants
     | Inr _ \<Rightarrow> gtry (s_GetRoutes e (own_namespace e)) (\<lambda>r. case r of
         Inl err \<Rightarrow> gret changedTenants
       | Inr currentNamespaceRoutes \<Rightarrow>
           if \<not> isHostPresentInOpenshiftRoutes a service currentNamespaceRoutes
           then gbind (ignoring (on_pm (CreateRoute (sePm e) (seClient e) (ToRoute tenantSites service a)
               (own_namespace e)))) (\<lambda>_.
             gret (AList.update (tTenantId tenantSites) tenantSites changedTenants))
           else gret changedTenants))"

definition create_missing_routes ::
  "'x sync_env \<Rightarrow> tenant_dns list \<Rightarrow> ('x sync_state, (string \<times> tenant_dns) list) go" where
  "create_missing_routes e allSettings =
     gfold allSettings [] (\<lambda>tenantSites changed.
       if tActive tenantSites then
         gfold (ments (tSites tenantSites)) changed (\<lambda>(site, siteServices) changed.
           gfold (ments siteServices) changed (\<lambda>(service, addresses) changed.
             gfold addresses changed (\<lambda>a changed. create_route_if_missing e tenantSites service a changed)))
       else gret changed)"

text \<open>The first error ends the pass, without an error.\<close>

fun notify_tenants :: "'x sync_env \<Rightarrow> (string \<times> tenant_dns) list \<Rightarrow> ('x sync_state, unit) go" where
  "notify_tenants e [] = gret ()"
| "notify_tenants e ((_, tenant) # rest) =
     (let namespaces = appendElemIfNotExists (tNamespaces tenant) (own_namespace e) in
      gtry (s_GetRoutesForNamespaces2 e namespaces RouteIsGeneral) (\<lambda>r. case r of
        Inl err \<Rightarrow> gret ()
      | Inr commonRoutes \<Rightarrow>
          gbind (on_world (gmodify (seNotify e (tTenantAdmin tenant)
            (GenerateTextForTenantUpdate (seMail e) tenant commonRoutes)))) (\<lambda>_.
          notify_tenants e rest)))"

definition processSynchronization :: "'x sync_env \<Rightarrow> ('x sync_state, unit) go" where
  "processSynchronization e =
     gbind (on_world (FindAll (sePg e))) (\<lambda>allSettings.
     gbind (s_GetRoutesForNamespaces2 e (appendElemIfNotExists
         (getAllNamespacesFromTenants (own_namespace e) allSettings) (own_namespace e)) IsRouteManageable)
       (\<lambda>manageableRoutes.
     gbind (delete_stale_routes e allSettings manageableRoutes) (\<lambda>_.
     gbind (deleteRemovedTenants e allSettings) (\<lambda>_.
     gbind (refreshSettings e allSettings) (\<lambda>allSettings.
     gbind (create_missing_routes e allSettings) (\<lambda>changedTenants.
     notify_tenants e changedTenants))))))"

text \<open>
  One turn of the goroutine that waits for signals: it takes one from the channel and runs a pass,
  whose error is logged. With an empty channel it waits.
\<close>

definition sync_turn :: "'x sync_env \<Rightarrow> ('x sync_state, unit) go" where
  "sync_turn e = (\<lambda>s. if yBus s = 0 then (Ok (), s)
     else ignoring (processSynchronization e) (s\<lparr>yBus := yBus s - 1\<rparr>))"

end
