(* ===== verification/VirtualServices.thy ===== *)
theory VirtualServices
  imports SyncUpsert
begin

text \<open>
  Virtual services (\<open>synchronizer/synchronizer.go\<close>): a service object and a general route that give
  an existing service a second name, kept consistent with the hosts stored in the tenants. Also
  \<open>AwaitAction\<close>, which makes a change wait until the caches have been updated.
\<close>

section \<open>Telling the identity provider\<close>

text \<open>
  The condition is \<open>err != nil && response.StatusCode() != 204\<close>: a response is never looked at, and
  after an error there is none.
\<close>

definition forceUpdateIDPRouteCache :: "'x sync_env \<Rightarrow> ('x sync_state, unit) go" where
  "forceUpdateIDPRouteCache e =
     gtry (on_world (DoRetryRequest (seHttp e) ''POST'' (seIdpServerAddr e @ ''/auth/actions/frontend'') []))
       (\<lambda>r. case r of
         Inr response \<Rightarrow> gret ()
       | Inl err \<Rightarrow> gpanic ''invalid memory address or nil pointer dereference'')"

section \<open>The three operations\<close>

definition bad_request :: "string \<Rightarrow> go_error" where "bad_request msg = ErrorWrapper 400 msg"

definition CreateVirtualService :: "'x sync_env \<Rightarrow> service_registration \<Rightarrow> ('x sync_state, unit) go" where
  "CreateVirtualService e serviceReq =
     (let namespace = own_namespace e;
          r = registration_ToRoute serviceReq (sePlatformHostname e) namespace
      in case IsRouteValid r namespace of (msg, valid) \<Rightarrow>
         if \<not> valid then gerr (bad_request msg)
         else gbind (on_pm (CreateService (sePm e) (seClient e) (ToService serviceReq) namespace)) (\<lambda>_.
           gbind (on_pm (CreateRoute (sePm e) (seClient e) r namespace)) (\<lambda>r'.
           gbind (forceUpdateIDPRouteCache e) (\<lambda>_.
           on_world (AddRouteToTenants (sePg e) (route_host r') (srVirtualService serviceReq))))))"

text \<open>
  The general route is updated or created and stored in the tenants if there is no route to the
  service; otherwise every route to it gets the registered port and annotations.
\<close>

definition UpdateOrCreateVirtualService ::
  "'x sync_env \<Rightarrow> service_registration \<Rightarrow> ('x sync_state, unit) go" where
  "UpdateOrCreateVirtualService e serviceReq =
     (let namespace = own_namespace e; serviceName = srVirtualService serviceReq;
          r = registration_ToRoute serviceReq (sePlatformHostname e) namespace
      in case IsRouteValid r namespace of (msg, valid) \<Rightarrow>
         if \<not> valid then gerr (bad_request msg)
         else gbind (s_GetServices2 e namespace
             (\<lambda>sv. \<not> IsVirtual (svMetadata sv) \<and> service_name sv = serviceName)) (\<lambda>services.
           if services \<noteq> [] then gerr (ErrorWrapper 403 (''Service '' @ serviceName @
             '' found, but service is not virtual''))
           else gbind (on_pm (UpdateOrCreateService (sePm e) (seClient e) (ToService serviceReq) namespace)) (\<lambda>_.
           gbind (s_GetRoutesByFilter e namespace (\<lambda>r. route_service r = serviceName)) (\<lambda>routesToUpdate.
           case routesToUpdate of
             [] \<Rightarrow> gbind (on_pm (UpdateOrCreateRoute (sePm e) (seClient e) r namespace)) (\<lambda>r'.
                gbind (forceUpdateIDPRouteCache e) (\<lambda>_.
                on_world (AddRouteToTenants (sePg e) (route_host r') serviceName)))
           | r0 # _ \<Rightarrow>
               if route_host r \<noteq> route_host r0
               then gerr (ErrorWrapper 403 (''Can'' @ [CHR 0x27] @ ''t update host field. Host field is immutable''))
               else gfor routesToUpdate (\<lambda>routeToUpdate. gbind (on_pm (UpdateOrCreateRoute (sePm e)
                 (seClient e) (MergeRoute routeToUpdate r) namespace)) (\<lambda>_. gret ()))))))"

definition DeleteVirtualService :: "'x sync_env \<Rightarrow> string \<Rightarrow> ('x sync_state, unit) go" where
  "DeleteVirtualService e serviceName =
     (let namespace = own_namespace e in
      gbind (s_GetServices2 e namespace
        (\<lambda>sv. IsVirtual (svMetadata sv) \<and> service_name sv = serviceName)) (\<lambda>services.
      if services = [] then gerr (ErrorWrapper 404 (''Virtual service '' @ serviceName @ '' not found''))
      else gbind (on_pm (DeleteService (sePm e) (seClient e) serviceName namespace)) (\<lambda>_.
        gbind (s_GetRoutesByFilter e namespace (\<lambda>r. route_service r = serviceName)) (\<lambda>routesToDelete.
        gbind (gfor routesToDelete (\<lambda>r. on_pm (DeleteRoute (sePm e) (seClient e) r))) (\<lambda>_.
        on_world (DeleteRouteFromTenants (sePg e) serviceName))))))"

section \<open>Waiting for the caches\<close>

definition action_timeout :: nat where "action_timeout = 180000"
definition action_step :: "nat" where "action_step = 2000"

text \<open>
  \<open>last_update\<close> is the time of the last update of the caches, as the clock counts it. \<open>n\<close> is the
  number of looks at it that are left.
\<close>

fun await_update ::
  "nat \<Rightarrow> 'x sync_env \<Rightarrow> ('x pm_state \<Rightarrow> int) \<Rightarrow> int \<Rightarrow> ('x sync_state, bool) go" where
  "await_update 0 e last_update before = gret False"
| "await_update (Suc n) e last_update before =
     gbind (gget (\<lambda>s. before < last_update (yPm s))) (\<lambda>updated.
     if updated then gret True
     else gbind (on_pm (gmodify (peIdle (sePm e)))) (\<lambda>_. await_update n e last_update before))"

definition AwaitAction ::
  "'x sync_env \<Rightarrow> ('x pm_state \<Rightarrow> int) \<Rightarrow> bool \<Rightarrow> ('x sync_state, unit) go \<Rightarrow> ('x sync_state, unit) go" where
  "AwaitAction e last_update async f =
     gbind (gget (\<lambda>s. last_update (yPm s))) (\<lambda>before.
     gtry f (\<lambda>res.
     if async then from_sum res
     else gbind (await_update (action_timeout div action_step) e last_update before) (\<lambda>updated.
       if updated then from_sum res
       else gerr (PlainError ''Timeout for synchronization was exceeded''))))"

end
