(* ===== verification/SyncQueries.thy ===== *)
theory SyncQueries
  imports SyncUpsert
begin

text \<open>
  The queries of the synchronizer (\<open>synchronizer/synchronizer.go\<close>): the services of a tenant with
  their URLs, the scheme of one tenant or of all, the hosts of the realms and what is sent to the
  identity provider, and the calls that follow the tenant manager in a composite platform.
\<close>

section \<open>Services with their URLs\<close>

definition resolveField ::
  "'x sync_env \<Rightarrow> string \<Rightarrow> string \<Rightarrow> (service \<Rightarrow> string) \<Rightarrow> string \<Rightarrow> string list \<Rightarrow>
     ('x sync_state, string) go" where
  "resolveField e serviceName fromRoute fromService defaultValue namespaces =
     (if fromRoute \<noteq> [] then gret fromRoute
      else gbind (on_pm (GetServicesForNamespaces2 (sePm e) (seClient e) namespaces
          (\<lambda>sv. service_name sv = serviceName))) (\<lambda>services.
        gret (case services of
            [] \<Rightarrow> defaultValue
          | sv # _ \<Rightarrow> if fromService sv \<noteq> [] then fromService sv else defaultValue)))"

text \<open>The pattern of \<open>strings.Replace\<close> is replaced from left to right, without overlaps.\<close>

definition resolveCustomServiceUrl ::
  "'x sync_env \<Rightarrow> route \<Rightarrow> string \<Rightarrow> string list \<Rightarrow> ('x sync_state, string) go" where
  "resolveCustomServiceUrl e r protocol0 namespaces =
     (let protocol = (if protocol0 = [] then seProtocol e else protocol0) in
      gbind (resolveField e (route_service r) (GetServiceSuffix r) service_GetSuffix [] namespaces) (\<lambda>suffix.
      let path = TrimPrefix (ReplaceAll (rsPath (rtSpec r) @ ''/'' @ suffix) ''//'' ''/'') ''/''
      in gret (protocol @ ''://'' @ route_host r @ ''/'' @ path)))"

definition buildCustomServiceFromRoute ::
  "'x sync_env \<Rightarrow> route \<Rightarrow> string \<Rightarrow> string list \<Rightarrow> ('x sync_state, custom_service) go" where
  "buildCustomServiceFromRoute e r protocol namespaces =
     gbind (resolveField e (route_service r) (GetServiceId r []) service_GetId (route_service r) namespaces) (\<lambda>i.
     gbind (resolveField e (route_service r) (PaasDomain.GetServiceName r) service_GetShowName (route_name r) namespaces)
       (\<lambda>serviceName.
     gbind (resolveCustomServiceUrl e r protocol namespaces) (\<lambda>url.
     gbind (resolveField e (route_service r) (GetServiceDescription r) service_GetDescription [] namespaces)
       (\<lambda>description.
     gret \<lparr>csId = i, csName = serviceName, csURL = url, csDescription = description\<rparr>))))"

definition rename_shopping :: "custom_service \<Rightarrow> custom_service" where
  "rename_shopping sv = (if csId sv = shoppingFrontendName
     then sv\<lparr>csName := ''Shopping Catalogue'', csDescription := ''Market for your customers''\<rparr> else sv)"

definition buildCustomServicesFromRoutes ::
  "'x sync_env \<Rightarrow> route list \<Rightarrow> string \<Rightarrow> string list \<Rightarrow> ('x sync_state, custom_service list) go" where
  "buildCustomServicesFromRoutes e routes protocol namespaces =
     gbind (gfold (filterRoutes routes) [] (\<lambda>r services.
       gbind (buildCustomServiceFromRoute e r protocol namespaces) (\<lambda>sv. gret (services @ [sv]))))
     (\<lambda>services. gret (map rename_shopping services))"

section \<open>Annotated routes\<close>

definition generateDefaultRoutes ::
  "'x sync_env \<Rightarrow> string \<Rightarrow> string \<Rightarrow> string list \<Rightarrow> ('x sync_state, services) go" where
  "generateDefaultRoutes e domainName tenantName namespaces0 =
     (let namespaces = appendElemIfNotExists namespaces0 (own_namespace e) in
      gbind (GetPublicServices e namespaces) (\<lambda>publicServices.
      generateRoutesForServices e domainName publicServices namespaces))"

definition add_missing_services :: "services \<Rightarrow> services \<Rightarrow> services result" where
  "add_missing_services generated inner =
     fst (gfold (ments generated) inner (\<lambda>(service, addressList) m.
       if mlookup m service = None then gresult (mput service addressList m) else gret m) ())"

definition mergeDatabaseRoutesWithGenerated ::
  "'x sync_env \<Rightarrow> tenant_dns \<Rightarrow> string \<Rightarrow> ('x sync_state, tenant_dns) go" where
  "mergeDatabaseRoutesWithGenerated e scheme site =
     gbind (generateDefaultRoutes e (tDomainName scheme) (tTenantName scheme) (tNamespaces scheme)) (\<lambda>services.
     let sites = or_empty (tSites scheme) in
     case mlookup sites site of
       None \<Rightarrow> gret (scheme\<lparr>tSites := GoMap (AList.update site services (ments sites))\<rparr>)
     | Some inner \<Rightarrow> gbind (gresult (add_missing_services services inner)) (\<lambda>inner'.
         gret (scheme\<lparr>tSites := GoMap (AList.update site inner' (ments sites))\<rparr>)))"

text \<open>The id is a pointer, nil if the request has none.\<close>

record tenant_data =
  tdTenantId :: "string option"
  tdTenantName :: string
  tdProtocol :: string
  tdSite :: string
  tdIgnoreMissing :: bool
  tdRoutes :: "custom_service list"

text \<open>
  \<open>GetAnnotatedRoutes\<close> writes to the map of sites of the scheme it is given: it keeps only the site
  asked for, with generated services added and the one named like the tenant removed. The first
  component is what that map holds afterwards (a nil map stays nil), whatever the outcome.
\<close>

definition annotated_routes ::
  "'x sync_env \<Rightarrow> tenant_data \<Rightarrow> tenant_dns \<Rightarrow>
     ('x sync_state, sites \<times> (go_error + custom_service list)) go" where
  "annotated_routes e data scheme0 =
     gtry (if tActive scheme0 then gret scheme0
         else mergeDatabaseRoutesWithGenerated e scheme0 (tdSite data)) (\<lambda>merged. case merged of
       Inl err \<Rightarrow> gret (tSites scheme0, Inl err)
     | Inr scheme1 \<Rightarrow>
         let scheme2 = FilterBySite scheme1 (tdSite data);
             scheme = (if tServiceName scheme2 \<noteq> []
               then delete_service_at (tdSite data) (tServiceName scheme2) scheme2 else scheme2);
             seen = (if tSites scheme0 = NilMap then NilMap else tSites scheme);
             namespaces = appendElemIfNotExists (tNamespaces scheme) (own_namespace e)
         in gtry (gbind (s_GetRoutesForNamespaces2 e namespaces RouteIsGeneral) (\<lambda>routes.
              buildCustomServicesFromRoutes e (AppendToRoutes scheme routes) (tdProtocol data) namespaces))
            (\<lambda>r. gret (seen, r)))"

definition GetAnnotatedRoutes ::
  "'x sync_env \<Rightarrow> tenant_data \<Rightarrow> tenant_dns \<Rightarrow> ('x sync_state, custom_service list) go" where
  "GetAnnotatedRoutes e data scheme =
     gbind (annotated_routes e data scheme) (\<lambda>(_, r). from_sum r)"

text \<open>
  A pointer that is nil is dereferenced first. When the tenant is not found by its id, it is looked
  for by the external id; the scheme that comes with a second failure has only its id.
\<close>

definition GetAnnotatedRoutesForTenant ::
  "'x sync_env \<Rightarrow> tenant_data \<Rightarrow> ('x sync_state, custom_service list) go" where
  "GetAnnotatedRoutesForTenant e data = (case tdTenantId data of
       None \<Rightarrow> gpanic ''invalid memory address or nil pointer dereference''
     | Some tenantId \<Rightarrow>
         gbind (gtry (on_world (FindByTenantId (sePg e) tenantId)) (\<lambda>r. case r of
             Inr scheme \<Rightarrow> gret (Inr scheme, [])
           | Inl _ \<Rightarrow> gtry (on_world (GetTenantByExternalId (seTm e) tenantId)) (\<lambda>q. case q of
               Inl err \<Rightarrow> gret (Inl err, [])
             | Inr tenantData \<Rightarrow>
                 gtry (on_world (FindByTenantId (sePg e) (tmObjectId tenantData))) (\<lambda>f.
                 let scheme = (case f of Inr t \<Rightarrow> t
                       | Inl _ \<Rightarrow> zero_tenant\<lparr>tTenantId := tmObjectId tenantData\<rparr>)
                 in gbind (actualizeTenantStatus e scheme (tmStatus tenantData = Active)) (\<lambda>scheme'.
                    gret (case f of Inr _ \<Rightarrow> Inr scheme' | Inl err \<Rightarrow> Inl err, tmTenantName tenantData)))))) (\<lambda>(found, tenantName).
         case found of
           Inr scheme \<Rightarrow> if tActive scheme \<or> tdIgnoreMissing data then GetAnnotatedRoutes e data scheme
             else gerr (NewTenantIsNotActiveError tenantId)
         | Inl err \<Rightarrow> if tdIgnoreMissing data
             then GetAnnotatedRoutes e data (zero_tenant\<lparr>tTenantId := tenantId, tTenantName := tenantName\<rparr>)
             else gerr err))"

text \<open>
  In the bulk request the schemes are copies of the loaded ones that share their maps of sites, so
  a later entry for the same tenant sees what an earlier one did to them.
\<close>

definition bulk_entry ::
  "'x sync_env \<Rightarrow> tenant_data \<Rightarrow> tenant_data list \<times> tenant_dns list \<Rightarrow>
     ('x sync_state, tenant_data list \<times> tenant_dns list) go" where
  "bulk_entry e tenantData = (\<lambda>(done, allTenants).
     let tenantScheme = (case rev (filter (\<lambda>t. tdTenantId tenantData = Some (tTenantId t)) allTenants) of
           t # _ \<Rightarrow> t | [] \<Rightarrow> zero_tenant)
     in if tTenantId tenantScheme \<noteq> [] \<and> tActive tenantScheme \<or> tdIgnoreMissing tenantData then
          gbind (annotated_routes e tenantData tenantScheme) (\<lambda>(seen, r).
          let allTenants' = map (\<lambda>t. if tdTenantId tenantData = Some (tTenantId t) \<and> t = tenantScheme
                then t\<lparr>tSites := seen\<rparr> else t) allTenants
          in gret (done @ [case r of Inl _ \<Rightarrow> tenantData | Inr routes \<Rightarrow> tenantData\<lparr>tdRoutes := routes\<rparr>],
               allTenants'))
        else gret (done @ [tenantData], allTenants))"

definition GetAnnotatedRoutesBulk ::
  "'x sync_env \<Rightarrow> tenant_data list \<Rightarrow> ('x sync_state, tenant_data list) go" where
  "GetAnnotatedRoutesBulk e data =
     gbind (on_world (FindAll (sePg e))) (\<lambda>allTenants.
     gbind (gfold data ([], allTenants) (bulk_entry e)) (\<lambda>(done, _). gret done))"

definition getIdentityProviderRoute ::
  "'x sync_env \<Rightarrow> tenant_data \<Rightarrow> custom_service list \<Rightarrow> ('x sync_state, custom_service list) go" where
  "getIdentityProviderRoute e data services =
     (let pgwUrl = (case filter (\<lambda>sv. csId sv = PublicGatewayServiceId) services of
           sv # _ \<Rightarrow> csURL sv | [] \<Rightarrow> [])
      in if seCompositeSatellite e then (case tdTenantId data of
            None \<Rightarrow> gpanic ''invalid memory address or nil pointer dereference''
          | Some tenantId \<Rightarrow> gtry (on_world (baseline_GetIdpRoute (seHttp e) (seUnmarshalServices e)
                (seBaselineUrl e) tenantId (tdProtocol data) (tdSite data) (tdIgnoreMissing data))) (\<lambda>r. case r of
              Inl err \<Rightarrow> gerr (PlainError (''could not load baseline idp route: '' @ err_message err))
            | Inr baselineIdpRoute \<Rightarrow> gret baselineIdpRoute))
         else gret [\<lparr>csId = IdentityProviderId, csName = ''Identity Provider'', csURL = pgwUrl,
           csDescription = ''URL to access Identity Provider API''\<rparr>])"

definition GetIdpRouteForTenant :: "'x sync_env \<Rightarrow> tenant_data \<Rightarrow> ('x sync_state, custom_service list) go" where
  "GetIdpRouteForTenant e data =
     gbind (GetAnnotatedRoutesForTenant e data) (\<lambda>routes. getIdentityProviderRoute e data routes)"

section \<open>Schemes\<close>

definition FindAllWithGeneral :: "'x sync_env \<Rightarrow> bool \<Rightarrow> ('x sync_state, tenant_dns list) go" where
  "FindAllWithGeneral e mergeGeneral =
     gbind (on_world (FindAll (sePg e))) (\<lambda>scheme.
     let namespaces = appendElemIfNotExists (getAllNamespacesFromTenants (own_namespace e) scheme)
           (own_namespace e)
     in gbind (s_GetRoutesForNamespaces2 e namespaces RouteIsGeneral) (\<lambda>generalRoutes.
        if mergeGeneral then
          gfold scheme [] (\<lambda>tenant merged.
            gbind (gresult (MergeDatabaseSchemeWithGeneralRoutes tenant generalRoutes)) (\<lambda>t.
            gret (merged @ [t])))
        else gret scheme))"

definition sync_FindAll :: "'x sync_env \<Rightarrow> ('x sync_state, tenant_dns list) go" where
  "sync_FindAll e = FindAllWithGeneral e True"

text \<open>The services of the default scheme: the host of each URL under the id of its service.\<close>

definition services_of_routes :: "custom_service list \<Rightarrow> ('s, services) go" where
  "services_of_routes routes = gbind (gfold routes [] (\<lambda>r services.
       case url_parse (csURL r) of
         None \<Rightarrow> gerr (PlainError (''parse '' @ csURL r))
       | Some address \<Rightarrow> gret (AList.update (csId r) [Address (uHost address)] services)))
     (\<lambda>services. gret (GoMap services))"

definition default_scheme_for ::
  "'x sync_env \<Rightarrow> string \<Rightarrow> string \<Rightarrow> tenant_dns \<Rightarrow> ('x sync_state, tenant_dns) go" where
  "default_scheme_for e tenantId tenantSite0 scheme0 =
     (let tenantSite = (if tenantSite0 = [] then default_site else tenantSite0) in
      gbind (if tTenantName scheme0 = [] then
          gbind (on_world (GetTenantByObjectId (seTm e) tenantId)) (\<lambda>tenant.
          gret (scheme0\<lparr>tTenantName := tmTenantName tenant\<rparr>))
        else gret scheme0) (\<lambda>scheme.
      gbind (GetAnnotatedRoutesForTenant e \<lparr>tdTenantId = Some tenantId, tdTenantName = tTenantName scheme,
          tdProtocol = seProtocol e, tdSite = tenantSite, tdIgnoreMissing = True, tdRoutes = []\<rparr>) (\<lambda>routes.
      gbind (services_of_routes routes) (\<lambda>services.
      gret (scheme\<lparr>tSites := GoMap [(tenantSite, services)]\<rparr>)))))"

definition sync_FindByTenantId ::
  "'x sync_env \<Rightarrow> string \<Rightarrow> string \<Rightarrow> bool \<Rightarrow> bool \<Rightarrow> ('x sync_state, tenant_dns) go" where
  "sync_FindByTenantId e tenantId tenantSite mergeGeneral generateDefault =
     gbind (on_world (FindByTenantId (sePg e) tenantId)) (\<lambda>scheme0.
     let scheme = (if tenantSite \<noteq> [] then FilterBySite scheme0 tenantSite else scheme0) in
     if ments (tSites scheme) = [] \<and> generateDefault then default_scheme_for e tenantId tenantSite scheme
     else if mergeGeneral then
       let namespaces = appendElemIfNotExists (tNamespaces scheme) (own_namespace e) in
       gbind (s_GetRoutesForNamespaces2 e namespaces RouteIsGeneral) (\<lambda>generalRoutes.
       gresult (MergeDatabaseSchemeWithGeneralRoutes scheme generalRoutes))
     else gret scheme)"

definition FindByExternalTenantId ::
  "'x sync_env \<Rightarrow> string \<Rightarrow> string \<Rightarrow> bool \<Rightarrow> bool \<Rightarrow> ('x sync_state, tenant_dns) go" where
  "FindByExternalTenantId e externalId tenantSite mergeGeneral generateDefault =
     gbind (on_world (GetTenantByExternalId (seTm e) externalId)) (\<lambda>tenantData.
     gbind (sync_FindByTenantId e (tmObjectId tenantData) tenantSite mergeGeneral generateDefault) (\<lambda>tenant.
     actualizeTenantStatus e tenant (tmStatus tenantData = Active)))"

definition GetSite :: "'x sync_env \<Rightarrow> string \<Rightarrow> string \<Rightarrow> bool \<Rightarrow> bool \<Rightarrow> ('x sync_state, string) go" where
  "GetSite e externalId url mergeGeneral generateDefault =
     gbind (FindByExternalTenantId e externalId [] mergeGeneral generateDefault) (\<lambda>tenant.
     gret (extractSiteByHost (tSites tenant) url))"

section \<open>Routes of the platform\<close>

text \<open>\<open>params[key][0]\<close>, which panics for an empty list of values.\<close>

definition first_param :: "(string, string list) gomap \<Rightarrow> string \<Rightarrow> ('s, string option) go" where
  "first_param params key = (case mlookup params key of
       None \<Rightarrow> gret None
     | Some [] \<Rightarrow> gpanic ''index out of range [0] with length 0''
     | Some (v # _) \<Rightarrow> gret (Some v))"

definition given :: "string option \<Rightarrow> bool" where
  "given v \<longleftrightarrow> v \<noteq> None \<and> v \<noteq> Some []"

definition GetOpenShiftRoutes ::
  "'x sync_env \<Rightarrow> (string, string list) gomap \<Rightarrow> ('x sync_state, route list) go" where
  "GetOpenShiftRoutes e params =
     (let all = (\<lambda>namespaces. on_pm (GetRoutesForNamespaces (sePm e) (seClient e) namespaces)) in
      gbind (first_param params ''namespace'') (\<lambda>namespace.
      if given namespace then all [the namespace]
      else gbind (first_param params ''name'') (\<lambda>name.
      if given name then
        let namespaces = (case mlookup params ''namespaces'' of Some ns \<Rightarrow> ns | None \<Rightarrow> [own_namespace e])
        in s_GetRoutesForNamespaces2 e namespaces (\<lambda>r. route_name r = the name)
      else gbind (first_param params ''namespaces'') (\<lambda>namespaces.
      if given namespaces then all (Split (the namespaces) (CHR '',''))
      else s_GetRoutes e (own_namespace e)))))"

definition GetPAASHostsWithTenantID :: "'x sync_env \<Rightarrow> string \<Rightarrow> ('x sync_state, string list) go" where
  "GetPAASHostsWithTenantID e externalId =
     wrapped (gbind (s_GetRoutesByFilter e (own_namespace e) (RouteHasTenantId externalId)) (\<lambda>routes.
       gret (map route_host routes)))"

section \<open>Realms\<close>

definition GetRealm :: "'x sync_env \<Rightarrow> string \<Rightarrow> ('x sync_state, string list) go" where
  "GetRealm e realmId =
     gbind (on_world (FindByTenantId (sePg e) realmId)) (\<lambda>scheme.
     let hosts = map Host (all_addresses scheme);
         namespaces = appendElemIfNotExists (tNamespaces scheme) (own_namespace e)
     in gfold namespaces hosts (\<lambda>namespace routes.
          gbind (s_GetRoutesByFilter e namespace RouteIsGeneral) (\<lambda>generalRoutes.
          gret (routes @ map route_host generalRoutes))))"

definition appendCommonExternalRoutes :: "'x sync_env \<Rightarrow> string list \<Rightarrow> ('x sync_state, string list) go" where
  "appendCommonExternalRoutes e commonRoutes =
     gbind (on_pm (GetConfigMaps2 (sePm e) (seClient e) (own_namespace e)
         (\<lambda>cm. cmName (cfMetadata cm) = TMConfigsConfigmapName))) (\<lambda>configmaps.
     case configmaps of
       [] \<Rightarrow> gret commonRoutes
     | cm # _ \<Rightarrow>
         let configmapData = cmExternalRoutes (cfData cm) in
         if configmapData \<noteq> [] then (case seStrings e configmapData of
             Inl m \<Rightarrow> gerr (PlainError m)
           | Inr externalRoutes \<Rightarrow> gret (commonRoutes @ externalRoutes))
         else gret commonRoutes)"

definition common_or_own :: "string \<Rightarrow> route \<Rightarrow> bool" where
  "common_or_own tenantObjectId r \<longleftrightarrow> GetTenantId r = tenantObjectId \<or> GetTenantId r = GENERAL"

definition appendTenantExternalRoutes ::
  "'x sync_env \<Rightarrow> (string \<times> string list) list \<Rightarrow> ('x sync_state, (string \<times> string list) list) go" where
  "appendTenantExternalRoutes e tenantRoutes =
     gfold tenantRoutes tenantRoutes (\<lambda>(tenantObjectId, routes) acc.
       gtry (on_world (GetTenantByObjectId (seTm e) tenantObjectId)) (\<lambda>r. case r of
         Inl err \<Rightarrow> if err = ErrTenantNotFound then gret acc else gerr err
       | Inr tenant \<Rightarrow>
           gbind (gfold (filter (\<lambda>namespace. namespace \<noteq> []) (Split (tmNamespace tenant) (CHR '',''))) routes
             (\<lambda>namespace routes. gbind (s_GetRoutes e namespace) (\<lambda>namespaceRoutes.
               gret (foldl appendElemIfNotExists routes
                 (map route_host (filter (common_or_own tenantObjectId) namespaceRoutes))))))
           (\<lambda>routes'. gret (AList.update tenantObjectId routes' acc))))"

record realm =
  rlRealmId :: string
  rlRoutes :: "string list"

definition getRealms :: "'x sync_env \<Rightarrow> ('x sync_state, string list \<times> realm list) go" where
  "getRealms e =
     gbind (s_GetRoutes e (own_namespace e)) (\<lambda>routes.
     let (commonRoutes0, tenantsRoutes0) = getTenantRoutesFromOpenshiftRoutes routes in
     gbind (appendCommonExternalRoutes e commonRoutes0) (\<lambda>commonRoutes.
     gbind (appendTenantExternalRoutes e tenantsRoutes0) (\<lambda>tenantsRoutes.
     gbind (gget yActive) (\<lambda>active.
     gret (commonRoutes, map (\<lambda>tenant. \<lparr>rlRealmId = tmExternalId tenant, rlRoutes =
         (case map_of tenantsRoutes (tmObjectId tenant) of Some tenantHosts \<Rightarrow> tenantHosts | None \<Rightarrow> [])\<rparr>)
       (filter (\<lambda>tenant. tmExternalId tenant \<noteq> []) (GetActiveTenantsCache active)))))))"

definition GetRealms :: "'x sync_env \<Rightarrow> bool \<Rightarrow> ('x sync_state, string list \<times> realm list) go" where
  "GetRealms e showAll = getRealms e"

definition SendRoutesToIDP :: "'x sync_env \<Rightarrow> ('x sync_state, unit) go" where
  "SendRoutesToIDP e = wrapped
     (gbind (getRealms e) (\<lambda>(commonURIs, tenantURIs).
      let tenantRoutes = GoMap (foldl (\<lambda>m realm. AList.update (rlRealmId realm) (rlRoutes realm) m) [] tenantURIs)
      in on_world (SetRedirectURIs (own_namespace e) (seIdp e) tenantRoutes commonURIs)))"

section \<open>Following the tenant manager\<close>

text \<open>An inactive tenant loses its sites.\<close>

definition upsertTenantFromTM :: "'x sync_env \<Rightarrow> tm_tenant \<Rightarrow> ('x sync_state, unit) go" where
  "upsertTenantFromTM e tenant =
     (let namespaces = (if tmNamespace tenant \<noteq> [] then Split (tmNamespace tenant) (CHR '','') else []);
          isActive = (tmStatus tenant = Active);
          tenantToUpdate = zero_tenant\<lparr>tTenantName := tmTenantName tenant, tTenantId := tmObjectId tenant,
            tTenantAdmin := tmUserEmail tenant, tNamespaces := namespaces,
            tDomainName := tmDomainName tenant, tActive := isActive, tSites := mempty\<rparr>
      in gbind (if isActive then
            gtry (sync_FindByTenantId e (tmObjectId tenant) [] False True) (\<lambda>r. case r of
              Inl err \<Rightarrow> gret (tenantToUpdate\<lparr>tSites := GoMap [(default_site, mempty)]\<rparr>)
            | Inr tenantFromBase \<Rightarrow> gret (tenantToUpdate\<lparr>tSites := tSites tenantFromBase\<rparr>))
          else gret tenantToUpdate) (\<lambda>tenantToUpdate. wrapped (Upsert e tenantToUpdate)))"

text \<open>The loop returns after the first tenant of an event that is not a deletion.\<close>

fun sync_event_tenants :: "'x sync_env \<Rightarrow> string \<Rightarrow> tm_tenant list \<Rightarrow> ('x sync_state, unit) go" where
  "sync_event_tenants e ty [] = gret ()"
| "sync_event_tenants e ty (tenant # rest) =
     (if ty = EventTypeDeleted
      then gbind (wrapped (DeleteTenant e (tmObjectId tenant))) (\<lambda>_. sync_event_tenants e ty rest)
      else upsertTenantFromTM e tenant)"

definition SyncTenantsWithTM :: "'x sync_env \<Rightarrow> tenant_watch_event \<Rightarrow> ('x sync_state, unit) go" where
  "SyncTenantsWithTM e tenantEvent = sync_event_tenants e (twType tenantEvent) (event_tenants tenantEvent)"

text \<open>
  One round of \<open>syncAllTenantsFromTM\<close>; the result says whether the loop is left. Errors for a single
  tenant are logged and followed by a pause.
\<close>

definition pause_after :: "'x sync_env \<Rightarrow> ('x sync_state, unit) go \<Rightarrow> ('x sync_state, unit) go" where
  "pause_after e m = gtry m (\<lambda>r. case r of
     Inl _ \<Rightarrow> on_pm (gmodify (peIdle (sePm e))) | Inr _ \<Rightarrow> gret ())"

definition sync_all_round :: "'x sync_env \<Rightarrow> ('x sync_state, bool) go" where
  "sync_all_round e =
     gtry (on_world (GetAllTenantsByStatus (seTm e) [])) (\<lambda>r. case r of
       Inl _ \<Rightarrow> gbind (on_pm (gmodify (peIdle (sePm e)))) (\<lambda>_. gret False)
     | Inr tenants \<Rightarrow>
         gbind (gfor tenants (\<lambda>tenant. pause_after e (upsertTenantFromTM e tenant))) (\<lambda>_.
         gtry (on_world (FindAll (sePg e))) (\<lambda>q. case q of
           Inl _ \<Rightarrow> gbind (on_pm (gmodify (peIdle (sePm e)))) (\<lambda>_. gret False)
         | Inr tenantDnsEntries \<Rightarrow>
             gbind (gfor tenantDnsEntries (\<lambda>t. if tTenantId t \<notin> set (map tmObjectId tenants)
               then pause_after e (DeleteTenant e (tTenantId t)) else gret ())) (\<lambda>_. gret True))))"

partial_function (option) syncAllTenantsFromTM ::
  "'x sync_env \<Rightarrow> 'x sync_state \<Rightarrow> (unit result \<times> 'x sync_state) option" where
  "syncAllTenantsFromTM e s =
     (case sync_all_round e s of
        (Ok done, t) \<Rightarrow> if done then Some (Ok (), t) else syncAllTenantsFromTM e t
      | (Err err, t) \<Rightarrow> Some (Err err, t)
      | (Panic p, t) \<Rightarrow> Some (Panic p, t))"

end
