(* ===== verification/SyncWorld.thy ===== *)
theory SyncWorld
  imports SyncPass VirtualServices SyncQueries
begin

text \<open>
  What the operations of the synchronizer do to the stored tenants. The locale \<open>pm_frame\<close> says that
  the mediation service and the pauses of a request do not write to the table of tenants, that is,
  no other goroutine changes it meanwhile; \<open>sync_world\<close> joins it to the laws of the database and
  of the tenant manager's requests. Everything the synchronizer does to the table then comes from
  the calls of the DAO it makes.
\<close>

section \<open>Programs that leave the table alone\<close>

definition at_rest :: "('x \<Rightarrow> 'd) \<Rightarrow> 'd \<Rightarrow> 'x pm_state \<Rightarrow> bool" where
  "at_rest db d s \<longleftrightarrow> db (psRest s) = d"

definition table :: "('x \<Rightarrow> 'd) \<Rightarrow> 'x sync_state \<Rightarrow> 'd" where
  "table db s = db (psRest (yPm s))"

text \<open>The table and the number of pending signals.\<close>

definition framed :: "('x \<Rightarrow> 'd) \<Rightarrow> 'd \<Rightarrow> nat \<Rightarrow> 'x sync_state \<Rightarrow> bool" where
  "framed db d b s \<longleftrightarrow> table db s = d \<and> yBus s = b"

lemma keeps_on_rest: "keeps (\<lambda>x. db x = d) m \<Longrightarrow> keeps (at_rest db d) (on_rest m)"
  by (auto simp: keeps_def at_rest_def on_rest_def gzoom_snd)

lemma keeps_on_pm: "keeps (at_rest db d) m \<Longrightarrow> keeps (framed db d b) (on_pm m)"
  by (auto simp: keeps_def at_rest_def framed_def table_def on_pm_def gzoom_snd)

lemma keeps_on_world: "keeps (\<lambda>x. db x = d) m \<Longrightarrow> keeps (framed db d b) (on_world m)"
  unfolding on_world_def by (intro keeps_on_pm keeps_on_rest)

lemma keeps_caches [go_keeps]:
  "keeps (at_rest db d) (on_routes m)" "keeps (at_rest db d) (on_services m')"
  "keeps (at_rest db d) (on_configmaps m'')"
  by (simp_all add: keeps_def at_rest_def on_routes_def on_services_def on_configmaps_def gzoom_snd)

lemma keeps_from_sum [go_keeps]: "keeps P (from_sum r)"
  unfolding from_sum_def by (intro go_keeps)

lemma keeps_url_or_400 [go_keeps]: "keeps P (url_or_400 r)"
  unfolding url_or_400_def by (intro go_keeps)

lemma keeps_gresult [go_keeps]: "keeps P (gresult r)"
  by (simp add: keeps_def gresult_def)

locale pm_frame =
  fixes env :: "'x pm_env" and db :: "'x \<Rightarrow> 'd"
  assumes do_keeps: "db (snd (peDo env url verb body x)) = db x"
    and watch_keeps: "db (peWatch env namespace resource x) = db x"
    and idle_keeps: "db (psRest (peIdle env s)) = db (psRest s)"
begin

lemma keeps_idle [go_keeps]: "keeps (at_rest db d) (gmodify (peIdle env))"
  by (simp add: keeps_def at_rest_def gmodify_def idle_keeps)

lemma keeps_watch [go_keeps]: "keeps (at_rest db d) (watch env namespace resource)"
  unfolding watch_def by (intro keeps_on_rest keeps_gmodify) (simp add: watch_keeps)

lemma keeps_performRequest [go_keeps]:
  "keeps (at_rest db d) (performRequest env url verb body code dec target)"
  unfolding performRequest_def
  by (intro go_keeps keeps_on_rest) (simp add: keeps_def do_keeps)

lemma keeps_withRetry [go_keeps]:
  "keeps (at_rest db d) (performRequestWithRetry env url verb body code dec target)"
proof -
  have "keeps (at_rest db d) (retry_loop n env (performRequest env url verb body code dec target) target)" for n
    by (induction n) (auto intro!: go_keeps)
  then show ?thesis by (simp add: performRequestWithRetry_def)
qed

lemma keeps_inits [go_keeps]:
  "keeps (at_rest db d) (initRoutesMapInCache env c namespace)"
  "keeps (at_rest db d) (InitServicesMapInCache env c namespace)"
  "keeps (at_rest db d) (initConfigMapsMapInCache env c namespace)"
  unfolding initRoutesMapInCache_def InitServicesMapInCache_def initConfigMapsMapInCache_def
    getRoutesWithoutCache_def getServicesWithoutCache_def getConfigMapsWithoutCache_def
  by (intro go_keeps)+

lemma keeps_updates [go_keeps]:
  "keeps (at_rest db d) (updateRoutesCache env c ru)"
  "keeps (at_rest db d) (updateServicesCache env c su)"
  unfolding updateRoutesCache_def updateServicesCache_def by (intro go_keeps)+

lemma keeps_await [go_keeps]: "keeps (at_rest db d) (await_namespace n env sel kind namespace)"
proof (induction n)
  case 0
  then show ?case by (subst await_namespace.simps) (auto intro!: go_keeps)
next
  case (Suc n)
  then show ?case by (subst await_namespace.simps) (auto intro!: go_keeps)
qed

lemma keeps_get_cached [go_keeps]:
  "keeps (at_rest db d) m \<Longrightarrow> keeps (at_rest db d) (get_cached env m sel kind namespace)"
  unfolding get_cached_def by (intro go_keeps)

lemma keeps_getters [go_keeps]:
  "keeps (at_rest db d) (GetRoutes env c namespace)"
  "keeps (at_rest db d) (GetServices env c namespace)"
  "keeps (at_rest db d) (GetConfigMaps env c namespace)"
  unfolding GetRoutes_def GetServices_def GetConfigMaps_def createWebSocketClientsForRoutesInNamespace_def
  by (intro go_keeps)+

lemma keeps_filtered [go_keeps]:
  "keeps (at_rest db d) (GetRoutesByFilter env c namespace p)"
  "keeps (at_rest db d) (GetServices2 env c namespace q)"
  "keeps (at_rest db d) (GetConfigMaps2 env c namespace r)"
  "keeps (at_rest db d) (GetRoutesForNamespaces2 env c namespaces p)"
  "keeps (at_rest db d) (GetServicesForNamespaces2 env c namespaces q)"
  unfolding GetRoutesByFilter_def GetServices2_def GetConfigMaps2_def GetRoutesForNamespaces2_def
    GetRoutesForNamespaces_def GetServicesForNamespaces2_def GetServicesForNamespaces_def
  by (intro go_keeps)+

lemma keeps_changes [go_keeps]:
  "keeps (at_rest db d) (DeleteRoute env c rt)"
  "keeps (at_rest db d) (CreateRoute env c rt namespace)"
  "keeps (at_rest db d) (UpdateOrCreateRoute env c rt namespace)"
  "keeps (at_rest db d) (CreateService env c sv namespace)"
  "keeps (at_rest db d) (UpdateOrCreateService env c sv namespace)"
  "keeps (at_rest db d) (DeleteService env c name namespace)"
  unfolding DeleteRoute_def CreateRoute_def UpdateOrCreateRoute_def CreateService_def
    UpdateOrCreateService_def DeleteService_def
  by (intro go_keeps)+

end

section \<open>The synchronizer and the table\<close>

locale sync_world = tm_world "seTm e" db + pm_frame "sePm e" db
  for e :: "'x sync_env" and db :: "'x \<Rightarrow> string \<Rightarrow> tenant_dns option" +
  assumes rand_keeps: "db (snd (seRand e x)) = db x"
    and notify_keeps: "db (seNotify e to text x) = db x"
begin

lemma keeps_reads [go_keeps]:
  "keeps (framed db d b) (s_GetRoutes e namespace)"
  "keeps (framed db d b) (s_GetRoutesByFilter e namespace p)"
  "keeps (framed db d b) (s_GetRoutesForNamespaces2 e namespaces p)"
  "keeps (framed db d b) (s_GetServices2 e namespace q)"
  unfolding s_GetRoutes_def s_GetRoutesByFilter_def s_GetRoutesForNamespaces2_def s_GetServices2_def
  by (intro keeps_on_pm go_keeps)+

lemma keeps_dao_reads [go_keeps]:
  "keeps (framed db d b) (on_world (FindAll (sePg e)))"
  "keeps (framed db d b) (on_world (FindByTenantId (sePg e) k))"
  by (intro keeps_on_world; simp add: keeps_def dao.find_all_keeps dao.find_one_keeps)+

lemma keeps_set_sites [go_keeps]: "keeps P (set_sites m t)"
  by (auto simp: keeps_def set_sites_def go_simps split: prod.split result.split)

lemma keeps_newUrls [go_keeps]: "keeps (framed db d b) (generateNewUrlsForServicesIfNecessary e t)"
  unfolding generateNewUrlsForServicesIfNecessary_def GetPublicServices_def generateRoutesForServices_def
    service_url_host_def
  by (intro go_keeps)

lemma keeps_composite [go_keeps]: "keeps (framed db d b) (getCompositeNamespaceForTenant e t)"
  unfolding getCompositeNamespaceForTenant_def getConfigMapsForNamespaces_def
  by (intro go_keeps keeps_on_pm)

lemma keeps_filterGeneral [go_keeps]: "keeps (framed db d b) (filterGeneralRoutes e t)"
  unfolding filterGeneralRoutes_def by (intro go_keeps)

lemma keeps_name_loop: "keeps (framed db d b) (unique_name_loop n e tenantName optional name)"
proof (induction n arbitrary: optional name)
  case (Suc n)
  have "keeps (framed db d b) (on_world (seRand e))"
    by (intro keeps_on_world) (simp add: keeps_def rand_keeps)
  with Suc show ?case unfolding unique_name_loop.simps serviceNameAlreadyExists_def next_service_name_def
    by (intro go_keeps)
qed (auto intro: go_keeps)

lemma keeps_generateName [go_keeps]: "keeps (framed db d b) (generateUniqueServiceName e tenantName)"
  unfolding generateUniqueServiceName_def by (rule keeps_name_loop)

lemma keeps_prepare: "keeps (framed db d b) (prepare_upsert e t)"
  unfolding prepare_upsert_def name_shopping_service_def changeServiceNameIfExists_def CheckCollisions_def
  by (intro go_keeps)

end

section \<open>What a prepared tenant still is\<close>

text \<open>
  The tenant that \<open>Upsert\<close> stores differs from the one it is given only in its sites, its namespaces
  and its service name, and a service name that is given stays.
\<close>

definition same_tenant :: "tenant_dns \<Rightarrow> tenant_dns \<Rightarrow> bool" where
  "same_tenant t u \<longleftrightarrow> tTenantId u = tTenantId t \<and> tTenantAdmin u = tTenantAdmin t \<and>
     tTenantName u = tTenantName t \<and> tDomainName u = tDomainName t \<and> tActive u = tActive t \<and>
     tRemoved u = tRemoved t \<and> (tServiceName t \<noteq> [] \<longrightarrow> tServiceName u = tServiceName t)"

lemma same_tenant_refl: "same_tenant t t"
  by (simp add: same_tenant_def)

lemma yields_set_sites:
  "same_tenant t0 t \<Longrightarrow> yields (same_tenant t0) (set_sites m t)"
  by (auto simp: yields_def set_sites_def same_tenant_def go_simps split: prod.splits result.splits)

lemma yields_newUrls: "yields (same_tenant t) (generateNewUrlsForServicesIfNecessary e t)"
  unfolding generateNewUrlsForServicesIfNecessary_def Let_def
  by (intro go_yields same_tenant_refl yields_gbind [where R = "same_tenant t"] yields_set_sites)
    assumption+

lemma yields_filterGeneral: "same_tenant t0 t \<Longrightarrow> yields (same_tenant t0) (filterGeneralRoutes e t)"
  unfolding filterGeneralRoutes_def by (intro go_yields) (simp add: same_tenant_def)

lemma yields_name_shopping:
  assumes "same_tenant t0 t" and "tServiceName t0 \<noteq> [] \<longrightarrow> tServiceName d \<noteq> []"
  shows "yields (same_tenant t0) (name_shopping_service e d t site)"
  unfolding name_shopping_service_def
proof (rule yields_gbind [where R = "\<lambda>name. tServiceName t0 \<noteq> [] \<longrightarrow> name = tServiceName t0"])
  show "yields (\<lambda>name. tServiceName t0 \<noteq> [] \<longrightarrow> name = tServiceName t0)
      (if tServiceName d = [] then gtry (on_world (FindByTenantId (sePg e) (tTenantId t))) (\<lambda>r. case r of
           Inr scheme \<Rightarrow> if tServiceName scheme \<noteq> [] then gret (tServiceName scheme)
             else generateUniqueServiceName e (tTenantName t)
         | Inl err \<Rightarrow> generateUniqueServiceName e (tTenantName t))
       else gret (tServiceName t))"
    using assms by (cases "tServiceName d = []") (auto simp: same_tenant_def yields_def go_simps)
  fix name assume "tServiceName t0 \<noteq> [] \<longrightarrow> name = tServiceName t0"
  then have t: "same_tenant t0 (t\<lparr>tServiceName := name\<rparr>)" using assms(1) by (auto simp: same_tenant_def)
  then have "same_tenant t0 (delete_service_at site shoppingFrontendName (t\<lparr>tServiceName := name\<rparr>))"
    by (simp add: same_tenant_def delete_service_at_def)
  then show "yields (same_tenant t0)
      (changeServiceNameIfExists e shoppingFrontendName name site (t\<lparr>tServiceName := name\<rparr>))"
    unfolding changeServiceNameIfExists_def by (intro go_yields yields_set_sites t)
qed

lemma same_tenant_trans: "same_tenant t u \<Longrightarrow> same_tenant u v \<Longrightarrow> same_tenant t v"
  by (auto simp: same_tenant_def)

lemma yields_prepare: "yields (same_tenant t) (prepare_upsert e t)"
proof -
  have new: "yields (same_tenant t) (generateNewUrlsForServicesIfNecessary e (t\<lparr>tNamespaces := ns\<rparr>))" for ns
  proof (rule yieldsI)
    fix s x u assume "generateNewUrlsForServicesIfNecessary e (t\<lparr>tNamespaces := ns\<rparr>) s = (Ok x, u)"
    from yieldsD [OF yields_newUrls this] show "same_tenant t x" by (simp add: same_tenant_def)
  qed
  have shop: "yields (same_tenant t) (case checkIfServiceExists shoppingFrontendName u of (site, exists) \<Rightarrow>
      if exists then name_shopping_service e d u site else gret u)"
    if "same_tenant t d" "same_tenant t u" for d u
    using that by (intro go_yields yields_name_shopping) (auto simp: same_tenant_def)
  show ?thesis unfolding prepare_upsert_def
    by (intro yields_gbind_any yields_case_prod yields_gbind [OF new]
        yields_gbind [OF yields_filterGeneral] yields_gbind [OF shop] yields_gret)
qed

section \<open>The writes of a tenant\<close>

definition signalled :: "nat \<Rightarrow> nat" where
  "signalled b = (if b < bus_capacity then b + 1 else b)"

lemma framed_refl: "framed db (table db s) (yBus s) s"
  by (simp add: framed_def)

lemma on_world_run:
  "on_world m s = (r, s') \<longleftrightarrow>
     (\<exists>x. m (psRest (yPm s)) = (r, x) \<and> s' = s\<lparr>yPm := (yPm s)\<lparr>psRest := x\<rparr>\<rparr>)"
  by (auto simp: on_world_def on_pm_def on_rest_def gzoom_def split: prod.split)

lemma Sync_run: "Sync s = (Ok (), s\<lparr>yBus := signalled (yBus s)\<rparr>)"
  by (simp add: Sync_def gmodify_run signalled_def)

context sync_world begin

lemma framedD:
  assumes "\<And>d b. keeps (framed db d b) m" and "m s = (r, s')"
  shows "table db s' = table db s" and "yBus s' = yBus s"
  using keepsD [OF assms(1) framed_refl] assms(2) by (metis framed_def snd_conv)+

lemma store_run:
  assumes "on_world (dao_Upsert (sePg e) u) s = (r, s')"
  shows "table db s' = (if r = Ok () then (table db s)(tTenantId u \<mapsto> u) else table db s)"
    and "yBus s' = yBus s"
  using assms dao_Upsert_run [of u "psRest (yPm s)" r] by (auto simp: on_world_run table_def)

lemma commit_run:
  assumes "gbind (on_world (dao_Upsert (sePg e) u)) (\<lambda>_. Sync) s = (r, s')"
  shows "if r = Ok () then table db s' = (table db s)(tTenantId u \<mapsto> u) \<and> yBus s' = signalled (yBus s)
    else table db s' = table db s \<and> yBus s' = yBus s"
proof -
  obtain q t where q: "on_world (dao_Upsert (sePg e) u) s = (q, t)"
    by (cases "on_world (dao_Upsert (sePg e) u) s")
  from store_run [OF q] assms q show ?thesis
    by (cases q) (auto simp: gbind_run Sync_run table_def)
qed

lemma Upsert_run:
  assumes "Upsert e t s = (r, s')"
  shows "if r = Ok () then yBus s' = signalled (yBus s) \<and>
      (\<exists>u. same_tenant t u \<and> table db s' = (table db s)(tTenantId t \<mapsto> u))
    else table db s' = table db s \<and> yBus s' = yBus s"
proof -
  obtain q v where q: "prepare_upsert e t s = (q, v)" by (cases "prepare_upsert e t s")
  note v = framedD [OF keeps_prepare q]
  show ?thesis
  proof (cases q)
    case (Ok u)
    with assms q have "gbind (on_world (dao_Upsert (sePg e) u)) (\<lambda>_. Sync) v = (r, s')"
      by (simp add: Upsert_def gbind_run)
    from commit_run [OF this] v yieldsD [OF yields_prepare, of e t s u v] q Ok show ?thesis
      by (auto simp: same_tenant_def split: if_splits)
  qed (use assms q v in \<open>auto simp: Upsert_def gbind_run\<close>)
qed

lemma find_run:
  assumes "on_world (FindByTenantId (sePg e) k) s = (q, s')"
  shows "table db s' = table db s" and "yBus s' = yBus s" and "q = Ok t \<Longrightarrow> table db s k = Some t"
proof -
  note f = framedD [OF keeps_dao_reads(2) assms]
  show "table db s' = table db s" "yBus s' = yBus s" by (rule f)+
  show "table db s k = Some t" if "q = Ok t"
    using assms that FindByTenantId_run(2) [of k "psRest (yPm s)" q _ t]
    by (auto simp: on_world_run table_def)
qed

lemma update_and_sync_run:
  assumes "update_and_sync e k f s = (r, s')" and id: "\<And>t. tTenantId (f t) = tTenantId t"
  shows "(table db s' = table db s \<and> yBus s' = yBus s) \<or> (r = Ok () \<and> yBus s' = signalled (yBus s) \<and>
      (\<exists>t. table db s k = Some t \<and> table db s' = (table db s)(k \<mapsto> f t)))"
proof -
  obtain q v where q: "on_world (FindByTenantId (sePg e) k) s = (q, v)"
    by (cases "on_world (FindByTenantId (sePg e) k) s")
  note v = find_run [OF q]
  show ?thesis
  proof (cases q)
    case (Ok t)
    have "tTenantId t = k" using v(3) [OF Ok] keyed by (auto simp: table_def)
    from assms q Ok have "gbind (on_world (dao_Upsert (sePg e) (f t))) (\<lambda>_. Sync) v = (r, s')"
      by (simp add: update_and_sync_def gtry_run)
    from commit_run [OF this] v id \<open>tTenantId t = k\<close> Ok show ?thesis by (auto split: if_splits)
  next
    case (Err x)
    with assms q v show ?thesis by (cases x) (auto simp: update_and_sync_def go_simps)
  qed (use assms q v in \<open>auto simp: update_and_sync_def go_simps\<close>)
qed

end

section \<open>A pass and the stored tenants\<close>

text \<open>Rows are only lost, and only rows flagged as removed.\<close>

definition only_flagged ::
  "(string \<Rightarrow> tenant_dns option) \<Rightarrow> (string \<Rightarrow> tenant_dns option) \<Rightarrow> bool" where
  "only_flagged d d' \<longleftrightarrow> (\<forall>k. d' k = d k \<or> (d' k = None \<and> (\<exists>t. d k = Some t \<and> tRemoved t)))"

definition lost_flagged :: "('x \<Rightarrow> string \<Rightarrow> tenant_dns option) \<Rightarrow> (string \<Rightarrow> tenant_dns option) \<Rightarrow>
    nat \<Rightarrow> 'x sync_state \<Rightarrow> bool" where
  "lost_flagged db d b s \<longleftrightarrow> only_flagged d (table db s) \<and> yBus s = b"

lemma only_flagged_refl: "only_flagged d d"
  by (simp add: only_flagged_def)

lemma only_flagged_trans: "only_flagged d d' \<Longrightarrow> only_flagged d' d'' \<Longrightarrow> only_flagged d d''"
  unfolding only_flagged_def by metis

lemma keeps_ignoring [go_keeps]: "keeps P m \<Longrightarrow> keeps P (ignoring m)"
  unfolding ignoring_def by (intro go_keeps)

context sync_world begin

lemma keeps_lost:
  assumes "\<And>d b. keeps (framed db d b) m"
  shows "keeps (lost_flagged db d b) m"
proof (rule keepsI)
  fix s assume "lost_flagged db d b s"
  moreover obtain r t where "m s = (r, t)" by (cases "m s")
  ultimately show "lost_flagged db d b (snd (m s))"
    using framedD [OF assms, of s r t] by (simp add: lost_flagged_def)
qed

lemma keeps_delete_stale: "keeps (framed db d b) (delete_stale_routes e allSettings routes)"
  unfolding delete_stale_routes_def by (intro go_keeps keeps_on_pm)

lemma keeps_find_service: "keeps (framed db d b) (findServiceInNamespaces e service ns)"
proof (induction ns)
  case (CompositeNamespace child namespace)
  then have "keeps (framed db d b)
      (case child of Some c \<Rightarrow> findServiceInNamespaces e service c | None \<Rightarrow> gret [])"
    by (cases child) (auto intro: go_keeps)
  then show ?case unfolding findServiceInNamespaces.simps
    by (rule keeps_gbind) (intro go_keeps)
qed

lemma keeps_service_loop: "keeps (framed db d b) (service_loop n e service namespace previous)"
proof (induction n arbitrary: namespace previous)
  case (Suc n)
  then show ?case unfolding service_loop.simps
    by (intro go_keeps keeps_on_pm keeps_find_service)
qed (simp add: keeps_gret)

lemma keeps_isService [go_keeps]: "keeps (framed db d b) (isServiceInNamespace e service namespace)"
  unfolding isServiceInNamespace_def by (intro go_keeps keeps_service_loop)

lemma keeps_refresh: "keeps (framed db d b) (refreshSettings e snapshot)"
  unfolding refreshSettings_def by (intro go_keeps)

lemma keeps_create_missing: "keeps (framed db d b) (create_missing_routes e allSettings)"
  unfolding create_missing_routes_def create_route_if_missing_def by (intro go_keeps keeps_on_pm)

lemma keeps_notify: "keeps (framed db d b) (notify_tenants e changed)"
proof (induction changed)
  case (Cons c changed)
  have "keeps (framed db d b) (on_world (gmodify (seNotify e to body)))" for to body
    by (intro keeps_on_world keeps_gmodify) (simp add: notify_keeps)
  with Cons show ?case by (cases c) (auto intro!: go_keeps)
qed (auto intro: go_keeps)

lemma keeps_delete_removed: "keeps (lost_flagged db d b) (deleteRemovedTenants e tenants)"
proof -
  have "keeps (lost_flagged db d b) (on_world (DeleteIfRemoved (sePg e) k))" for k
  proof (rule keepsI)
    fix s assume P: "lost_flagged db d b s"
    obtain r s' where run: "on_world (DeleteIfRemoved (sePg e) k) s = (r, s')"
      by (cases "on_world (DeleteIfRemoved (sePg e) k) s")
    then obtain x where x: "DeleteIfRemoved (sePg e) k (psRest (yPm s)) = (r, x)"
      and s': "s' = s\<lparr>yPm := (yPm s)\<lparr>psRest := x\<rparr>\<rparr>" by (auto simp: on_world_run)
    from DeleteIfRemoved_run(1) [OF x] have "only_flagged (table db s) (table db s')" and "yBus s' = yBus s"
      by (auto simp: s' table_def only_flagged_def split: if_splits)
    with P run show "lost_flagged db d b (snd (on_world (DeleteIfRemoved (sePg e) k) s))"
      by (auto simp: lost_flagged_def intro: only_flagged_trans)
  qed
  then show ?thesis unfolding deleteRemovedTenants_def by (intro go_keeps)
qed

lemma keeps_pass: "keeps (lost_flagged db d b) (processSynchronization e)"
  unfolding processSynchronization_def
  by (intro keeps_gbind keeps_delete_removed)
    (rule keeps_lost; intro keeps_dao_reads keeps_reads keeps_delete_stale keeps_refresh
      keeps_create_missing keeps_notify)+

end

text \<open>When the conditional deletions of the database succeed, a flagged tenant that is listed is gone.\<close>

context sync_world begin

lemma delete_removed_done:
  assumes ok: "\<And>k x. fst (DeleteIfRemoved (sePg e) k x) = Ok ()"
    and "deleteRemovedTenants e ts s = (r, s')" and "t \<in> set ts" and "tRemoved t"
    and "table db s (tTenantId t) \<in> {None, Some t}"
  shows "table db s' (tTenantId t) = None"
  using assms(2-)
proof (induction ts arbitrary: s)
  case (Cons u ts)
  let ?body = "\<lambda>u. if tRemoved u then ignoring (on_world (DeleteIfRemoved (sePg e) (tTenantId u)))
    else gret ()"
  obtain q v where v: "?body u s = (q, v)" by (cases "?body u s")
  have one: "on_world (DeleteIfRemoved (sePg e) k) s =
      (Ok (), s\<lparr>yPm := (yPm s)\<lparr>psRest := snd (DeleteIfRemoved (sePg e) k (psRest (yPm s)))\<rparr>\<rparr>)" for k
  proof -
    obtain x where "DeleteIfRemoved (sePg e) k (psRest (yPm s)) = (Ok (), x)"
      using ok [of k "psRest (yPm s)"] by (metis prod.collapse)
    then show ?thesis by (simp add: on_world_run)
  qed
  then have q: "q = Ok ()" using v by (auto simp: ignoring_def go_simps split: if_splits)
  with Cons.prems(1) v have rest: "deleteRemovedTenants e ts v = (r, s')"
    by (simp add: deleteRemovedTenants_def gbind_run)
  have lost: "lost_flagged db (table db v) (yBus v) s'"
    using keepsD [OF keeps_delete_removed, of "table db v" "yBus v" v ts] rest
    by (simp add: lost_flagged_def only_flagged_refl)
  have "only_flagged (table db s) (table db v)"
    using keepsD [OF keeps_delete_removed, of "table db s" "yBus s" s "[u]"] v q
    by (simp add: deleteRemovedTenants_def go_simps lost_flagged_def only_flagged_refl split: if_splits)
  then have v': "table db v (tTenantId t) \<in> {None, Some t}"
    using Cons.prems(4) by (auto simp: only_flagged_def dest: spec [of _ "tTenantId t"])
  show ?case
  proof (cases "t \<in> set ts")
    case True
    from Cons.IH [OF rest this Cons.prems(3) v'] show ?thesis .
  next
    case False
    with Cons.prems have u: "u = t" by simp
    let ?x = "snd (DeleteIfRemoved (sePg e) (tTenantId t) (psRest (yPm s)))"
    have "DeleteIfRemoved (sePg e) (tTenantId t) (psRest (yPm s)) = (Ok (), ?x)"
      using ok by (simp add: prod_eq_iff)
    then have "db ?x (tTenantId t) = None"
      using DeleteIfRemoved_run(1) DeleteIfRemoved_run(2) [of "tTenantId t" "psRest (yPm s)" "Ok ()" ?x t]
        Cons.prems(3,4) by (cases "table db s (tTenantId t)") (fastforce simp: table_def)+
    then have "table db v (tTenantId t) = None"
      using v u Cons.prems(3) one [of "tTenantId t"] by (auto simp: ignoring_def go_simps table_def)
    with lost show ?thesis by (force simp: lost_flagged_def only_flagged_def)
  qed
qed simp

lemma pass_deletes:
  assumes "\<And>k x. fst (DeleteIfRemoved (sePg e) k x) = Ok ()"
    and "processSynchronization e s = (Ok (), s')" and "table db s k = Some t" and "tRemoved t"
  shows "table db s' k = None"
proof -
  have k: "tTenantId t = k" using assms(3) keyed by (simp add: table_def)
  from assms(2) obtain ts s1 rs s2 u s3 u' s4 ts' s5 c s6
    where ts: "on_world (FindAll (sePg e)) s = (Ok ts, s1)"
      and rs: "s_GetRoutesForNamespaces2 e (appendElemIfNotExists
         (getAllNamespacesFromTenants (own_namespace e) ts) (own_namespace e)) IsRouteManageable s1 = (Ok rs, s2)"
      and s3: "delete_stale_routes e ts rs s2 = (Ok u, s3)"
      and s4: "deleteRemovedTenants e ts s3 = (Ok u', s4)"
      and s5: "refreshSettings e ts s4 = (Ok ts', s5)"
      and s6: "create_missing_routes e ts' s5 = (Ok c, s6)" and s7: "notify_tenants e c s6 = (Ok (), s')"
    unfolding processSynchronization_def by (elim gbind_OkE) blast
  have t3: "table db s3 = table db s"
    using framedD [OF keeps_dao_reads(1) ts] framedD [OF keeps_reads(3) rs] framedD [OF keeps_delete_stale s3]
    by simp
  obtain x where "FindAll (sePg e) (psRest (yPm s)) = (Ok ts, x)" using ts by (auto simp: on_world_run)
  with assms(3) have "t \<in> set ts" using dao.find_all_member k by (simp add: table_def)
  with s4 t3 assms k have "table db s4 k = None"
    using delete_removed_done [OF assms(1), of ts s3 "Ok u'" s4 t] by simp
  moreover have "table db s' = table db s4"
    using framedD [OF keeps_refresh s5] framedD [OF keeps_create_missing s6] framedD [OF keeps_notify s7]
    by simp
  ultimately show ?thesis by simp
qed

text \<open>
  \<open>GetServiceName\<close>: the tenant is the one stored under the id that the tenant manager gives. Its local
  copy only follows the status, so that a tenant without a name is stored as it was, with the status
  of the tenant manager and the name generated for it.
\<close>

lemma GetServiceName_run:
  assumes "SyncUpsert.GetServiceName e externalId s = (Ok name, s')"
  shows "\<exists>td s1 t. on_world (GetTenantByExternalId (seTm e) externalId) s = (Ok td, s1) \<and>
    table db s (tmObjectId td) = Some t \<and>
    (if tServiceName t = []
     then table db s' = (table db s)(tmObjectId td \<mapsto>
       t\<lparr>tActive := (tmStatus td = Active), tServiceName := name\<rparr>)
     else name = tServiceName t \<and> (if tActive t = (tmStatus td = Active) then table db s' = table db s
       else \<exists>u. same_tenant (t\<lparr>tActive := (tmStatus td = Active)\<rparr>) u \<and>
         table db s' = (table db s)(tmObjectId td \<mapsto> u)))"
proof -
  from assms obtain td s1 t0 s2 t s3
    where td: "on_world (GetTenantByExternalId (seTm e) externalId) s = (Ok td, s1)"
      and t0: "on_world (FindByTenantId (sePg e) (tmObjectId td)) s1 = (Ok t0, s2)"
      and t: "actualizeTenantStatus e t0 (tmStatus td = Active) s2 = (Ok t, s3)"
      and rest: "(if tServiceName t = [] then
          gbind (generateUniqueServiceName e (tTenantName t)) (\<lambda>serviceName.
          gbind (on_world (dao_Upsert (sePg e) (t\<lparr>tServiceName := serviceName\<rparr>))) (\<lambda>_.
          gret serviceName))
        else gret (tServiceName t)) s3 = (Ok name, s')"
    unfolding SyncUpsert.GetServiceName_def by (elim gbind_OkE) blast
  let ?i = "tmObjectId td" and ?a = "tmStatus td = Active"
  from td obtain x where "getTenantById (seTm e) externalId (psRest (yPm s)) = (Ok td, x)"
    and "s1 = s\<lparr>yPm := (yPm s)\<lparr>psRest := x\<rparr>\<rparr>" by (auto simp: on_world_run GetTenantByExternalId_def)
  with getTenantById_run [OF this(1)] have s1: "table db s1 = table db s" by (simp add: table_def)
  note f = find_run [OF t0]
  from f s1 have row: "table db s ?i = Some t0" and s2: "table db s2 = table db s" by simp_all
  have i: "tTenantId t0 = ?i" using row keyed by (simp add: table_def)
  have local: "t = t0\<lparr>tActive := ?a\<rparr> \<and> (if tActive t0 = ?a then table db s3 = table db s
      else \<exists>u. same_tenant (t0\<lparr>tActive := ?a\<rparr>) u \<and> table db s3 = (table db s)(?i \<mapsto> u))"
  proof (cases "tActive t0 = ?a")
    case True
    from True have "t0\<lparr>tActive := ?a\<rparr> = t0" by (cases t0) simp
    with True t s2 show ?thesis by (simp add: actualizeTenantStatus_def gret_run)
  next
    case False
    from t False obtain t1 v where t1: "on_world (FindByTenantId (sePg e) (tTenantId t0)) s2 = (Ok t1, v)"
      and up: "Upsert e (t1\<lparr>tActive := ?a\<rparr>) v = (Ok (), s3)" and t: "t = t0\<lparr>tActive := ?a\<rparr>"
      by (auto simp: actualizeTenantStatus_def ChangeTenantStatus_def gret_run elim!: gbind_OkE)
    have "t1 = t0" and "table db v = table db s" using find_run [OF t1] row i s2 by simp_all
    with Upsert_run [OF up] i t False show ?thesis by simp
  qed
  show ?thesis
  proof (cases "tServiceName t0 = []")
    case True
    with local rest obtain v v' where gen: "generateUniqueServiceName e (tTenantName t) s3 = (Ok name, v)"
      and put: "on_world (dao_Upsert (sePg e) (t\<lparr>tServiceName := name\<rparr>)) v = (Ok (), s')"
      by (auto simp: gret_run elim!: gbind_OkE)
    have "table db v = table db s3" using framedD [OF keeps_generateName gen] by simp
    with store_run(1) [OF put] local i have "table db s' = (table db s)(?i \<mapsto>
        t0\<lparr>tActive := ?a, tServiceName := name\<rparr>)" by (auto split: if_splits)
    with True td row show ?thesis by (intro exI [of _ td] exI [of _ s1] exI [of _ t0]) simp
  next
    case False
    with local rest have "name = tServiceName t0" "s' = s3" by (simp_all add: gret_run)
    with False td row local show ?thesis by (intro exI [of _ td] exI [of _ s1] exI [of _ t0]) simp
  qed
qed

end

section \<open>Virtual services and the table\<close>

context sync_world begin

lemma keeps_force [go_keeps]: "keeps (framed db d b) (forceUpdateIDPRouteCache e)"
  unfolding forceUpdateIDPRouteCache_def by (intro go_keeps keeps_on_world keeps_DoRetryRequest)

text \<open>A program that ends with a write of the DAO, after steps that leave the table alone.\<close>

lemma then_run:
  assumes "gbind m f s = (r, s')" and "\<And>d b. keeps (framed db d b) m"
  obtains x v where "m s = (Ok x, v)" and "f x v = (r, s')" and "table db v = table db s"
  | "table db s' = table db s" and "\<And>x. r \<noteq> Ok x"
proof -
  obtain q v where q: "m s = (q, v)" by (cases "m s")
  from framedD [OF assms(2) q] assms(1) q that show thesis by (cases q) (auto simp: gbind_run)
qed

lemma add_route_run:
  assumes "on_world (AddRouteToTenants (sePg e) host service) s = (r, s')"
  shows "table db s' = (if r = Ok () then (\<lambda>k. map_option
      (\<lambda>t. if tActive t then add_route host service t else t) (table db s k)) else table db s)"
proof -
  from assms obtain x where x: "AddRouteToTenants (sePg e) host service (psRest (yPm s)) = (r, x)"
    and s': "s' = s\<lparr>yPm := (yPm s)\<lparr>psRest := x\<rparr>\<rparr>" by (auto simp: on_world_run)
  from AddRouteToTenants_run [OF x] show ?thesis
    by (auto simp: s' table_def fun_eq_iff split: option.split)
qed

lemma CreateVirtualService_run:
  assumes "CreateVirtualService e req s = (r, s')"
  shows "(r \<noteq> Ok () \<longrightarrow> table db s' = table db s) \<and>
    (r = Ok () \<longrightarrow> snd (IsRouteValid (registration_ToRoute req (sePlatformHostname e) (own_namespace e))
        (own_namespace e)) \<and>
      (\<exists>sv v made w.
        on_pm (CreateService (sePm e) (seClient e) (ToService req) (own_namespace e)) s = (Ok sv, v) \<and>
        on_pm (CreateRoute (sePm e) (seClient e) (registration_ToRoute req (sePlatformHostname e)
          (own_namespace e)) (own_namespace e)) v = (Ok made, w) \<and>
        table db s' = (\<lambda>k. map_option (\<lambda>t. if tActive t
          then add_route (route_host made) (srVirtualService req) t else t) (table db s k))))"
proof (cases "IsRouteValid (registration_ToRoute req (sePlatformHostname e) (own_namespace e))
    (own_namespace e)")
  case (Pair msg valid)
  show ?thesis
  proof (cases valid)
    case True
    let ?service = "on_pm (CreateService (sePm e) (seClient e) (ToService req) (own_namespace e))"
    let ?route = "on_pm (CreateRoute (sePm e) (seClient e) (registration_ToRoute req (sePlatformHostname e)
      (own_namespace e)) (own_namespace e))"
    let ?add = "\<lambda>made. on_world (AddRouteToTenants (sePg e) (route_host made) (srVirtualService req))"
    have k: "keeps (framed db d b) ?service" "keeps (framed db d b) ?route"
      "keeps (framed db d b) (forceUpdateIDPRouteCache e)" for d b
      by (intro keeps_on_pm go_keeps)+
    have "gbind ?service (\<lambda>_. gbind ?route (\<lambda>made. gbind (forceUpdateIDPRouteCache e) (\<lambda>_. ?add made))) s =
        (r, s')"
      using assms Pair True by (simp add: CreateVirtualService_def Let_def)
    from then_run [OF this k(1)] show ?thesis
    proof cases
      case (1 sv v)
      from then_run [OF 1(2) k(2)] show ?thesis
      proof cases
        case route: (1 made w)
        from then_run [OF route(2) k(3)] show ?thesis
        proof cases
          case idp: (1 x u)
          from add_route_run [OF idp(2)] idp(3) route(3) 1(3) have
            "table db s' = (if r = Ok () then (\<lambda>k. map_option (\<lambda>t. if tActive t
              then add_route (route_host made) (srVirtualService req) t else t) (table db s k))
              else table db s)" by simp
          with 1(1) route(1) Pair True show ?thesis by (cases "r = Ok ()") auto
        qed (use route(3) 1(3) in auto)
      qed (use 1(3) in auto)
    qed auto
  qed (use assms Pair in \<open>auto simp: CreateVirtualService_def Let_def go_simps\<close>)
qed

lemma delete_route_run:
  assumes "on_world (DeleteRouteFromTenants (sePg e) service) s = (r, s')"
  shows "table db s' = (if r = Ok () then (\<lambda>k. map_option (delete_service service) (table db s k)) else table db s)"
proof -
  from assms obtain x where x: "DeleteRouteFromTenants (sePg e) service (psRest (yPm s)) = (r, x)"
    and s': "s' = s\<lparr>yPm := (yPm s)\<lparr>psRest := x\<rparr>\<rparr>" by (auto simp: on_world_run)
  from DeleteRouteFromTenants_run [OF x] show ?thesis by (simp add: s' table_def)
qed

lemma DeleteVirtualService_run:
  assumes "DeleteVirtualService e service s = (r, s')"
  shows "table db s' = (if r = Ok () then (\<lambda>k. map_option (delete_service service) (table db s k))
    else table db s)"
proof -
  let ?routes = "s_GetRoutesByFilter e (own_namespace e) (\<lambda>r. route_service r = service)"
  have k: "keeps (framed db d b) (on_pm (DeleteService (sePm e) (seClient e) service ns))"
    "keeps (framed db d b) (gfor rs (\<lambda>r. on_pm (DeleteRoute (sePm e) (seClient e) r)))" for d b ns rs
    by (intro keeps_on_pm go_keeps)+
  show ?thesis using assms unfolding DeleteVirtualService_def Let_def
  proof (elim then_run [OF _ keeps_reads(4)])
    fix services v
    assume v: "table db v = table db s" and run: "(if services = []
      then gerr (ErrorWrapper 404 (''Virtual service '' @ service @ '' not found''))
      else gbind (on_pm (DeleteService (sePm e) (seClient e) service (own_namespace e))) (\<lambda>_.
        gbind ?routes (\<lambda>routesToDelete.
        gbind (gfor routesToDelete (\<lambda>r. on_pm (DeleteRoute (sePm e) (seClient e) r))) (\<lambda>_.
        on_world (DeleteRouteFromTenants (sePg e) service))))) v = (r, s')"
    show ?thesis
    proof (cases "services = []")
      case False
      with run have "gbind (on_pm (DeleteService (sePm e) (seClient e) service (own_namespace e))) (\<lambda>_.
        gbind ?routes (\<lambda>routesToDelete.
        gbind (gfor routesToDelete (\<lambda>r. on_pm (DeleteRoute (sePm e) (seClient e) r))) (\<lambda>_.
        on_world (DeleteRouteFromTenants (sePg e) service)))) v = (r, s')" by simp
      then show ?thesis using v
        by (elim then_run [OF _ k(1)] then_run [OF _ keeps_reads(2)] then_run [OF _ k(2)])
          (auto dest!: delete_route_run)
    qed (use run v in \<open>auto simp: go_simps\<close>)
  qed auto
qed

end

end
