(* ===== verification/SyncTheorems.thy ===== *)
theory SyncTheorems
  imports SyncWorld
begin

text \<open>
  The guarantees of the synchronizer about the stored tenants, and a platform in memory on which
  they are run: the table of tenants of \<open>Dao\<close>, a mediation service that answers every request with
  one status code, and a cache of the own namespace \<open>ns\<close> that holds the given services.
\<close>

section \<open>A platform in memory\<close>

definition mem_pm :: "int \<Rightarrow> mem_table pm_env" where
  "mem_pm code = \<lparr>peDo = (\<lambda>url verb body. gret \<lparr>hrStatusCode = code, hrBody = []\<rparr>), peIdle = (\<lambda>s. s),
     peWatch = (\<lambda>namespace resource x. x), peRoutes = (\<lambda>b. Eof), peServices = (\<lambda>b. Eof),
     peConfigmaps = (\<lambda>b. Eof), peHttpRoutes = (\<lambda>b. Eof), peGrpcRoutes = (\<lambda>b. Eof),
     peIntoRoute = (\<lambda>b r. Eof), peIntoService = (\<lambda>b sv. Eof), peAny = (\<lambda>b. Eof)\<rparr>"

definition mem_sync :: "int \<Rightarrow> mem_table sync_env" where
  "mem_sync code = \<lparr>sePm = mem_pm code,
     seClient = \<lparr>pcInternalGatewayAddress = ''http://gw'', pcNamespace = ''ns'', pcEnableGateway = False\<rparr>,
     seTm = mem_tm 200,
     seIdp = \<lparr>icCheckPostURIFeature = gret False, icPostURI = (\<lambda>_. gret ())\<rparr>,
     seMail = \<lparr>msUserEmail = ''admin'', msFormat = concat\<rparr>, seNotify = (\<lambda>to body x. x), seProtocol = ''https'', seDefaultDomainZone = [],
     sePlatformHostname = ''example.com'', seCompositeSatellite = False, seBaselineUrl = [],
     seUnmarshalServices = (\<lambda>b. Inr []), seStrings = (\<lambda>b. Inr []), seUnprintable = (\<lambda>b. None),
     seRand = gret 7, seIdpServerAddr = ''http://idp'', seFuel = 100\<rparr>"

definition mem_state :: "route list \<Rightarrow> service list \<Rightarrow> mem_table \<Rightarrow> mem_table sync_state" where
  "mem_state routes services tenants = \<lparr>yPm = \<lparr>psRoutes = GoMap [(''ns'', keyed CacheKey routes)],
       psServices = GoMap [(''ns'', keyed service_name services)],
       psConfigmaps = GoMap [(''ns'', mempty)], psRest = tenants\<rparr>, yActive = [], yBus = 0\<rparr>"

lemmas mem_sync_simps = mem_sync_def mem_pm_def mem_tm_def

interpretation mem_sync: sync_world "mem_sync code" mem_db
proof -
  have "tm_world (seTm (mem_sync code)) mem_db" by (simp add: mem_sync_def mem_tm.tm_world_axioms)
  moreover have "pm_frame (sePm (mem_sync code)) mem_db"
    by unfold_locales (simp_all add: mem_sync_def mem_pm_def go_simps)
  moreover have "sync_world_axioms (mem_sync code) mem_db"
    by unfold_locales (simp_all add: mem_sync_def go_simps)
  ultimately show "sync_world (mem_sync code) mem_db" by (simp add: sync_world_def)
qed

section \<open>Writes\<close>

text \<open>
  C3: \<open>Upsert\<close> is atomic: if it returns without an error, the table of tenants is updated at the
  tenant's id with a tenant that differs from the given one only in its sites, its namespaces and,
  if it had none, its service name, and one signal is sent unless 16 are pending; if it ends with an
  error or a panic, neither the table nor the signals have changed.
\<close>

theorem upsert_atomic:
  assumes "sync_world e db" and "Upsert e t s = (r, s')"
  shows "if r = Ok () then
      (\<exists>u. same_tenant t u \<and> table db s' = (table db s)(tTenantId t \<mapsto> u)) \<and>
      yBus s' = (if yBus s < bus_capacity then yBus s + 1 else yBus s)
    else table db s' = table db s \<and> yBus s' = yBus s"
  using sync_world.Upsert_run [OF assms] by (simp add: signalled_def split: if_splits)

lemma upsert_atomic_witness:
  "\<exists>u. mem_db (psRest (yPm (snd (Upsert (mem_sync 200) sample_tenant (mem_state [] [] []))))) ''t1'' = Some u \<and>
     same_tenant sample_tenant u"
proof -
  let ?s = "mem_state [] [] []"
  have r: "fst (Upsert (mem_sync 200) sample_tenant ?s) = Ok ()"
    by code_simp
  from upsert_atomic [OF mem_sync.sync_world_axioms surjective_pairing, of 200 sample_tenant ?s] r
  show ?thesis by (auto simp: table_def sample_tenant_def)
qed

section \<open>Removal\<close>

text \<open>
  C4: Whatever the outcome of a pass of the synchronization, a tenant that is not flagged as removed
  is stored as before, no tenant appears, and no signal is sent; a turn of the loop takes one signal.
\<close>

theorem pass_keeps_live_tenants:
  assumes "sync_world e db"
  shows "(\<forall>k. table db (snd (processSynchronization e s)) k = table db s k \<or>
      (\<exists>t. table db s k = Some t \<and> tRemoved t \<and> table db (snd (processSynchronization e s)) k = None)) \<and>
    yBus (snd (sync_turn e s)) = yBus s - 1"
proof -
  note pass = keepsD [OF sync_world.keeps_pass [OF assms]]
  have "only_flagged (table db s) (table db (snd (processSynchronization e s)))"
    using pass [of "table db s" "yBus s" s] by (simp add: lost_flagged_def only_flagged_refl)
  moreover have "yBus (snd (ignoring (processSynchronization e) t)) = yBus t" for t
    using pass [of "table db t" "yBus t" t]
    by (auto simp: ignoring_def go_simps lost_flagged_def only_flagged_refl split: prod.split result.split)
  ultimately show ?thesis by (auto simp: only_flagged_def sync_turn_def)
qed

definition flagged_table :: mem_table where
  "flagged_table = [(''a'', zero_tenant\<lparr>tTenantId := ''a''\<rparr>),
     (''b'', zero_tenant\<lparr>tTenantId := ''b'', tRemoved := True\<rparr>)]"

lemma pass_keeps_live_tenants_witness:
  "mem_db (psRest (yPm (snd (processSynchronization (mem_sync 200) (mem_state [] [] flagged_table))))) ''a'' =
     mem_db flagged_table ''a''"
proof -
  let ?s = "mem_state [] [] flagged_table"
  have "table mem_db ?s ''a'' = Some (zero_tenant\<lparr>tTenantId := ''a''\<rparr>)"
    by (simp add: table_def mem_state_def mem_db_def flagged_table_def)
  moreover have "\<not> tRemoved (zero_tenant\<lparr>tTenantId := ''a''\<rparr>)" by (simp add: zero_tenant_def)
  ultimately have "table mem_db (snd (processSynchronization (mem_sync 200) ?s)) ''a'' = table mem_db ?s ''a''"
    using pass_keeps_live_tenants [OF mem_sync.sync_world_axioms, of 200 ?s] by (metis option.inject)
  then show ?thesis by (simp add: table_def mem_state_def)
qed

text \<open>
  C5: When \<open>DeleteTenant\<close> takes effect, the stored tenant has lost its sites and is flagged, and a
  signal is pending; if the conditional deletions of the database succeed, the row is gone after the
  next pass that ends without an error.
\<close>

theorem removed_tenant_deleted:
  assumes "sync_world e db" and "\<And>k x. fst (DeleteIfRemoved (sePg e) k x) = Ok ()"
    and "DeleteTenant e k s = (r, s1)" and "table db s1 \<noteq> table db s"
    and "processSynchronization e s1 = (Ok (), s2)"
  shows "(\<exists>t. table db s k = Some t \<and>
      table db s1 = (table db s)(k \<mapsto> t\<lparr>tSites := mempty, tRemoved := True\<rparr>)) \<and>
    r = Ok () \<and> yBus s1 > 0 \<and> table db s2 k = None"
proof -
  from sync_world.update_and_sync_run [OF assms(1) assms(3) [unfolded DeleteTenant_def]] assms(4)
  obtain t where t: "table db s k = Some t"
    "table db s1 = (table db s)(k \<mapsto> t\<lparr>tSites := mempty, tRemoved := True\<rparr>)"
    and r: "r = Ok ()" "yBus s1 = signalled (yBus s)" by auto
  have "table db s2 k = None"
    by (rule sync_world.pass_deletes [OF assms(1,2,5), where t = "t\<lparr>tSites := mempty, tRemoved := True\<rparr>"])
      (simp_all add: t)
  with t r show ?thesis by (auto simp: signalled_def bus_capacity_def)
qed

lemma mem_delete_ok: "fst (DeleteIfRemoved (sePg (mem_sync code)) k x) = Ok ()"
  by (simp add: mem_sync_simps mem_pg_def DeleteIfRemoved_def usingDB_def logRowsAffected_def go_simps
      split: option.split)

lemma removed_tenant_deleted_witness:
  "let s1 = snd (DeleteTenant (mem_sync 200) ''a'' (mem_state [] [] flagged_table))
   in mem_db (psRest (yPm (snd (processSynchronization (mem_sync 200) s1)))) ''a'' = None"
proof -
  let ?s = "mem_state [] [] flagged_table" and ?e = "mem_sync 200"
  let ?s1 = "snd (DeleteTenant ?e ''a'' ?s)"
  have differ: "table mem_db ?s1 ''a'' \<noteq> table mem_db ?s ''a''" by code_simp
  have "fst (processSynchronization ?e ?s1) = Ok ()" by code_simp
  then have pass: "processSynchronization ?e ?s1 = (Ok (), snd (processSynchronization ?e ?s1))"
    by (simp add: prod_eq_iff)
  from differ have "table mem_db ?s1 \<noteq> table mem_db ?s" by metis
  from removed_tenant_deleted [OF mem_sync.sync_world_axioms mem_delete_ok surjective_pairing this pass]
  show ?thesis by (simp add: table_def)
qed

section \<open>Service names\<close>

text \<open>
  C24: When \<open>GetServiceName\<close> returns a name, the tenant manager has given an object id for the external
  id, the table has a row for this id, and the name is the one that is stored in this very row when
  it returns. A row that has a name keeps it; it is stored again, with its sites and namespaces
  prepared anew, only if its status differs from the one of the tenant manager. A row without a name
  gets the generated one and the status of the tenant manager and is otherwise what it was. No
  other row changes.
\<close>

theorem service_name_stored:
  assumes "sync_world e db" and "SyncUpsert.GetServiceName e externalId s = (Ok name, s')"
  shows "\<exists>td s1 t u. on_world (GetTenantByExternalId (seTm e) externalId) s = (Ok td, s1) \<and>
    table db s (tmObjectId td) = Some t \<and>
    table db s' = (table db s)(tmObjectId td \<mapsto> u) \<and> tServiceName u = name \<and>
    (tServiceName t = [] \<longrightarrow> u = t\<lparr>tActive := (tmStatus td = Active), tServiceName := name\<rparr>) \<and>
    (tServiceName t \<noteq> [] \<longrightarrow> name = tServiceName t \<and>
      (if tActive t = (tmStatus td = Active) then u = t
       else same_tenant (t\<lparr>tActive := (tmStatus td = Active)\<rparr>) u))"
proof -
  from sync_world.GetServiceName_run [OF assms] obtain td s1 t where
    td: "on_world (GetTenantByExternalId (seTm e) externalId) s = (Ok td, s1)"
    and t: "table db s (tmObjectId td) = Some t"
    and run: "if tServiceName t = []
     then table db s' = (table db s)(tmObjectId td \<mapsto>
       t\<lparr>tActive := (tmStatus td = Active), tServiceName := name\<rparr>)
     else name = tServiceName t \<and> (if tActive t = (tmStatus td = Active) then table db s' = table db s
       else \<exists>u. same_tenant (t\<lparr>tActive := (tmStatus td = Active)\<rparr>) u \<and>
         table db s' = (table db s)(tmObjectId td \<mapsto> u))" by blast
  note witness = exI [of _ td, OF exI [of _ s1, OF exI [of _ t, OF exI]]]
  show ?thesis
  proof (cases "tServiceName t = []")
    case True
    with run td t show ?thesis by (intro witness) auto
  next
    case named: False
    show ?thesis
    proof (cases "tActive t = (tmStatus td = Active)")
      case True
      with named run t have "table db s' = (table db s)(tmObjectId td \<mapsto> t)" by (simp add: map_upd_triv)
      with named True run td t show ?thesis by (intro witness [where x3 = t]) auto
    next
      case False
      with named run obtain u where "same_tenant (t\<lparr>tActive := (tmStatus td = Active)\<rparr>) u"
        "table db s' = (table db s)(tmObjectId td \<mapsto> u)" "name = tServiceName t" by auto
      with named False td t show ?thesis by (intro witness) (auto simp: same_tenant_def)
    qed
  qed
qed

lemma service_name_stored_witness:
  "table mem_db (snd (SyncUpsert.GetServiceName (mem_sync 200) ''e1''
      (mem_state [] [] [(''o1'', zero_tenant\<lparr>tTenantId := ''o1'', tTenantName := ''acme''\<rparr>)]))) ''o1'' =
     Some (zero_tenant\<lparr>tTenantId := ''o1'', tTenantName := ''acme'', tActive := True,
       tServiceName := ''tenant-acme''\<rparr>)"
proof -
  let ?t = "zero_tenant\<lparr>tTenantId := ''o1'', tTenantName := ''acme''\<rparr>"
  let ?s = "mem_state [] [] [(''o1'', ?t)]"
  let ?m = "SyncUpsert.GetServiceName (mem_sync 200) ''e1'' ?s"
  have "fst ?m = Ok ''tenant-acme''" by code_simp
  then have m: "?m = (Ok ''tenant-acme'', snd ?m)" by (simp add: prod_eq_iff)
  have tm: "fst (on_world (GetTenantByExternalId (seTm (mem_sync 200)) ''e1'') ?s) =
      Ok (sample_tm_tenant StatusActive)" by code_simp
  from service_name_stored [OF mem_sync.sync_world_axioms m] obtain td s1 t u where
    td: "on_world (GetTenantByExternalId (seTm (mem_sync 200)) ''e1'') ?s = (Ok td, s1)"
    and t: "table mem_db ?s (tmObjectId td) = Some t"
    and row: "table mem_db (snd ?m) = (table mem_db ?s)(tmObjectId td \<mapsto> u)"
    and u: "tServiceName t = [] \<longrightarrow>
      u = t\<lparr>tActive := (tmStatus td = Active), tServiceName := ''tenant-acme''\<rparr>"
    by (elim exE conjE) (rule that; assumption)
  from tm td have td': "td = sample_tm_tenant StatusActive" by simp
  have i: "tmObjectId td = ''o1'' \<and> tmStatus td = Active"
    by (simp add: td' sample_tm_tenant_def StatusActive_def Active_def)
  with t have "t = ?t" by (simp add: table_def mem_state_def mem_db_def zero_tenant_def)
  with u i have "u = ?t\<lparr>tActive := True, tServiceName := ''tenant-acme''\<rparr>" by (simp add: zero_tenant_def)
  with row i show ?thesis by simp
qed

section \<open>Virtual services\<close>

text \<open>
  C19: The creation of a virtual service either fails and leaves the tenants as they were, or its route
  is valid, the service and then the route of the registration were created, and the host of the
  route that the platform answered with is appended to the addresses of the service in the
  default site of every active tenant, and nothing else changes. Its deletion either
  fails and leaves the tenants as they were, or takes all the addresses of the service from every
  site of every tenant; every other address and every other field of the tenants is as before, and
  no tenant appears or disappears.
\<close>

theorem virtual_service_stored:
  assumes "sync_world e db" and "CreateVirtualService e req s = (r, s1)"
    and "DeleteVirtualService e service s1 = (r2, s2)"
  shows "(r \<noteq> Ok () \<longrightarrow> table db s1 = table db s) \<and>
    (r = Ok () \<longrightarrow> snd (IsRouteValid (registration_ToRoute req (sePlatformHostname e) (own_namespace e))
        (own_namespace e)) \<and>
      (\<exists>sv v made w.
        on_pm (CreateService (sePm e) (seClient e) (ToService req) (own_namespace e)) s = (Ok sv, v) \<and>
        on_pm (CreateRoute (sePm e) (seClient e) (registration_ToRoute req (sePlatformHostname e)
          (own_namespace e)) (own_namespace e)) v = (Ok made, w) \<and>
        table db s1 = (\<lambda>k. map_option (\<lambda>t. if tActive t
          then add_route (route_host made) (srVirtualService req) t else t) (table db s k)))) \<and>
    (r2 \<noteq> Ok () \<longrightarrow> table db s2 = table db s1) \<and>
    (r2 = Ok () \<longrightarrow> (\<forall>k. table db s1 k = None \<longrightarrow> table db s2 k = None) \<and>
      (\<forall>k t. table db s1 k = Some t \<longrightarrow> (\<exists>u sites. table db s2 k = Some u \<and> u = t\<lparr>tSites := sites\<rparr> \<and>
        (\<forall>site S. addresses_at u site S = (if S = service then None else addresses_at t site S)))))"
proof -
  note create = sync_world.CreateVirtualService_run [OF assms(1,2)]
  from sync_world.DeleteVirtualService_run [OF assms(1,3)] have
    delete: "r2 \<noteq> Ok () \<Longrightarrow> table db s2 = table db s1"
      "r2 = Ok () \<Longrightarrow> table db s2 k = map_option (delete_service service) (table db s1 k)" for k
    by simp_all
  have row: "\<exists>u sites. table db s2 k = Some u \<and> u = t\<lparr>tSites := sites\<rparr> \<and>
      (\<forall>site S. addresses_at u site S = (if S = service then None else addresses_at t site S))"
    if "r2 = Ok ()" "table db s1 k = Some t" for k t
    using delete(2) [OF that(1), of k] that(2) delete_service_frame [of service t]
    by (intro exI [of _ "delete_service service t"]) (simp add: addresses_at_delete_service)
  have none: "table db s2 k = None" if "r2 = Ok ()" "table db s1 k = None" for k
    using delete(2) [OF that(1), of k] that(2) by simp
  from create delete(1) row none show ?thesis by simp
qed

lemma virtual_service_stored_witness:
  "table mem_db (snd (CreateVirtualService (mem_sync 201) sample_registration (mem_state [] [] mem_sample))) =
     (\<lambda>k. map_option (\<lambda>t. if tActive t then add_route ''my-gw-ns.example.com'' (srVirtualService sample_registration) t else t)
       (mem_db mem_sample k))"
proof -
  let ?s = "mem_state [] [] mem_sample" and ?e = "mem_sync 201" and ?req = sample_registration
  have "fst (CreateVirtualService ?e ?req ?s) = Ok ()" by code_simp
  then have run: "CreateVirtualService ?e ?req ?s = (Ok (), snd (CreateVirtualService ?e ?req ?s))"
    by (simp add: prod_eq_iff)
  have host: "(case fst (on_pm (CreateRoute (sePm ?e) (seClient ?e)
      (registration_ToRoute ?req (sePlatformHostname ?e) (own_namespace ?e)) (own_namespace ?e))
        (snd (on_pm (CreateService (sePm ?e) (seClient ?e) (ToService ?req) (own_namespace ?e)) ?s))) of
      Ok made \<Rightarrow> route_host made | _ \<Rightarrow> []) = ''my-gw-ns.example.com''" by code_simp
  have "table mem_db ?s = mem_db mem_sample" by (simp add: table_def mem_state_def)
  note stored = virtual_service_stored [OF mem_sync.sync_world_axioms run surjective_pairing, of "''shop''",
    unfolded this, THEN conjunct2, THEN conjunct1, THEN mp, OF refl, THEN conjunct2]
  then obtain sv v made w where
    "on_pm (CreateService (sePm ?e) (seClient ?e) (ToService ?req) (own_namespace ?e)) ?s = (Ok sv, v)"
    "on_pm (CreateRoute (sePm ?e) (seClient ?e) (registration_ToRoute ?req (sePlatformHostname ?e)
      (own_namespace ?e)) (own_namespace ?e)) v = (Ok made, w)"
    and table: "table mem_db (snd (CreateVirtualService ?e ?req ?s)) = (\<lambda>k. map_option (\<lambda>t. if tActive t
       then add_route (route_host made) (srVirtualService ?req) t else t) (mem_db mem_sample k))"
    by (elim exE conjE) (rule that; assumption)
  with host have made: "route_host made = ''my-gw-ns.example.com''" by simp
  from table show ?thesis unfolding made .
qed

end
