(* ===== verification/SyncChecks.thy ===== *)
theory SyncChecks
  imports SyncTheorems
begin

text \<open>
  The decisions of the synchronizer that read the caches of the mediation client: which routes a pass
  deletes, which addresses are kept out of the stored schemes, which service names are free, whether
  a service exists, and which virtual services may be changed.
\<close>

section \<open>Reading a known namespace\<close>

definition knows_services :: "'x sync_env \<Rightarrow> string \<Rightarrow> service list \<Rightarrow> 'x sync_state \<Rightarrow> bool" where
  "knows_services e namespace svs s \<longleftrightarrow> namespace \<noteq> [] \<and>
     map_option (\<lambda>m. map snd (ments m)) (mlookup (psServices (yPm s)) namespace) = Some svs"

lemma get_services_run:
  assumes "knows_services e namespace svs s"
  shows "s_GetServices2 e namespace p s = (Ok (filter p svs), s)"
  using assms get_cached_known [of psServices "yPm s" namespace]
  by (auto simp: knows_services_def s_GetServices2_def GetServices2_def GetServices_def on_pm_def
      or_own_namespace_def go_simps)

section \<open>Stale routes\<close>

lemma event_deleted_cached:
  "cached (snd (updateRoutesCache_event \<lparr>ruType = updateTypeDeleted, ruObject = rt\<rparr> c)) n k = cached c n k \<or>
   (n = mNamespace (rtMetadata rt) \<and> k = CacheKey rt \<and>
     cached (snd (updateRoutesCache_event \<lparr>ruType = updateTypeDeleted, ruObject = rt\<rparr> c)) n k = None)"
proof (cases "known c (mNamespace (rtMetadata rt))")
  case True
  with routes.step_cached [of c "\<lparr>ruType = updateTypeDeleted, ruObject = rt\<rparr>" n k] show ?thesis
    by (simp add: event_effect_def)
next
  case False
  then show ?thesis
    by (auto simp: updateRoutesCache_event_def known_def Let_def split: option.split gomap.split)
qed

lemma delete_route_cases:
  "cached (psRoutes (snd (DeleteRoute env c rt s))) n k = cached (psRoutes s) n k \<or>
   (n = mNamespace (rtMetadata rt) \<and> k = CacheKey rt \<and> cached (psRoutes (snd (DeleteRoute env c rt s))) n k = None)"
proof -
  let ?url = "url_or_400 (buildUrl c (mNamespace (rtMetadata rt)) routesString (route_name rt))"
  obtain q t where url: "?url s = (q, t)" by (cases "?url s")
  then have t: "t = s" by (auto simp: url_or_400_run split: sum.splits)
  show ?thesis
  proof (cases q)
    case (Ok u)
    obtain w t2 where req: "performRequest env u ''DELETE'' NoBody 200 (peAny env) () s = (w, t2)"
      by (cases "performRequest env u ''DELETE'' NoBody 200 (peAny env) () s")
    then have same: "psRoutes t2 = psRoutes s" using performRequest_caches [OF req] by (simp add: same_caches_def)
    show ?thesis
    proof (cases w)
      case w: (Ok x)
      have "DeleteRoute env c rt s = updateRoutesCache env c \<lparr>ruType = updateTypeDeleted, ruObject = rt\<rparr> t2"
        using url t Ok req w by (simp add: DeleteRoute_def go_simps Let_def)
      then show ?thesis using event_deleted_cached [of rt "psRoutes t2" n k] same
        by (simp add: updateRoutesCache_def on_routes_def gzoom_snd)
    qed (use url t Ok req same in \<open>auto simp: DeleteRoute_def go_simps Let_def\<close>)
  qed (use url t in \<open>auto simp: DeleteRoute_def go_simps Let_def\<close>)
qed

abbreviation route_in :: "'x sync_state \<Rightarrow> string \<Rightarrow> string \<Rightarrow> route option" where
  "route_in s n k \<equiv> cached (psRoutes (yPm s)) n k"

lemma on_pm_ignoring_snd: "snd (ignoring (on_pm m) s) = s\<lparr>yPm := snd (m (yPm s))\<rparr>"
  by (auto simp: ignoring_def on_pm_def go_simps split: prod.split result.split)

lemma delete_stale_cases:
  "route_in (snd (delete_stale_routes e ts rs s)) n k = route_in s n k \<or>
   (route_in (snd (delete_stale_routes e ts rs s)) n k = None \<and>
     (\<exists>r \<in> set rs. is_stale ts r \<and> n = mNamespace (rtMetadata r) \<and> k = CacheKey r))"
proof (induction rs arbitrary: s)
  case Nil
  then show ?case by (simp add: delete_stale_routes_def go_simps)
next
  case (Cons r rs)
  let ?body = "\<lambda>r. if is_stale ts r then ignoring (on_pm (DeleteRoute (sePm e) (seClient e) r)) else gret ()"
  obtain q t where q: "?body r s = (q, t)" by (cases "?body r s")
  have t: "route_in t n k = route_in s n k \<or> (route_in t n k = None \<and> is_stale ts r \<and>
      n = mNamespace (rtMetadata r) \<and> k = CacheKey r)"
    using q on_pm_ignoring_snd [of "DeleteRoute (sePm e) (seClient e) r" s]
      delete_route_cases [of "sePm e" "seClient e" r "yPm s" n k]
    by (auto simp: go_simps split: if_splits)
  show ?case
  proof (cases q)
    case (Ok x)
    with q have "snd (delete_stale_routes e ts (r # rs) s) = snd (delete_stale_routes e ts rs t)"
      by (simp add: delete_stale_routes_def go_simps)
    with Cons.IH [of t] t show ?thesis by auto
  qed (use q t in \<open>auto simp: delete_stale_routes_def go_simps\<close>)
qed

text \<open>The platform accepts every deletion.\<close>

definition accepts_deletes :: "'x pm_env \<Rightarrow> bool" where
  "accepts_deletes env \<longleftrightarrow> (\<forall>url x. \<exists>b x'. peDo env url ''DELETE'' NoBody x =
     (Ok \<lparr>hrStatusCode = 200, hrBody = b\<rparr>, x') \<and> (\<forall>m. peAny env b \<noteq> Malformed m))"

lemma delete_route_accepted:
  assumes "accepts_deletes env" and "mNamespace (rtMetadata rt) \<noteq> []"
    and "known (psRoutes s) (mNamespace (rtMetadata rt))"
  shows "cached (psRoutes (snd (DeleteRoute env c rt s))) n k =
      (if n = mNamespace (rtMetadata rt) \<and> k = CacheKey rt then None else cached (psRoutes s) n k)"
    and "known (psRoutes (snd (DeleteRoute env c rt s))) n \<longleftrightarrow> known (psRoutes s) n"
    and "fst (DeleteRoute env c rt s) = Ok ()"
proof -
  let ?ev = "\<lparr>ruType = updateTypeDeleted, ruObject = rt\<rparr>"
  obtain u where url: "buildUrl c (mNamespace (rtMetadata rt)) routesString (route_name rt) = Inr u"
    using assms(2) by (simp add: buildUrl_def routesString_def Let_def)
  from assms(1) obtain b x where "peDo env u ''DELETE'' NoBody (psRest s) = (Ok \<lparr>hrStatusCode = 200, hrBody = b\<rparr>, x)"
    and "\<forall>m. peAny env b \<noteq> Malformed m" unfolding accepts_deletes_def by metis
  then have "performRequest env u ''DELETE'' NoBody 200 (peAny env) () s = (Ok (), s\<lparr>psRest := x\<rparr>)"
    by (cases "peAny env b") (simp_all add: performRequest_def on_rest_def decodeResponseBody_def go_simps)
  then have run: "DeleteRoute env c rt s = on_routes (updateRoutesCache_event ?ev) (s\<lparr>psRest := x\<rparr>)"
    using url by (simp add: DeleteRoute_def go_simps url_or_400_def Let_def updateRoutesCache_def)
  have k: "known (psRoutes s) (mNamespace (rtMetadata (ruObject ?ev)))" using assms(3) by simp
  show "cached (psRoutes (snd (DeleteRoute env c rt s))) n k =
      (if n = mNamespace (rtMetadata rt) \<and> k = CacheKey rt then None else cached (psRoutes s) n k)"
    using routes.step_cached [OF k, of n k] by (simp add: run on_routes_def gzoom_snd event_effect_def)
  show "known (psRoutes (snd (DeleteRoute env c rt s))) n \<longleftrightarrow> known (psRoutes s) n"
    using routes.step_known [OF k, of n] by (simp add: run on_routes_def gzoom_snd)
  show "fst (DeleteRoute env c rt s) = Ok ()"
    using routes.step_ok [OF k] by (simp add: run on_routes_def gzoom_fst)
qed

lemma on_pm_ignoring_ok:
  "fst (m (yPm s)) = Ok x \<Longrightarrow> ignoring (on_pm m) s = (Ok (), s\<lparr>yPm := snd (m (yPm s))\<rparr>)"
  by (cases "m (yPm s)") (simp add: ignoring_def on_pm_def go_simps)

lemma delete_stale_accepted:
  assumes "accepts_deletes (sePm e)" and "\<And>r. r \<in> set rs \<Longrightarrow> mNamespace (rtMetadata r) \<noteq> [] \<and>
      known (psRoutes (yPm s)) (mNamespace (rtMetadata r))"
  shows "fst (delete_stale_routes e ts rs s) = Ok () \<and> route_in (snd (delete_stale_routes e ts rs s)) n k =
    (if \<exists>r \<in> set rs. is_stale ts r \<and> n = mNamespace (rtMetadata r) \<and> k = CacheKey r then None
     else route_in s n k)"
  using assms(2)
proof (induction rs arbitrary: s)
  case Nil
  then show ?case by (simp add: delete_stale_routes_def go_simps)
next
  case (Cons r rs)
  let ?body = "\<lambda>r. if is_stale ts r then ignoring (on_pm (DeleteRoute (sePm e) (seClient e) r)) else gret ()"
  obtain q t where q: "?body r s = (q, t)" by (cases "?body r s")
  note r = Cons.prems [of r, simplified]
  note d = delete_route_accepted [OF assms(1) conjunct1 [OF r] conjunct2 [OF r], of "seClient e"]
  have t: "q = Ok ()" "route_in t n k = (if is_stale ts r \<and> n = mNamespace (rtMetadata r) \<and> k = CacheKey r
      then None else route_in s n k)" "known (psRoutes (yPm t)) n' \<longleftrightarrow> known (psRoutes (yPm s)) n'" for n'
  proof -
    have "q = Ok () \<and> t = (if is_stale ts r
        then s\<lparr>yPm := snd (DeleteRoute (sePm e) (seClient e) r (yPm s))\<rparr> else s)"
      using q on_pm_ignoring_ok [of "DeleteRoute (sePm e) (seClient e) r" s, OF d(3)]
      by (auto simp: gret_run)
    then show "q = Ok ()" "route_in t n k = (if is_stale ts r \<and> n = mNamespace (rtMetadata r) \<and> k = CacheKey r
      then None else route_in s n k)" "known (psRoutes (yPm t)) n' \<longleftrightarrow> known (psRoutes (yPm s)) n'"
      by (simp_all add: d(1,2))
  qed
  have "delete_stale_routes e ts (r # rs) s = delete_stale_routes e ts rs t"
    using q t(1) by (simp add: delete_stale_routes_def go_simps)
  moreover have "fst (delete_stale_routes e ts rs t) = Ok () \<and> route_in (snd (delete_stale_routes e ts rs t)) n k =
      (if \<exists>r \<in> set rs. is_stale ts r \<and> n = mNamespace (rtMetadata r) \<and> k = CacheKey r then None
       else route_in t n k)"
    by (rule Cons.IH) (use Cons.prems t(3) in auto)
  ultimately show ?case using t(2) by auto
qed

text \<open>
  C14: Deleting stale routes takes a route from the cache only if it has the namespace and the key of a
  listed route that is stale: not general, and with a host, case aside, of no active tenant. When the
  platform accepts the deletions and the namespaces are known, exactly these routes are gone.
\<close>

theorem stale_routes_deleted:
  "(route_in (snd (delete_stale_routes e ts rs s)) n k \<noteq> route_in s n k \<longrightarrow>
     (\<exists>r \<in> set rs. \<not> RouteIsGeneral r \<and> n = mNamespace (rtMetadata r) \<and> k = CacheKey r \<and>
       (\<forall>t \<in> set ts. tActive t \<longrightarrow> (\<forall>a \<in> set (all_addresses t). ToLower (Host a) \<noteq> ToLower (route_host r))))) \<and>
   (accepts_deletes (sePm e) \<longrightarrow>
    (\<forall>r \<in> set rs. mNamespace (rtMetadata r) \<noteq> [] \<and> known (psRoutes (yPm s)) (mNamespace (rtMetadata r))) \<longrightarrow>
    route_in (snd (delete_stale_routes e ts rs s)) n k =
      (if \<exists>r \<in> set rs. is_stale ts r \<and> n = mNamespace (rtMetadata r) \<and> k = CacheKey r then None
       else route_in s n k))"
proof -
  have "is_stale ts r \<longleftrightarrow> \<not> RouteIsGeneral r \<and>
      (\<forall>t \<in> set ts. tActive t \<longrightarrow> (\<forall>a \<in> set (all_addresses t). ToLower (Host a) \<noteq> ToLower (route_host r)))" for r
    by (auto simp: is_stale_def hostBelongsToActiveTenant_def list_ex_iff)
  then have "route_in (snd (delete_stale_routes e ts rs s)) n k \<noteq> route_in s n k \<longrightarrow>
     (\<exists>r \<in> set rs. \<not> RouteIsGeneral r \<and> n = mNamespace (rtMetadata r) \<and> k = CacheKey r \<and>
       (\<forall>t \<in> set ts. tActive t \<longrightarrow> (\<forall>a \<in> set (all_addresses t). ToLower (Host a) \<noteq> ToLower (route_host r))))"
    using delete_stale_cases [of e ts rs s n k] by blast
  moreover have "accepts_deletes (sePm e) \<longrightarrow>
    (\<forall>r \<in> set rs. mNamespace (rtMetadata r) \<noteq> [] \<and> known (psRoutes (yPm s)) (mNamespace (rtMetadata r))) \<longrightarrow>
    route_in (snd (delete_stale_routes e ts rs s)) n k =
      (if \<exists>r \<in> set rs. is_stale ts r \<and> n = mNamespace (rtMetadata r) \<and> k = CacheKey r then None
       else route_in s n k)"
    using delete_stale_accepted [of e rs s ts n k] by blast
  ultimately show ?thesis by (rule conjI)
qed

lemma stale_routes_deleted_witness:
  "route_in (snd (delete_stale_routes (mem_sync 200) [] [sample_route ''r'' ''a.com'']
     (mem_state [sample_route ''r'' ''a.com''] [] []))) ''ns'' ''Route/r'' = None"
proof -
  let ?r = "sample_route ''r'' ''a.com''"
  let ?s = "mem_state [?r] [] []"
  have "accepts_deletes (sePm (mem_sync 200))"
    by (simp add: accepts_deletes_def mem_sync_def mem_pm_def go_simps)
  moreover have "mNamespace (rtMetadata ?r) = ''ns''" "CacheKey ?r = ''Route/r''"
    "is_stale [] ?r" by code_simp+
  moreover have "known (psRoutes (yPm ?s)) ''ns''"
    by (simp add: mem_state_def known_def keyed_def)
  ultimately show ?thesis
    using stale_routes_deleted [of "mem_sync 200" "[]" "[?r]" ?s "''ns''" "''Route/r''"] by simp
qed

section \<open>Addresses of general routes\<close>

lemma filter_addresses_length:
  assumes "snd (fst st) \<le> length (fst (fst st))" and "\<And>i. i \<in> set is \<Longrightarrow> i < length (fst (fst st))"
  shows "length (fst (fst (filter_addresses general is st))) = length (fst (fst st))"
  using assms
proof (induction general "is" st rule: filter_addresses.induct)
  case (2 general i "is" addresses deleted)
  have "snd (sremove i addresses) \<le> length (fst addresses)"
    using 2(2) less_imp_le [OF 2(3) [of i]] by (cases addresses) (auto simp: sremove_def)
  moreover have "length (fst (sremove i addresses)) = length (fst addresses)"
    using length_fst_sremove 2(2) by simp
  ultimately show ?case using 2 by (simp split: if_splits)
qed simp

lemma filter_addresses_none:
  "(\<And>i. i \<in> set is \<Longrightarrow> \<not> general (fst (fst st) ! i)) \<Longrightarrow> filter_addresses general is st = st"
  by (induction general "is" st rule: filter_addresses.induct) auto

lemma filter_addresses_append:
  "filter_addresses general (is @ js) st = filter_addresses general js (filter_addresses general is st)"
  by (induction general "is" st rule: filter_addresses.induct) auto

text \<open>
  The addresses of a service are taken out of a scheme only as a whole: what is stored for a
  service that stays has as many addresses as before. A service without a general address stays as
  it is, a service whose only address is general goes, but a general address that follows others
  stays, and one before a single other address is overwritten by a copy of it.
\<close>

theorem general_addresses_filtered:
  "(\<forall>as'. filter_service general as = Some as' \<longrightarrow> length as' = length as) \<and>
   ((\<forall>a \<in> set as. \<not> general a) \<longrightarrow> filter_service general as = Some as \<and>
     (general g \<longrightarrow> filter_service general [g] = None \<and>
       (as \<noteq> [] \<longrightarrow> filter_service general (as @ [g]) = Some (as @ [g])) \<and>
       (\<forall>b. as = [b] \<longrightarrow> filter_service general (g # as) = Some [b, b])))"
proof (intro conjI allI impI)
  fix as' assume "filter_service general as = Some as'"
  then have "as' = fst (fst (filter_addresses general [0..<length as] (slice_of as, False)))"
    by (auto simp: filter_service_def split: prod.splits if_splits)
  then show "length as' = length as"
    using filter_addresses_length [of "(slice_of as, False)" "[0..<length as]" general]
    by (simp add: slice_of_def)
next
  assume none: "\<forall>a \<in> set as. \<not> general a"
  then have keep: "filter_addresses general [0..<length as] ((as @ ys, m), False) = ((as @ ys, m), False)" for ys m
    by (intro filter_addresses_none) (simp add: nth_append)
  from keep [of "[]"] show "filter_service general as = Some as"
    by (simp add: filter_service_def slice_of_def)
  assume g: "general g"
  then show "filter_service general [g] = None" by (simp add: filter_service_def slice_of_def)
  show "filter_service general (as @ [g]) = Some (as @ [g])" if "as \<noteq> []"
    using keep [of "[g]" "Suc (length as)"] g that
    by (simp add: filter_service_def slice_of_def filter_addresses_append sremove_def)
  show "filter_service general (g # as) = Some [b, b]" if "as = [b]" for b
    using g none that by (simp add: filter_service_def slice_of_def sremove_def)
qed

lemma general_addresses_filtered_witness:
  "filter_service (\<lambda>a. a = Address ''general.com'') [Address ''general.com'', Address ''own.com''] =
     Some [Address ''own.com'', Address ''own.com'']"
  using general_addresses_filtered [of "\<lambda>a. a = Address ''general.com''" "[Address ''own.com'']"
      "Address ''general.com''"] by simp

section \<open>Free service names\<close>

abbreviation names_of :: "service list \<Rightarrow> string set" where
  "names_of svs \<equiv> service_name ` set svs"

lemma exists_run:
  "knows_services e (own_namespace e) svs s \<Longrightarrow>
     serviceNameAlreadyExists e name s = (Ok (name \<in> names_of svs), s)"
  by (auto simp: serviceNameAlreadyExists_def get_services_run go_simps filter_empty_conv)

lemma Itoa_1: "Itoa 1 = ''1''"
  by code_simp

lemma unique_loop_grow:
  assumes "knows_services e (own_namespace e) svs s"
    and "\<And>i. i < n \<Longrightarrow> b @ replicate i (CHR ''1'') \<in> names_of svs"
    and "b @ replicate n (CHR ''1'') \<notin> names_of svs" and "n < fuel" and "length b + n \<le> nameMaxLength"
  shows "unique_name_loop fuel e t opt b s = (Ok (b @ replicate n (CHR ''1'')), s)"
  using assms(2-)
proof (induction n arbitrary: b fuel opt)
  case 0
  then show ?case by (cases fuel) (simp_all add: exists_run [OF assms(1)] go_simps)
next
  case (Suc n)
  obtain f where f: "fuel = Suc f" using Suc.prems(3) by (cases fuel) auto
  have shift: "(b @ ''1'') @ replicate i (CHR ''1'') = b @ replicate (Suc i) (CHR ''1'')" for i
    by simp
  have "unique_name_loop f e t opt (b @ ''1'') s = (Ok ((b @ ''1'') @ replicate n (CHR ''1'')), s)"
    by (rule Suc.IH) (use Suc.prems f in \<open>simp_all only: shift\<close>, use Suc.prems f in auto)
  moreover have "b \<in> names_of svs" using Suc.prems(1) [of 0] by simp
  moreover have "length (b @ Itoa 1) \<le> nameMaxLength" using Suc.prems(4) by (simp add: Itoa_1)
  ultimately show ?case
    by (simp add: f exists_run [OF assms(1)] next_service_name_def go_simps Itoa_1)
qed

lemma free_name:
  "\<exists>n \<le> length svs. b @ replicate n (CHR ''1'') \<notin> names_of svs \<and>
     (\<forall>i < n. b @ replicate i (CHR ''1'') \<in> names_of svs)"
proof -
  let ?f = "\<lambda>n. b @ replicate n (CHR ''1'')"
  have "\<exists>n \<le> length svs. ?f n \<notin> names_of svs"
  proof (rule ccontr)
    assume "\<not> ?thesis"
    then have "?f ` {..length svs} \<subseteq> names_of svs" by auto
    then have "card (?f ` {..length svs}) \<le> card (names_of svs)" by (intro card_mono) auto
    moreover have "inj_on ?f {..length svs}" by (auto simp: inj_on_def dest: arg_cong [where f = length])
    ultimately have "Suc (length svs) \<le> card (names_of svs)" by (simp add: card_image)
    also have "\<dots> \<le> card (set svs)" by (rule card_image_le) simp
    also have "\<dots> \<le> length svs" by (rule card_length)
    finally show False by simp
  qed
  then obtain m where m: "m \<le> length svs" "?f m \<notin> names_of svs" by blast
  define n where "n = (LEAST n. ?f n \<notin> names_of svs)"
  have "?f n \<notin> names_of svs" "n \<le> m" "\<forall>i < n. ?f i \<in> names_of svs"
    unfolding n_def using LeastI [of "\<lambda>n. ?f n \<notin> names_of svs", OF m(2)]
      Least_le [of "\<lambda>n. ?f n \<notin> names_of svs", OF m(2)] not_less_Least by blast+
  with m(1) show ?thesis by (meson order_trans)
qed

lemma unique_loop_result:
  assumes "knows_services e (own_namespace e) svs s" and "length b \<le> nameMaxLength"
    and "unique_name_loop fuel e t opt b s = (Ok name, s')"
  shows "length name \<le> nameMaxLength \<and> name \<notin> names_of svs"
  using assms
proof (induction fuel arbitrary: opt b s)
  case 0
  then show ?case by (simp add: gpanic_run)
next
  case (Suc n)
  show ?case
  proof (cases "b \<in> names_of svs")
    case True
    with Suc.prems obtain o' b' u where nx: "next_service_name e t opt b s = (Ok (o', b'), u)"
      and rest: "unique_name_loop n e t o' b' u = (Ok name, s')"
      by (auto simp: exists_run go_simps split: prod.splits result.splits)
    have "length b' \<le> nameMaxLength \<and> knows_services e (own_namespace e) svs u"
      using nx Suc.prems(1) by (auto simp: next_service_name_def Let_def gret_run on_world_run
          knows_services_def split: if_splits elim!: gbind_OkE)
    with Suc.IH rest show ?thesis by blast
  next
    case False
    with Suc.prems show ?thesis by (simp add: exists_run go_simps)
  qed
qed

text \<open>
  C22: A generated service name has at most 63 bytes and is not the name of a cached service of the own
  namespace. The search ends: with fewer services than its fuel and than the bytes that are left for
  digits, it gives the tenant's name with a prefix and the least number of trailing digits 1 that
  makes the name a new one, and the state is unchanged.
\<close>

theorem unique_service_name:
  assumes "knows_services e (own_namespace e) svs s"
  shows "(generateUniqueServiceName e tenantName s = (Ok name, s') \<longrightarrow>
      length name \<le> 63 \<and> name \<notin> names_of svs) \<and>
    (length (tenantPrefix @ tenantName) + length svs \<le> 63 \<longrightarrow> length svs < seFuel e \<longrightarrow>
      (\<exists>n \<le> length svs. generateUniqueServiceName e tenantName s =
          (Ok (tenantPrefix @ tenantName @ replicate n (CHR ''1'')), s) \<and>
        (\<forall>i < n. tenantPrefix @ tenantName @ replicate i (CHR ''1'') \<in> names_of svs)))"
proof (rule conjI; intro impI)
  let ?b = "take nameMaxLength (tenantPrefix @ tenantName)"
  assume run: "generateUniqueServiceName e tenantName s = (Ok name, s')"
  have b: "length ?b \<le> nameMaxLength" by simp
  show "length name \<le> 63 \<and> name \<notin> names_of svs"
    using unique_loop_result [OF assms b run [unfolded generateUniqueServiceName_def]]
    unfolding nameMaxLength_def .
next
  let ?b = "tenantPrefix @ tenantName"
  assume short: "length ?b + length svs \<le> 63" and fuel: "length svs < seFuel e"
  have b: "take nameMaxLength ?b = ?b" using short by (simp add: nameMaxLength_def)
  from free_name [of svs ?b] obtain n where n: "n \<le> length svs" "?b @ replicate n (CHR ''1'') \<notin> names_of svs"
    "\<And>i. i < n \<Longrightarrow> ?b @ replicate i (CHR ''1'') \<in> names_of svs" by blast
  have "generateUniqueServiceName e tenantName s = (Ok (?b @ replicate n (CHR ''1'')), s)"
    unfolding generateUniqueServiceName_def b
    by (rule unique_loop_grow [OF assms n(3,2)]) (use n(1) short fuel in \<open>auto simp: nameMaxLength_def\<close>)
  with n show "\<exists>n \<le> length svs. generateUniqueServiceName e tenantName s =
      (Ok (tenantPrefix @ tenantName @ replicate n (CHR ''1'')), s) \<and>
      (\<forall>i < n. tenantPrefix @ tenantName @ replicate i (CHR ''1'') \<in> names_of svs)"
    unfolding append_assoc by blast
qed

definition named_service :: "string \<Rightarrow> annotations \<Rightarrow> service" where
  "named_service name annotations = \<lparr>svMetadata = zero_metadata\<lparr>mName := name, mNamespace := ''ns'',
     mAnnotations := annotations\<rparr>, svSpec = zero_service_spec\<rparr>"

lemma update_new: "k \<notin> set (map fst es) \<Longrightarrow> AList.update k v es = es @ [(k, v)]"
  by (induction es) auto

lemma keyed_distinct:
  assumes "distinct (map k vs)"
  shows "keyed k vs = GoMap (map (\<lambda>v. (k v, v)) vs)"
proof -
  have "foldl (\<lambda>es v. AList.update (k v) v es) es vs = es @ map (\<lambda>v. (k v, v)) vs"
    if "distinct (map fst es @ map k vs)" for es
    using that by (induction vs arbitrary: es) (simp_all add: update_new)
  from this [of "[]"] assms show ?thesis by (simp add: keyed_def)
qed

lemma mem_knows:
  "distinct (map service_name svs) \<Longrightarrow> knows_services (mem_sync code) ''ns'' svs (mem_state rs svs db)"
  by (simp add: knows_services_def mem_state_def keyed_distinct comp_def)

lemma unique_service_name_witness:
  "\<exists>n \<le> 2. generateUniqueServiceName (mem_sync 200) ''acme'' (mem_state []
     [named_service ''tenant-acme'' NilMap, named_service ''x'' NilMap] []) =
     (Ok (''tenant-acme'' @ replicate n (CHR ''1'')), mem_state []
     [named_service ''tenant-acme'' NilMap, named_service ''x'' NilMap] [])"
proof -
  let ?svs = "[named_service ''tenant-acme'' NilMap, named_service ''x'' NilMap]"
  have k: "knows_services (mem_sync 200) (own_namespace (mem_sync 200)) ?svs (mem_state [] ?svs [])"
    using mem_knows [of ?svs 200 "[]" "[]"] by (simp add: named_service_def mem_sync_def)
  have "length (tenantPrefix @ ''acme'') + length ?svs \<le> 63" "length ?svs < seFuel (mem_sync 200)"
    by (simp_all add: tenantPrefix_def mem_sync_def)
  with unique_service_name [OF k, of "''acme''"] obtain n where "n \<le> length ?svs"
    and "generateUniqueServiceName (mem_sync 200) ''acme'' (mem_state [] ?svs []) =
      (Ok (tenantPrefix @ ''acme'' @ replicate n (CHR ''1'')), mem_state [] ?svs [])" by blast
  then show ?thesis by (intro exI [of _ n]) (simp add: tenantPrefix_def)
qed

section \<open>Does a service exist\<close>

lemma looks: "serviceTimeout div timeout_step = Suc 9"
  by (simp add: serviceTimeout_def timeout_step_def)

lemma find_nowhere: "yields (\<lambda>ns. ns = []) (findServiceInNamespaces e service (CompositeNamespace None []))"
  by (auto simp: yields_def go_simps split: if_splits prod.splits result.splits)

lemma service_loop_empty:
  assumes "\<And>ns. previous = Inr ns \<Longrightarrow> ns = []"
  shows "yields (\<lambda>r. \<forall>ns. r = Inr ns \<longrightarrow> ns = []) (service_loop n e service [] previous)"
  using assms
proof (induction n arbitrary: previous)
  case 0
  then show ?case by (auto intro: yields_gret)
next
  case (Suc n)
  show ?case
  proof (rule yieldsI)
    fix s r t assume run: "service_loop (Suc n) e service [] previous s = (Ok r, t)"
    obtain q v where q: "findServiceInNamespaces e service (CompositeNamespace None []) s = (q, v)"
      by (cases "findServiceInNamespaces e service (CompositeNamespace None []) s")
    from run q obtain prev u where "service_loop n e service [] prev u = (Ok r, t)"
      and "\<And>ns. prev = Inr ns \<Longrightarrow> ns = []"
      by (cases q; auto simp: gtry_run Let_def simp del: findServiceInNamespaces.simps
          dest!: yieldsD [OF find_nowhere] elim!: gbind_OkE; blast)
    with Suc.IH show "\<forall>ns. r = Inr ns \<longrightarrow> ns = []" by (blast dest: yieldsD)
  qed
qed

text \<open>
  The first look decides: if the cache of the namespace holds the service, \<open>isServiceInNamespace\<close>
  returns at once without an error and without any effect; if it does not, the call does not end
  without an error, whatever appears in the caches while it waits, because every later look is for
  the empty namespace.
\<close>

theorem service_seen_at_first_look:
  assumes "knows_services e namespace svs s"
  shows "if service \<in> names_of svs then isServiceInNamespace e service namespace s = (Ok (), s)
    else fst (isServiceInNamespace e service namespace s) \<noteq> Ok ()"
proof (cases "service \<in> names_of svs")
  case True
  then have "filter (\<lambda>sv. service_name sv = service) svs \<noteq> []" by (auto simp: filter_empty_conv)
  then have "findServiceInNamespaces e service (CompositeNamespace None namespace) s = (Ok namespace, s)"
    using get_services_run [OF assms, of "\<lambda>sv. service_name sv = service"] by (simp add: go_simps)
  moreover have "namespace \<noteq> []" using assms by (simp add: knows_services_def)
  ultimately have "service_loop (Suc n) e service namespace previous s = (Ok (Inr namespace), s)" for n previous
    by (simp add: gtry_run gret_run del: findServiceInNamespaces.simps)
  moreover obtain n where "serviceTimeout div timeout_step = Suc n" using looks by blast
  ultimately show ?thesis using True \<open>namespace \<noteq> []\<close>
    by (simp add: isServiceInNamespace_def gbind_run gret_run del: service_loop.simps)
next
  case False
  then have none: "filter (\<lambda>sv. service_name sv = service) svs = []" by (auto simp: filter_empty_conv)
  have first: "findServiceInNamespaces e service (CompositeNamespace None namespace) s = (Ok [], s)"
    using get_services_run [OF assms, of "\<lambda>sv. service_name sv = service"] none by (simp add: go_simps)
  have "fst (isServiceInNamespace e service namespace s) \<noteq> Ok ()"
  proof
    assume "fst (isServiceInNamespace e service namespace s) = Ok ()"
    then obtain s' where run: "isServiceInNamespace e service namespace s = (Ok (), s')"
      by (cases "isServiceInNamespace e service namespace s") simp
    obtain n where n: "serviceTimeout div timeout_step = Suc n" using looks by blast
    from run obtain r u where loop: "service_loop (Suc n) e service namespace (Inr namespace) s = (Ok r, u)"
      and r: "\<exists>ns. r = Inr ns \<and> ns \<noteq> []"
      unfolding isServiceInNamespace_def n
      by (elim gbind_OkE) (auto simp: go_simps split: sum.splits if_splits)
    from loop first obtain v where "service_loop n e service [] (Inr []) v = (Ok r, u)"
      by (auto simp: gtry_run Let_def simp del: findServiceInNamespaces.simps elim!: gbind_OkE)
    from yieldsD [OF service_loop_empty this] r show False by auto
  qed
  with False show ?thesis by simp
qed

lemma service_seen_at_first_look_witness:
  "isServiceInNamespace (mem_sync 200) ''x'' ''ns'' (mem_state [] [named_service ''x'' NilMap] []) =
     (Ok (), mem_state [] [named_service ''x'' NilMap] [])"
  using service_seen_at_first_look [OF mem_knows [of "[named_service ''x'' NilMap]" 200 "[]" "[]"], of "''x''"]
  by (simp add: named_service_def)

section \<open>Which virtual services may be changed\<close>

text \<open>
  A registration whose route is not valid is refused with the status 400, the update of a service
  that exists and is not virtual with 403, the deletion of a service that is not a virtual one with
  404; none of these makes a request or changes anything.
\<close>

theorem virtual_service_guards:
  assumes "knows_services e (own_namespace e) svs s"
  shows "(\<not> snd (IsRouteValid (registration_ToRoute req (sePlatformHostname e) (own_namespace e)) (own_namespace e)) \<longrightarrow>
      (\<exists>msg. CreateVirtualService e req s = (Err (ErrorWrapper 400 msg), s) \<and>
        UpdateOrCreateVirtualService e req s = (Err (ErrorWrapper 400 msg), s))) \<and>
    (snd (IsRouteValid (registration_ToRoute req (sePlatformHostname e) (own_namespace e)) (own_namespace e)) \<longrightarrow>
      (\<exists>sv \<in> set svs. service_name sv = srVirtualService req \<and> \<not> IsVirtual (svMetadata sv)) \<longrightarrow>
      (\<exists>msg. UpdateOrCreateVirtualService e req s = (Err (ErrorWrapper 403 msg), s))) \<and>
    ((\<forall>sv \<in> set svs. service_name sv = name \<longrightarrow> \<not> IsVirtual (svMetadata sv)) \<longrightarrow>
      (\<exists>msg. DeleteVirtualService e name s = (Err (ErrorWrapper 404 msg), s)))"
proof (intro conjI impI)
  let ?v = "IsRouteValid (registration_ToRoute req (sePlatformHostname e) (own_namespace e)) (own_namespace e)"
  show "\<exists>msg. CreateVirtualService e req s = (Err (ErrorWrapper 400 msg), s) \<and>
      UpdateOrCreateVirtualService e req s = (Err (ErrorWrapper 400 msg), s)" if "\<not> snd ?v"
    using that by (cases ?v) (simp add: CreateVirtualService_def UpdateOrCreateVirtualService_def Let_def
      bad_request_def gerr_run)
  show "\<exists>msg. UpdateOrCreateVirtualService e req s = (Err (ErrorWrapper 403 msg), s)"
    if "snd ?v" and "\<exists>sv \<in> set svs. service_name sv = srVirtualService req \<and> \<not> IsVirtual (svMetadata sv)"
  proof -
    have "filter (\<lambda>sv. \<not> IsVirtual (svMetadata sv) \<and> service_name sv = srVirtualService req) svs \<noteq> []"
      using that(2) by (auto simp: filter_empty_conv)
    with that(1) show ?thesis
      by (cases ?v) (simp add: UpdateOrCreateVirtualService_def Let_def gbind_run get_services_run [OF assms] gerr_run)
  qed
  show "\<exists>msg. DeleteVirtualService e name s = (Err (ErrorWrapper 404 msg), s)"
    if "\<forall>sv \<in> set svs. service_name sv = name \<longrightarrow> \<not> IsVirtual (svMetadata sv)"
  proof -
    have "filter (\<lambda>sv. IsVirtual (svMetadata sv) \<and> service_name sv = name) svs = []"
      using that by (auto simp: filter_empty_conv)
    then show ?thesis
      by (simp add: DeleteVirtualService_def Let_def gbind_run get_services_run [OF assms] gerr_run)
  qed
qed

lemma virtual_service_guards_witness:
  "\<exists>msg. DeleteVirtualService (mem_sync 200) ''x'' (mem_state [] [named_service ''x'' NilMap] []) =
     (Err (ErrorWrapper 404 msg), mem_state [] [named_service ''x'' NilMap] [])"
proof -
  have "knows_services (mem_sync 200) (own_namespace (mem_sync 200)) [named_service ''x'' NilMap]
      (mem_state [] [named_service ''x'' NilMap] [])"
    using mem_knows [of "[named_service ''x'' NilMap]" 200 "[]" "[]"] by (simp add: mem_sync_def)
  moreover have "\<not> IsVirtual (svMetadata (named_service ''x'' NilMap))" by code_simp
  ultimately show ?thesis using virtual_service_guards [of "mem_sync 200" "[named_service ''x'' NilMap]"] by simp
qed

section \<open>Waiting for the caches\<close>

text \<open>The caches after \<open>i\<close> pauses.\<close>

abbreviation after_pauses :: "'x sync_env \<Rightarrow> nat \<Rightarrow> 'x sync_state \<Rightarrow> 'x pm_state" where
  "after_pauses e i s \<equiv> (peIdle (sePm e) ^^ i) (yPm s)"

lemma await_update_run:
  "\<exists>m \<le> n. await_update n e last_update before s =
     (Ok (\<exists>i < n. before < last_update (after_pauses e i s)), s\<lparr>yPm := after_pauses e m s\<rparr>)"
proof (induction n arbitrary: s)
  case 0
  then show ?case by (simp add: gret_run)
next
  case (Suc n)
  let ?t = "s\<lparr>yPm := peIdle (sePm e) (yPm s)\<rparr>"
  have shift: "after_pauses e i ?t = after_pauses e (Suc i) s" for i
    by (simp add: funpow_swap1)
  show ?case
  proof (cases "before < last_update (yPm s)")
    case True
    then have "\<exists>i < Suc n. before < last_update (after_pauses e i s)" by (intro exI [of _ 0]) simp
    with True show ?thesis by (intro exI [of _ 0]) (simp add: go_simps)
  next
    case False
    from Suc.IH [of ?t] obtain m where m: "m \<le> n" "await_update n e last_update before ?t =
        (Ok (\<exists>i < n. before < last_update (after_pauses e (Suc i) s)), ?t\<lparr>yPm := after_pauses e (Suc m) s\<rparr>)"
      unfolding shift by blast
    have "(\<exists>i < n. before < last_update (after_pauses e (Suc i) s)) \<longleftrightarrow>
        (\<exists>i < Suc n. before < last_update (after_pauses e i s))"
      using False by (auto simp: Ex_less_Suc2)
    with False m show ?thesis
      by (intro exI [of _ "Suc m"]) (simp add: go_simps on_pm_def)
  qed
qed

text \<open>
  C25: \<open>AwaitAction\<close> runs the action once. Asynchronously it returns what the action returned. Otherwise
  it does so if within 90 looks at the caches, with a pause between them, one shows a later update
  than before the action; if none does, it returns the error of the timeout, whatever the action
  returned, an error included.
\<close>

theorem await_action:
  assumes "f s = (q, t)" and "\<And>p. q \<noteq> Panic p"
  shows "(async \<longrightarrow> AwaitAction e last_update async f s = (q, t)) \<and>
    (\<not> async \<longrightarrow> (\<exists>m \<le> 90. snd (AwaitAction e last_update async f s) = t\<lparr>yPm := after_pauses e m t\<rparr>) \<and>
      fst (AwaitAction e last_update async f s) =
        (if \<exists>i < 90. last_update (yPm s) < last_update (after_pauses e i t) then q
         else Err (PlainError ''Timeout for synchronization was exceeded'')))"
proof -
  have looks: "action_timeout div action_step = 90" by (simp add: action_timeout_def action_step_def)
  from await_update_run [of 90 e last_update "last_update (yPm s)" t] obtain m where "m \<le> 90"
    and "await_update 90 e last_update (last_update (yPm s)) t = (Ok (\<exists>i < 90. last_update (yPm s) <
      last_update (after_pauses e i t)), t\<lparr>yPm := after_pauses e m t\<rparr>)" by blast
  with assms show ?thesis
    by (cases q) (auto simp: AwaitAction_def looks go_simps from_sum_def)
qed

lemma await_action_witness:
  "fst (AwaitAction (mem_sync 200) (\<lambda>_. 0) False (gerr (PlainError ''refused'')) (mem_state [] [] [])) =
     Err (PlainError ''Timeout for synchronization was exceeded'')"
  using await_action [of "gerr (PlainError ''refused'')" "mem_state [] [] []" "Err (PlainError ''refused'')" _
      False "mem_sync 200" "\<lambda>_. 0"] by (simp add: gerr_run)

section \<open>The children of a composite tenant\<close>

text \<open>
  The children of a tenant from its namespaces without the own one, and what the caller's slice of
  namespaces holds afterwards, told without slices that share an array.
\<close>

definition composite_reference ::
  "'x sync_env \<Rightarrow> tenant_dns \<Rightarrow> ('x sync_state, composite_namespace \<times> string list) go" where
  "composite_reference e data =
     (let others = filter (\<lambda>namespace. namespace \<noteq> own_namespace e) (tNamespaces data);
          seen = (if own_namespace e \<in> set (tNamespaces data) \<and> last (tNamespaces data) \<noteq> own_namespace e
            then others @ [last (tNamespaces data)] else tNamespaces data) in
      gbind (case others of
          [] \<Rightarrow> gret None
        | [namespace] \<Rightarrow> gret (Some (CompositeNamespace None namespace))
        | _ \<Rightarrow> gbind (getConfigMapsForNamespaces e others) (\<lambda>configmaps.
            gbind (from_sum (resolveChildForNamespace (own_namespace e) configmaps)) (\<lambda>child. gret (Some child))))
        (\<lambda>child. gret (CompositeNamespace child (own_namespace e), seen)))"

lemma own_removed:
  assumes "count_list xs own \<le> 1"
  shows "sview (remove_while_ranging (\<lambda>x. x = own) xs) = filter (\<lambda>x. x \<noteq> own) xs"
    and "fst (remove_while_ranging (\<lambda>x. x = own) xs) =
      (if own \<in> set xs \<and> last xs \<noteq> own then filter (\<lambda>x. x \<noteq> own) xs @ [last xs] else xs)"
proof -
  have both: "sview (remove_while_ranging (\<lambda>x. x = own) xs) = filter (\<lambda>x. x \<noteq> own) xs \<and>
    fst (remove_while_ranging (\<lambda>x. x = own) xs) =
      (if own \<in> set xs \<and> last xs \<noteq> own then filter (\<lambda>x. x \<noteq> own) xs @ [last xs] else xs)"
  proof (cases "own \<in> set xs")
    case False
    then have "filter (\<lambda>x. x \<noteq> own) xs = xs" by (auto simp: filter_id_conv)
    moreover have "remove_while_ranging (\<lambda>x. x = own) xs = slice_of xs"
      by (rule remove_while_ranging_none) (use False in blast)
    ultimately show ?thesis using False by (simp add: slice_of_def sview_def)
  next
    case True
    then obtain as bs where xs: "xs = as @ own # bs" "own \<notin> set as" by (metis split_list_first)
    with assms have "own \<notin> set bs" by (simp add: count_list_0_iff)
    then have "filter (\<lambda>x. x \<noteq> own) as = as" "filter (\<lambda>x. x \<noteq> own) bs = bs"
      using xs(2) by (auto simp: filter_id_conv)
    moreover have "remove_while_ranging (\<lambda>x. x = own) (as @ own # bs) =
        (if bs = [] then (as @ [own], length as) else (as @ bs @ [last bs], length as + length bs))"
      by (rule remove_while_ranging_one) (use xs(2) \<open>own \<notin> set bs\<close> in auto)
    moreover have "bs \<noteq> [] \<Longrightarrow> last bs \<noteq> own" using \<open>own \<notin> set bs\<close> last_in_set by metis
    ultimately show ?thesis by (simp add: xs(1) sview_def)
  qed
  then show "sview (remove_while_ranging (\<lambda>x. x = own) xs) = filter (\<lambda>x. x \<noteq> own) xs"
    and "fst (remove_while_ranging (\<lambda>x. x = own) xs) =
      (if own \<in> set xs \<and> last xs \<noteq> own then filter (\<lambda>x. x \<noteq> own) xs @ [last xs] else xs)" by blast+
qed

text \<open>
  C23: For a tenant that lists the own namespace at most once, the children are resolved from exactly
  the other namespaces, in their order, as if they had been filtered out: none, the only one, or the
  tree that their config maps give. The caller's slice is changed by this: when the own namespace
  stands before the last place, the elements after it move one place down and the last one is there
  twice. The slice is as it was when the own namespace is its last element or not in it.
\<close>

theorem composite_removes_own:
  assumes "count_list (tNamespaces data) (own_namespace e) \<le> 1"
  shows "getCompositeNamespaceForTenant e data = composite_reference e data"
  unfolding getCompositeNamespaceForTenant_def composite_reference_def Let_def own_removed [OF assms] ..

lemma composite_removes_own_witness:
  "fst (getCompositeNamespaceForTenant (mem_sync 200) (sample_tenant\<lparr>tNamespaces := [''ns'', ''child'']\<rparr>)
     (mem_state [] [] [])) = Ok (CompositeNamespace (Some (CompositeNamespace None ''child'')) ''ns'', [''child'', ''child'']) \<and>
   fst (getCompositeNamespaceForTenant (mem_sync 200) (sample_tenant\<lparr>tNamespaces := [''child'', ''ns'']\<rparr>)
     (mem_state [] [] [])) = Ok (CompositeNamespace (Some (CompositeNamespace None ''child'')) ''ns'', [''child'', ''ns''])"
proof -
  have own: "own_namespace (mem_sync 200) = ''ns''" by code_simp
  have "getCompositeNamespaceForTenant (mem_sync 200) (sample_tenant\<lparr>tNamespaces := ns\<rparr>) =
      composite_reference (mem_sync 200) (sample_tenant\<lparr>tNamespaces := ns\<rparr>)"
    if "count_list ns ''ns'' \<le> 1" for ns
    by (rule composite_removes_own) (use own that in simp)
  then show ?thesis by (simp add: composite_reference_def own go_simps Let_def)
qed

end
