(* ===== verification/SyncCreate.thy ===== *)
theory SyncCreate
  imports SyncChecks
begin

text \<open>
  The other half of a pass of the synchronization: the routes it creates. On a platform that accepts
  them a pass leaves every host of an active tenant with a route, and a second pass has nothing to
  do, provided the hosts are in lower case.
\<close>

section \<open>Loops in loops\<close>

lemma gfold_concat: "gfold (concat xss) acc f = gfold xss acc (\<lambda>xs acc. gfold xs acc f)"
  by (induction xss arbitrary: acc) (simp_all add: gfold_append)

lemma gfold_map: "gfold (map g xs) acc f = gfold xs acc (\<lambda>x. f (g x))"
  by (induction xs arbitrary: acc) simp_all

text \<open>The tenant, the service and the address of every route the active tenants want.\<close>

definition wanted_of :: "tenant_dns \<Rightarrow> (tenant_dns \<times> string \<times> address) list" where
  "wanted_of t = concat (map (\<lambda>(site, siteServices). concat (map (\<lambda>(service, addresses).
     map (\<lambda>a. (t, service, a)) addresses) (ments siteServices))) (ments (tSites t)))"

definition wanted :: "tenant_dns list \<Rightarrow> (tenant_dns \<times> string \<times> address) list" where
  "wanted ts = concat (map (\<lambda>t. if tActive t then wanted_of t else []) ts)"

lemma create_of_tenant:
  "gfold (wanted_of t) acc (\<lambda>(t, service, a). create_route_if_missing e t service a) =
     gfold (ments (tSites t)) acc (\<lambda>(site, siteServices) changed.
       gfold (ments siteServices) changed (\<lambda>(service, addresses) changed.
         gfold addresses changed (\<lambda>a changed. create_route_if_missing e t service a changed)))"
  by (simp add: wanted_of_def gfold_concat gfold_map split_def)

lemma gfold_if: "gfold (if b then xs else []) acc f = (if b then gfold xs acc f else gret acc)"
  by simp

lemma create_flat:
  "create_missing_routes e ts = gfold (wanted ts) [] (\<lambda>(t, service, a). create_route_if_missing e t service a)"
  unfolding create_missing_routes_def wanted_def gfold_concat gfold_map gfold_if create_of_tenant ..

section \<open>One route\<close>

text \<open>The cached routes of the own namespace, with their keys.\<close>

definition own_routes :: "'x sync_env \<Rightarrow> (string \<times> route) list \<Rightarrow> 'x sync_state \<Rightarrow> bool" where
  "own_routes e es s \<longleftrightarrow> mlookup (psRoutes (yPm s)) (own_namespace e) = Some (GoMap es)"

definition hosts_in :: "(string \<times> route) list \<Rightarrow> string set" where
  "hosts_in es = route_host ` snd ` set es"

lemma get_routes_run:
  assumes "own_namespace e \<noteq> []" and "own_routes e es s"
  shows "s_GetRoutes e (own_namespace e) s = (Ok (map snd es), s)"
  using assms get_cached_known [of psRoutes "yPm s" "own_namespace e"]
  by (auto simp: own_routes_def s_GetRoutes_def GetRoutes_def on_pm_def or_own_namespace_def Let_def go_simps)

text \<open>The platform creates what it is asked for and answers with the route in its namespace.\<close>

definition placed :: "string \<Rightarrow> route \<Rightarrow> route" where
  "placed namespace r = r\<lparr>rtMetadata := (rtMetadata r)\<lparr>mNamespace := namespace\<rparr>\<rparr>"

definition accepts_creates :: "'x pm_env \<Rightarrow> string \<Rightarrow> bool" where
  "accepts_creates env namespace \<longleftrightarrow> (\<forall>url r x. \<exists>b x'. peDo env url ''POST'' (RouteBody r) x =
     (Ok \<lparr>hrStatusCode = 201, hrBody = b\<rparr>, x') \<and>
     decodeResponseBody (peIntoRoute env b r) r = Inr (placed namespace r))"

definition made :: "'x sync_env \<Rightarrow> tenant_dns \<Rightarrow> string \<Rightarrow> address \<Rightarrow> route" where
  "made e t service a = placed (own_namespace e) (routeHostToLowerCase (ToRoute t service a))"

lemma made_simps [simp]:
  "route_host (made e t service a) = ToLower (Host a)" "mNamespace (rtMetadata (made e t service a)) = own_namespace e"
  by (simp_all add: made_def placed_def routeHostToLowerCase_def ToRoute_def)

lemma create_route_accepted:
  assumes "accepts_creates (sePm e) (own_namespace e)" and "own_namespace e \<noteq> []" and "own_routes e es s"
  shows "\<exists>x'. CreateRoute (sePm e) (seClient e) (ToRoute t service a) (own_namespace e) (yPm s) =
    (Ok (made e t service a), (yPm s)\<lparr>psRest := x', psRoutes := GoMap (AList.update (own_namespace e)
       (GoMap (AList.update (CacheKey (made e t service a)) (made e t service a) es)) (ments (psRoutes (yPm s))))\<rparr>)"
proof -
  let ?r = "routeHostToLowerCase (ToRoute t service a)"
  obtain u where url: "buildUrl (seClient e) (own_namespace e) routesString [] = Inr u"
    using assms(2) by (simp add: buildUrl_def routesString_def Let_def)
  from assms(1) obtain b x where "peDo (sePm e) u ''POST'' (RouteBody ?r) (psRest (yPm s)) =
      (Ok \<lparr>hrStatusCode = 201, hrBody = b\<rparr>, x)"
    and "decodeResponseBody (peIntoRoute (sePm e) b ?r) ?r = Inr (placed (own_namespace e) ?r)"
    unfolding accepts_creates_def by metis
  then have req: "performRequest (sePm e) u ''POST'' (RouteBody ?r) 201 (\<lambda>b. peIntoRoute (sePm e) b ?r) ?r (yPm s) =
      (Ok (made e t service a), (yPm s)\<lparr>psRest := x\<rparr>)"
    by (simp add: performRequest_def on_rest_def go_simps made_def)
  have "psRoutes (yPm s) \<noteq> NilMap" using assms(3) by (auto simp: own_routes_def)
  then have "updateRoutesCache (sePm e) (seClient e) \<lparr>ruType = updateTypeCreated, ruObject = made e t service a\<rparr>
      ((yPm s)\<lparr>psRest := x\<rparr>) = (Ok (), (yPm s)\<lparr>psRest := x, psRoutes := GoMap (AList.update (own_namespace e)
       (GoMap (AList.update (CacheKey (made e t service a)) (made e t service a) es)) (ments (psRoutes (yPm s))))\<rparr>)"
    using assms(3)
    by (simp add: updateRoutesCache_def on_routes_def gzoom_run updateRoutesCache_event_def Let_def own_routes_def
        cache_put_def)
  with url req show ?thesis
    by (intro exI [of _ x]) (simp add: CreateRoute_def go_simps url_or_400_run Let_def)
qed

text \<open>What one address does: nothing if its host has a route, else its route is created and cached.\<close>

lemma look_run:
  assumes svs: "knows_services e (own_namespace e) svs s" and "own_routes e es s" and "service \<in> names_of svs"
  shows "create_route_if_missing e t service a changed s =
    (if Host a \<in> hosts_in es then (Ok changed, s)
     else gbind (ignoring (on_pm (CreateRoute (sePm e) (seClient e) (ToRoute t service a) (own_namespace e))))
       (\<lambda>_. gret (AList.update (tTenantId t) t changed)) s)"
proof -
  have own: "own_namespace e \<noteq> []" using svs by (simp add: knows_services_def)
  have filt: "filter (\<lambda>sv. service_name sv = service) svs \<noteq> []"
    using assms(3) by (auto simp: filter_empty_conv)
  have find: "findServiceInNamespaces e service (CompositeNamespace None (own_namespace e)) s = (Ok (own_namespace e), s)"
    using get_services_run [OF svs, of "\<lambda>sv. service_name sv = service"] filt by (simp add: go_simps)
  obtain n where n: "serviceTimeout div timeout_step = Suc n" using looks by blast
  have found: "isServiceInNamespace e service (own_namespace e) s = (Ok (), s)"
    unfolding isServiceInNamespace_def n
    using find own by (simp add: go_simps Let_def del: findServiceInNamespaces.simps)
  have present: "isHostPresentInOpenshiftRoutes a service (map snd es) \<longleftrightarrow> Host a \<in> hosts_in es"
    by (force simp: isHostPresentInOpenshiftRoutes_def list_ex_iff hosts_in_def)
  show ?thesis
    by (simp add: create_route_if_missing_def gtry_run found get_routes_run [OF own assms(2)] present gret_run)
qed

lemma create_one:
  assumes "accepts_creates (sePm e) (own_namespace e)" and svs: "knows_services e (own_namespace e) svs s"
    and "own_routes e es s" and "service \<in> names_of svs"
  shows "\<exists>s'. create_route_if_missing e t service a changed s =
      (Ok (if Host a \<in> hosts_in es then changed else AList.update (tTenantId t) t changed), s') \<and>
    knows_services e (own_namespace e) svs s' \<and>
    own_routes e (if Host a \<in> hosts_in es then es
      else AList.update (CacheKey (made e t service a)) (made e t service a) es) s' \<and>
    (Host a \<in> hosts_in es \<longrightarrow> s' = s)"
proof -
  have own: "own_namespace e \<noteq> []" using svs by (simp add: knows_services_def)
  note start = look_run [OF svs assms(3,4)] go_simps
  show ?thesis
  proof (cases "Host a \<in> hosts_in es")
    case True
    with svs assms(3) show ?thesis by (simp add: start)
  next
    case False
    from create_route_accepted [OF assms(1) own assms(3), of t service a] obtain x where
      c: "CreateRoute (sePm e) (seClient e) (ToRoute t service a) (own_namespace e) (yPm s) =
        (Ok (made e t service a), (yPm s)\<lparr>psRest := x, psRoutes := GoMap (AList.update (own_namespace e)
         (GoMap (AList.update (CacheKey (made e t service a)) (made e t service a) es)) (ments (psRoutes (yPm s))))\<rparr>)"
      (is "_ = (_, ?pm)") by blast
    then have "ignoring (on_pm (CreateRoute (sePm e) (seClient e) (ToRoute t service a) (own_namespace e))) s =
        (Ok (), s\<lparr>yPm := ?pm\<rparr>)"
      by (simp add: on_pm_ignoring_ok)
    then have "create_route_if_missing e t service a changed s =
        (Ok (AList.update (tTenantId t) t changed), s\<lparr>yPm := ?pm\<rparr>)"
      using False by (simp add: start)
    moreover have "knows_services e (own_namespace e) svs (s\<lparr>yPm := ?pm\<rparr>)" using svs by (simp add: knows_services_def)
    moreover have "own_routes e (AList.update (CacheKey (made e t service a)) (made e t service a) es) (s\<lparr>yPm := ?pm\<rparr>)"
      by (simp add: own_routes_def)
    ultimately show ?thesis using False by (intro exI [of _ "s\<lparr>yPm := ?pm\<rparr>"]) simp
  qed
qed

section \<open>A whole pass\<close>

text \<open>
  No name clash: the generated name of a wanted route, a checksum of its address included, is not that
  of a cached or of another wanted route with another host.
\<close>

definition no_clash :: "'x sync_env \<Rightarrow> (tenant_dns \<times> string \<times> address) set \<Rightarrow> (string \<times> route) list \<Rightarrow> bool" where
  "no_clash e W es \<longleftrightarrow> (\<forall>(t, service, a) \<in> W.
     (\<forall>(k, r) \<in> set es. k = CacheKey (made e t service a) \<longrightarrow> route_host r = Host a) \<and>
     (\<forall>(t', service', a') \<in> W. CacheKey (made e t service a) = CacheKey (made e t' service' a') \<longrightarrow> Host a = Host a'))"

lemma hosts_update:
  "(\<And>r. (k, r) \<in> set es \<Longrightarrow> route_host r = route_host v) \<Longrightarrow>
     hosts_in (AList.update k v es) = insert (route_host v) (hosts_in es)"
  by (induction es) (auto simp: hosts_in_def)

lemma no_clashD:
  assumes "no_clash e W es" and "(t, service, a) \<in> W"
  shows "(CacheKey (made e t service a), r) \<in> set es \<Longrightarrow> route_host r = Host a"
    and "(t', service', a') \<in> W \<Longrightarrow> CacheKey (made e t service a) = CacheKey (made e t' service' a') \<Longrightarrow>
      Host a = Host a'"
  using bspec [OF assms(1) [unfolded no_clash_def] assms(2)] by auto

lemma no_clashI:
  assumes "\<And>t service a r. (t, service, a) \<in> W \<Longrightarrow> (CacheKey (made e t service a), r) \<in> set es \<Longrightarrow>
      route_host r = Host a"
    and "\<And>t service a t' service' a'. (t, service, a) \<in> W \<Longrightarrow> (t', service', a') \<in> W \<Longrightarrow>
      CacheKey (made e t service a) = CacheKey (made e t' service' a') \<Longrightarrow> Host a = Host a'"
  shows "no_clash e W es"
  unfolding no_clash_def by (auto dest: assms)

lemma no_clash_update:
  assumes "no_clash e W es" and "(t, service, a) \<in> W" and "ToLower (Host a) = Host a"
  shows "no_clash e W (AList.update (CacheKey (made e t service a)) (made e t service a) es)"
    and "hosts_in (AList.update (CacheKey (made e t service a)) (made e t service a) es) = insert (Host a) (hosts_in es)"
proof -
  let ?es = "AList.update (CacheKey (made e t service a)) (made e t service a) es"
  have "route_host r = Host a'"
    if W': "(t', service', a') \<in> W" and r: "(CacheKey (made e t' service' a'), r) \<in> set ?es" for t' service' a' r
    using in_update_alist [OF r]
  proof
    assume "(CacheKey (made e t' service' a'), r) = (CacheKey (made e t service a), made e t service a)"
    then have "CacheKey (made e t' service' a') = CacheKey (made e t service a)" "r = made e t service a" by auto
    with no_clashD(2) [OF assms(1) W' assms(2)] assms(3) show ?thesis by simp
  next
    assume "(CacheKey (made e t' service' a'), r) \<in> set es"
    with no_clashD(1) [OF assms(1) W'] show ?thesis by blast
  qed
  then show "no_clash e W ?es"
    using no_clashD(2) [OF assms(1)] by (intro no_clashI) blast+
  have "route_host r = Host a" if "(CacheKey (made e t service a), r) \<in> set es" for r
    using no_clashD(1) [OF assms(1,2) that] .
  then show "hosts_in (AList.update (CacheKey (made e t service a)) (made e t service a) es) = insert (Host a) (hosts_in es)"
    by (subst hosts_update) (simp_all add: assms(3))
qed

text \<open>The hosts of wanted routes, and the tenants of those whose host has no route yet.\<close>

definition wanted_hosts :: "(tenant_dns \<times> string \<times> address) list \<Rightarrow> string set" where
  "wanted_hosts ws = (\<lambda>(t, service, a). Host a) ` set ws"

definition lacking :: "(tenant_dns \<times> string \<times> address) list \<Rightarrow> string set \<Rightarrow> string set" where
  "lacking ws hosts = (\<lambda>(t, service, a). tTenantId t) ` set (filter (\<lambda>(t, service, a). Host a \<notin> hosts) ws)"

lemma wanted_hosts_Cons: "wanted_hosts ((t, service, a) # ws) = insert (Host a) (wanted_hosts ws)"
  by (simp add: wanted_hosts_def)

lemma lacking_Cons:
  "lacking ((t, service, a) # ws) hosts =
     (if Host a \<in> hosts then lacking ws hosts else insert (tTenantId t) (lacking ws hosts))"
  by (simp add: lacking_def)

lemma lacking_antimono: "lacking ws (insert h hosts) \<subseteq> lacking ws hosts"
  unfolding lacking_def by (rule image_mono) auto

lemma snd_update_alist: "snd ` set (AList.update k v es) \<subseteq> insert v (snd ` set es)"
  by (induction es) auto

lemma grown: "A \<subseteq> B \<union> C \<Longrightarrow> B \<subseteq> insert x D \<Longrightarrow> x \<in> E \<Longrightarrow> C \<subseteq> E \<Longrightarrow> A \<subseteq> D \<union> E"
  by blast

lemma create_all:
  assumes acc: "accepts_creates (sePm e) (own_namespace e)"
    and lower: "\<forall>(t, service, a) \<in> W. ToLower (Host a) = Host a \<and> service \<in> names_of svs"
  shows "set ws \<subseteq> W \<Longrightarrow> knows_services e (own_namespace e) svs s \<Longrightarrow> own_routes e es s \<Longrightarrow> no_clash e W es \<Longrightarrow>
    \<exists>changed' s' es'. gfold ws changed (\<lambda>(t, service, a). create_route_if_missing e t service a) s = (Ok changed', s') \<and>
      knows_services e (own_namespace e) svs s' \<and> own_routes e es' s' \<and> no_clash e W es' \<and>
      hosts_in es' = hosts_in es \<union> wanted_hosts ws \<and>
      ((\<forall>(t, service, a) \<in> set ws. Host a \<in> hosts_in es) \<longrightarrow> changed' = changed \<and> s' = s) \<and>
      fst ` set changed' \<subseteq> fst ` set changed \<union> lacking ws (hosts_in es) \<and>
      snd ` set changed' \<subseteq> snd ` set changed \<union> fst ` set ws \<and>
      snd ` set es' \<subseteq> snd ` set es \<union> {r. route_host r \<in> wanted_hosts ws}"
proof (induction ws arbitrary: changed s es)
  case Nil
  then show ?case by (intro exI [of _ changed] exI [of _ s] exI [of _ es]) (simp add: gret_run wanted_hosts_def)
next
  case (Cons w ws)
  obtain t service a where w: "w = (t, service, a)" by (cases w) auto
  with Cons.prems(1) have W: "(t, service, a) \<in> W" by auto
  with lower have low: "ToLower (Host a) = Host a" "service \<in> names_of svs" by auto
  let ?es = "if Host a \<in> hosts_in es then es
      else AList.update (CacheKey (made e t service a)) (made e t service a) es"
  let ?ch = "if Host a \<in> hosts_in es then changed else AList.update (tTenantId t) t changed"
  from create_one [OF acc Cons.prems(2,3), of service t a changed] low
  obtain s1 where one: "create_route_if_missing e t service a changed s = (Ok ?ch, s1)"
    and s1: "knows_services e (own_namespace e) svs s1" "own_routes e ?es s1" "Host a \<in> hosts_in es \<longrightarrow> s1 = s" by blast
  have es: "no_clash e W ?es" "hosts_in ?es = insert (Host a) (hosts_in es)"
    using Cons.prems(4) no_clash_update [OF Cons.prems(4) W] low by auto
  from Cons.prems(1) have ws: "set ws \<subseteq> W" by simp
  from Cons.IH [OF ws s1(1,2) es(1), of ?ch] obtain changed' s' es' where
    rest: "gfold ws ?ch (\<lambda>(t, service, a). create_route_if_missing e t service a) s1 = (Ok changed', s')"
    and s': "knows_services e (own_namespace e) svs s'" "own_routes e es' s'" "no_clash e W es'"
    and hosts: "hosts_in es' = hosts_in ?es \<union> wanted_hosts ws"
    and idle: "(\<forall>(t, service, a) \<in> set ws. Host a \<in> hosts_in ?es) \<longrightarrow> changed' = ?ch \<and> s' = s1"
    and ids: "fst ` set changed' \<subseteq> fst ` set ?ch \<union> lacking ws (hosts_in ?es)"
    and tenants: "snd ` set changed' \<subseteq> snd ` set ?ch \<union> fst ` set ws"
    and routes: "snd ` set es' \<subseteq> snd ` set ?es \<union> {r. route_host r \<in> wanted_hosts ws}"
    by (elim exE conjE) (rule that; assumption)
  have ch: "fst ` set ?ch \<subseteq> fst ` set changed \<union> (if Host a \<in> hosts_in es then {} else {tTenantId t})"
    using keys_update_alist [of "tTenantId t" t changed] by auto
  have "gfold (w # ws) changed (\<lambda>(t, service, a). create_route_if_missing e t service a) s = (Ok changed', s')"
    using one rest by (simp add: w gbind_run)
  moreover have "hosts_in es' = hosts_in es \<union> wanted_hosts (w # ws)"
    unfolding hosts es(2) w wanted_hosts_Cons by simp
  moreover have "(\<forall>(t, service, a) \<in> set (w # ws). Host a \<in> hosts_in es) \<longrightarrow> changed' = changed \<and> s' = s"
    using idle s1(3) by (auto simp: w)
  moreover have "fst ` set changed' \<subseteq> fst ` set changed \<union>
      lacking (w # ws) (hosts_in es)"
  proof -
    have "fst ` set changed' \<subseteq> fst ` set ?ch \<union> lacking ws (hosts_in es)"
      using ids lacking_antimono [of ws "Host a" "hosts_in es"] unfolding es(2) by blast
    also have "\<dots> \<subseteq> fst ` set changed \<union> (if Host a \<in> hosts_in es then {} else {tTenantId t}) \<union>
        lacking ws (hosts_in es)" using ch by (rule Un_mono) simp
    also have "\<dots> = fst ` set changed \<union> lacking (w # ws) (hosts_in es)"
      unfolding w lacking_Cons by simp
    finally show ?thesis .
  qed
  moreover have "snd ` set changed' \<subseteq> snd ` set changed \<union> fst ` set (w # ws)"
  proof -
    have "snd ` set ?ch \<subseteq> insert t (snd ` set changed)" using snd_update_alist [of "tTenantId t" t changed] by auto
    with tenants show ?thesis unfolding w by auto
  qed
  moreover have "snd ` set es' \<subseteq> snd ` set es \<union> {r. route_host r \<in> wanted_hosts (w # ws)}"
  proof -
    have "snd ` set ?es \<subseteq> insert (made e t service a) (snd ` set es)"
      using snd_update_alist [of "CacheKey (made e t service a)" "made e t service a" es] by auto
    moreover have "made e t service a \<in> {r. route_host r \<in> wanted_hosts (w # ws)}"
      using low by (simp add: w wanted_hosts_Cons)
    moreover have "{r. route_host r \<in> wanted_hosts ws} \<subseteq> {r. route_host r \<in> wanted_hosts (w # ws)}"
      by (auto simp: w wanted_hosts_Cons)
    ultimately show ?thesis by (rule grown [OF routes])
  qed
  ultimately show ?case using s' by blast
qed

text \<open>
  On a platform that accepts the creation of routes, a pass leaves every host of an active tenant
  with a route in the cache of the own namespace, marks as changed only tenants with a host that had
  none, and a second pass creates nothing and marks no tenant; this for hosts in lower case, services
  that exist, and no clash of generated names.
\<close>

theorem pass_creates_routes:
  assumes "accepts_creates (sePm e) (own_namespace e)" and "knows_services e (own_namespace e) svs s"
    and "own_routes e es s" and "no_clash e (set (wanted ts)) es"
    and lower: "\<forall>(t, service, a) \<in> set (wanted ts). ToLower (Host a) = Host a \<and> service \<in> names_of svs"
  shows "\<exists>changed s' es'. create_missing_routes e ts s = (Ok changed, s') \<and> own_routes e es' s' \<and>
    hosts_in es' = hosts_in es \<union> wanted_hosts (wanted ts) \<and>
    fst ` set changed \<subseteq> lacking (wanted ts) (hosts_in es) \<and>
    create_missing_routes e ts s' = (Ok [], s')"
proof -
  note all = create_all [where W = "set (wanted ts)" and ws = "wanted ts" and changed = "[]" and svs = svs,
      OF assms(1) lower order_refl, folded create_flat]
  from all [OF assms(2-4)] obtain changed s' es' where
    run: "create_missing_routes e ts s = (Ok changed, s')" and s': "knows_services e (own_namespace e) svs s'"
    "own_routes e es' s'" "no_clash e (set (wanted ts)) es'"
    and hosts: "hosts_in es' = hosts_in es \<union> wanted_hosts (wanted ts)"
    and ids: "fst ` set changed \<subseteq> lacking (wanted ts) (hosts_in es)"
    by (auto simp: image_iff)
  have "\<forall>(t, service, a) \<in> set (wanted ts). Host a \<in> hosts_in es'"
    unfolding hosts wanted_hosts_def by force
  with all [OF s'] have "create_missing_routes e ts s' = (Ok [], s')" by auto
  with run s'(2) hosts ids show ?thesis by blast
qed

text \<open>A platform that answers a creation with the route it was sent, in the namespace.\<close>

definition placing_sync :: "mem_table sync_env" where
  "placing_sync = (mem_sync 201)\<lparr>sePm := (mem_pm 201)\<lparr>peIntoRoute := (\<lambda>b r. Decoded (placed ''ns'' r))\<rparr>\<rparr>"

definition shop_tenant :: "string \<Rightarrow> tenant_dns" where
  "shop_tenant host = zero_tenant\<lparr>tTenantId := ''t1'', tActive := True,
     tSites := GoMap [(''default'', GoMap [(''shop'', [Address host])])]\<rparr>"

definition shop_state :: "mem_table sync_state" where
  "shop_state = mem_state [] [named_service ''shop'' NilMap] []"

lemma placing_sync_simps [simp]: "own_namespace placing_sync = ''ns''"
  "sePm placing_sync = (mem_pm 201)\<lparr>peIntoRoute := (\<lambda>b r. Decoded (placed ''ns'' r))\<rparr>"
  by (simp_all add: placing_sync_def mem_sync_def)

lemma placing_accepts: "accepts_creates (sePm placing_sync) (own_namespace placing_sync)"
  by (simp add: accepts_creates_def mem_pm_def decodeResponseBody_def gret_run)

lemma shop_knows:
  "knows_services placing_sync (own_namespace placing_sync) [named_service ''shop'' NilMap] shop_state"
  "own_routes placing_sync [] shop_state"
  by (simp_all add: knows_services_def own_routes_def shop_state_def mem_state_def keyed_def named_service_def)

lemma wanted_shop: "wanted [shop_tenant host] = [(shop_tenant host, ''shop'', Address host)]"
  by (simp add: wanted_def wanted_of_def shop_tenant_def)

lemma pass_creates_routes_witness:
  "\<exists>s' es'. own_routes placing_sync es' s' \<and> hosts_in es' = {''a.com''} \<and>
     create_missing_routes placing_sync [shop_tenant ''a.com''] s' = (Ok [], s')"
proof -
  have host: "Host (Address ''a.com'') = ''a.com''" "ToLower ''a.com'' = ''a.com''" by code_simp+
  have "no_clash placing_sync (set (wanted [shop_tenant ''a.com''])) []"
    by (simp add: no_clash_def wanted_shop)
  moreover have "\<forall>(t, service, a) \<in> set (wanted [shop_tenant ''a.com'']).
      ToLower (Host a) = Host a \<and> service \<in> names_of [named_service ''shop'' NilMap]"
    by (simp add: wanted_shop host named_service_def)
  ultimately show ?thesis
    using pass_creates_routes [OF placing_accepts shop_knows, of "[shop_tenant ''a.com'']"]
    by (auto simp: wanted_shop wanted_hosts_def hosts_in_def host)
qed

section \<open>Hosts with upper-case letters\<close>

text \<open>
  The executor does not panic, and a route that the platform answers with when it accepts one whose
  host is in lower case has its host in lower case. It may refuse any request.
\<close>

definition lower_answers :: "'x pm_env \<Rightarrow> bool" where
  "lower_answers env \<longleftrightarrow> (\<forall>url r x. (\<forall>p. fst (peDo env url ''POST'' (RouteBody r) x) \<noteq> Panic p) \<and>
     (\<forall>resp r'. fst (peDo env url ''POST'' (RouteBody r) x) = Ok resp \<longrightarrow> ToLower (route_host r) = route_host r \<longrightarrow>
        decodeResponseBody (peIntoRoute env (hrBody resp) r) r = Inr r' \<longrightarrow> ToLower (route_host r') = route_host r'))"

definition lower_hosts :: "(string \<times> route) list \<Rightarrow> bool" where
  "lower_hosts es \<longleftrightarrow> (\<forall>h \<in> hosts_in es. ToLower h = h)"

lemma lowered_host: "ToLower (route_host (routeHostToLowerCase r)) = route_host (routeHostToLowerCase r)"
  by (simp add: routeHostToLowerCase_def)

lemma created_event_own:
  assumes "mlookup c n = Some (GoMap es)" and "lower_hosts es" and "ToLower (route_host r) = route_host r"
  shows "\<exists>es'. updateRoutesCache_event \<lparr>ruType = updateTypeCreated, ruObject = r\<rparr> c =
      (Ok (), snd (updateRoutesCache_event \<lparr>ruType = updateTypeCreated, ruObject = r\<rparr> c)) \<and>
    mlookup (snd (updateRoutesCache_event \<lparr>ruType = updateTypeCreated, ruObject = r\<rparr> c)) n = Some (GoMap es') \<and>
    lower_hosts es'"
proof -
  have more: "lower_hosts (AList.update k r es)" for k
    using assms(2,3) by (auto simp: lower_hosts_def hosts_in_def dest!: in_update_alist)
  have "stores updateTypeCreated" by (simp add: stores_def)
  with assms more show ?thesis
    by (cases "mNamespace (rtMetadata r) = n")
      (auto simp: updateRoutesCache_event_def Let_def cache_put_def split: option.split gomap.split)
qed

text \<open>Whatever the platform answers to a creation, the cached hosts stay in lower case.\<close>

lemma create_route_any:
  assumes "lower_answers (sePm e)" and "own_routes e es s" and "lower_hosts es"
  shows "\<exists>q x c' es'. CreateRoute (sePm e) (seClient e) r (own_namespace e) (yPm s) =
      (q, (yPm s)\<lparr>psRest := x, psRoutes := c'\<rparr>) \<and> (\<forall>p. q \<noteq> Panic p) \<and>
    mlookup c' (own_namespace e) = Some (GoMap es') \<and> lower_hosts es'"
proof (cases "buildUrl (seClient e) (own_namespace e) routesString []")
  case (Inl err)
  let ?s = "yPm s"
  have "CreateRoute (sePm e) (seClient e) r (own_namespace e) ?s =
      (Err (ErrorWrapper 400 (err_message err)), ?s\<lparr>psRest := psRest ?s, psRoutes := psRoutes ?s\<rparr>)"
    by (simp add: CreateRoute_def gbind_run url_or_400_run Inl)
  with assms(2,3) show ?thesis unfolding own_routes_def by blast
next
  case (Inr u)
  let ?s = "yPm s" and ?r = "routeHostToLowerCase r"
  let ?req = "performRequest (sePm e) u ''POST'' (RouteBody ?r) 201 (\<lambda>b. peIntoRoute (sePm e) b ?r) ?r"
  have run: "CreateRoute (sePm e) (seClient e) r (own_namespace e) ?s = gbind ?req (\<lambda>rt'.
      gbind (updateRoutesCache (sePm e) (seClient e) \<lparr>ruType = updateTypeCreated, ruObject = rt'\<rparr>)
        (\<lambda>_. gret rt')) ?s"
    by (simp add: CreateRoute_def gbind_run url_or_400_run Inr Let_def)
  obtain q x where q: "peDo (sePm e) u ''POST'' (RouteBody ?r) (psRest ?s) = (q, x)" by fastforce
  have do_ok: "\<forall>p. q \<noteq> Panic p" "\<And>resp r'. q = Ok resp \<Longrightarrow>
      decodeResponseBody (peIntoRoute (sePm e) (hrBody resp) ?r) ?r = Inr r' \<Longrightarrow> ToLower (route_host r') = route_host r'"
    using assms(1) q lowered_host [of r] unfolding lower_answers_def by (metis fst_conv)+
  consider (refused) err where "?req ?s = (Err err, ?s\<lparr>psRest := x\<rparr>)"
    | (accepted) r' where "?req ?s = (Ok r', ?s\<lparr>psRest := x\<rparr>)" "ToLower (route_host r') = route_host r'"
  proof (cases q)
    case (Ok resp)
    show thesis
    proof (cases "hrStatusCode resp = 201")
      case True
      show thesis
      proof (cases "decodeResponseBody (peIntoRoute (sePm e) (hrBody resp) ?r) ?r")
        case (Inr r')
        from accepted [of r'] show thesis
          using Ok True Inr q do_ok(2) by (simp add: performRequest_def on_rest_def go_simps)
      qed (use Ok True q refused in \<open>simp add: performRequest_def on_rest_def go_simps\<close>)
    qed (use Ok q refused in \<open>simp add: performRequest_def on_rest_def go_simps\<close>)
  qed (use q refused do_ok(1) in \<open>simp_all add: performRequest_def on_rest_def go_simps\<close>)
  then show ?thesis
  proof cases
    case refused
    then have "CreateRoute (sePm e) (seClient e) r (own_namespace e) ?s =
        (Err err, ?s\<lparr>psRest := x, psRoutes := psRoutes ?s\<rparr>)" by (simp add: run gbind_run)
    with assms(2,3) show ?thesis unfolding own_routes_def by blast
  next
    case accepted
    let ?ev = "updateRoutesCache_event \<lparr>ruType = updateTypeCreated, ruObject = r'\<rparr> (psRoutes ?s)"
    from created_event_own [OF assms(2) [unfolded own_routes_def] assms(3) accepted(2)] obtain es' where
      ev: "?ev = (Ok (), snd ?ev)" and es': "mlookup (snd ?ev) (own_namespace e) = Some (GoMap es')" "lower_hosts es'"
      by blast
    have "updateTypeCreated \<noteq> updateTypeInit" by (simp add: update_type_defs)
    then have "CreateRoute (sePm e) (seClient e) r (own_namespace e) ?s =
        (Ok r', ?s\<lparr>psRest := x, psRoutes := snd ?ev\<rparr>)"
      by (simp add: run accepted(1) gbind_run gret_run updateRoutesCache_def on_routes_def gzoom_run)
        (subst ev, simp add: gret_run)
    with es' show ?thesis by blast
  qed
qed

text \<open>
  C15: A route is created with its host in lower case, and looked for with the host as the tenant has
  it. Take an address whose host has an upper-case letter and whose service is among the services of
  the own namespace, while the hosts of the namespace's cached routes are in lower case. However
  many times in a row its route has been looked for, the next look does not find it, asks the
  platform for its creation again and marks its tenant as changed, whether the platform accepts or
  refuses, and the cached hosts are still in lower case. The executor must not panic, and the routes it
  answers accepted creations with must have their hosts in lower case.
\<close>

theorem upper_case_host_made_again:
  assumes "lower_answers (sePm e)" and "knows_services e (own_namespace e) svs s"
    and "own_routes e es s" and "service \<in> names_of svs" and "lower_hosts es" and "ToLower (Host a) \<noteq> Host a"
  shows "\<exists>s'. gfold (replicate n a) [] (create_route_if_missing e t service) s =
      (Ok (if n = 0 then [] else [(tTenantId t, t)]), s') \<and>
    (\<exists>es'. own_routes e es' s' \<and> lower_hosts es') \<and>
    (\<forall>changed. create_route_if_missing e t service a changed s' = (Ok (AList.update (tTenantId t) t changed),
       snd (on_pm (CreateRoute (sePm e) (seClient e) (ToRoute t service a) (own_namespace e)) s')))"
proof -
  let ?create = "on_pm (CreateRoute (sePm e) (seClient e) (ToRoute t service a) (own_namespace e))"
  let ?ready = "\<lambda>s. knows_services e (own_namespace e) svs s \<and> (\<exists>es. own_routes e es s \<and> lower_hosts es)"
  have look: "create_route_if_missing e t service a changed s =
      (Ok (AList.update (tTenantId t) t changed), snd (?create s)) \<and> ?ready (snd (?create s))"
    if ready: "?ready s" for s changed
  proof -
    from ready obtain es where es: "own_routes e es s" "lower_hosts es" by blast
    from create_route_any [OF assms(1) es] obtain q x c' es' where
      run: "CreateRoute (sePm e) (seClient e) (ToRoute t service a) (own_namespace e) (yPm s) =
        (q, (yPm s)\<lparr>psRest := x, psRoutes := c'\<rparr>)" and q: "\<forall>p. q \<noteq> Panic p"
      and c': "mlookup c' (own_namespace e) = Some (GoMap es')" "lower_hosts es'" by metis
    have "Host a \<notin> hosts_in es" using es(2) assms(6) by (auto simp: lower_hosts_def)
    with look_run [of e svs s es service t a changed] ready es assms(4) have
      "create_route_if_missing e t service a changed s =
        gbind (ignoring ?create) (\<lambda>_. gret (AList.update (tTenantId t) t changed)) s" by simp
    moreover have "?create s = (q, s\<lparr>yPm := (yPm s)\<lparr>psRest := x, psRoutes := c'\<rparr>\<rparr>)"
      using run by (simp add: on_pm_def gzoom_run)
    ultimately show ?thesis
      using q c' ready by (cases q) (auto simp: ignoring_def go_simps knows_services_def own_routes_def)
  qed
  have again: "\<exists>s'. gfold (replicate n a) changed (create_route_if_missing e t service) s =
      (Ok (if n = 0 then changed else AList.update (tTenantId t) t changed), s') \<and> ?ready s'"
    if "?ready s" for s changed
    using that
  proof (induction n arbitrary: s changed)
    case (Suc n)
    from look [OF Suc.prems, of changed] Suc.IH [of "snd (?create s)" "AList.update (tTenantId t) t changed"]
    obtain s' where "gfold (replicate n a) (AList.update (tTenantId t) t changed) (create_route_if_missing e t service)
        (snd (?create s)) = (Ok (AList.update (tTenantId t) t changed), s')" "?ready s'"
      by (auto split: if_splits)
    with look [OF Suc.prems, of changed] show ?case by (intro exI [of _ s']) (simp add: gbind_run)
  qed (simp add: gret_run)
  from assms(2,3,5) have "?ready s" by blast
  from again [OF this, of "[]"] obtain s' where
    "gfold (replicate n a) [] (create_route_if_missing e t service) s =
      (Ok (if n = 0 then [] else AList.update (tTenantId t) t []), s')" and s': "?ready s'" by blast
  moreover have "AList.update (tTenantId t) t [] = [(tTenantId t, t)]" by simp
  ultimately show ?thesis using look [OF s'] s' by metis
qed

text \<open>A platform that refuses every creation because the route exists.\<close>

lemma upper_case_host_made_again_witness:
  "\<exists>s'. gfold (replicate 2 (Address ''A.com'')) []
      (create_route_if_missing (mem_sync 409) (shop_tenant ''A.com'') ''shop'') shop_state =
    (Ok [(''t1'', shop_tenant ''A.com'')], s')"
proof -
  have host: "Host (Address ''A.com'') = ''A.com''" "ToLower ''A.com'' = ''a.com''" by code_simp+
  have "lower_answers (sePm (mem_sync 409))"
    by (simp add: lower_answers_def mem_sync_def mem_pm_def decodeResponseBody_def gret_run)
  moreover have "knows_services (mem_sync 409) (own_namespace (mem_sync 409)) [named_service ''shop'' NilMap] shop_state"
    and "own_routes (mem_sync 409) [] shop_state"
    by (simp_all add: knows_services_def own_routes_def shop_state_def mem_state_def keyed_def named_service_def mem_sync_def)
  moreover have "''shop'' \<in> names_of [named_service ''shop'' NilMap]" by (simp add: named_service_def)
  moreover have "lower_hosts []" by (simp add: lower_hosts_def hosts_in_def)
  moreover have "tTenantId (shop_tenant ''A.com'') = ''t1''" by (simp add: shop_tenant_def)
  ultimately show ?thesis
    using upper_case_host_made_again [of "mem_sync 409" "[named_service ''shop'' NilMap]" shop_state "[]" "''shop''"
      "Address ''A.com''" 2 "shop_tenant ''A.com''"] by (auto simp: host)
qed

end
