(* ===== verification/SyncConverge.thy ===== *)
theory SyncConverge
  imports SyncCreate
begin

text \<open>
  A whole pass of the synchronization over a platform and a database that answer: the deletions of
  \<open>SyncChecks\<close> and the creations of \<open>SyncCreate\<close> together bring the cached routes of the own namespace to
  what the stored tenants demand, and a second pass leaves them as they are.
\<close>

section \<open>Deleting from the own namespace\<close>

text \<open>Every cached route has its own key and lies in the namespace.\<close>

definition well_keyed :: "'x sync_env \<Rightarrow> (string \<times> route) list \<Rightarrow> bool" where
  "well_keyed e es \<longleftrightarrow> distinct (map fst es) \<and>
     (\<forall>(k, r) \<in> set es. k = CacheKey r \<and> mNamespace (rtMetadata r) = own_namespace e)"

lemma delete_own_route:
  assumes "accepts_deletes (sePm e)" and "own_namespace e \<noteq> []" and "own_routes e es s"
    and "mNamespace (rtMetadata r) = own_namespace e"
  shows "\<exists>s'. ignoring (on_pm (DeleteRoute (sePm e) (seClient e) r)) s = (Ok (), s') \<and>
    own_routes e (AList.delete (CacheKey r) es) s' \<and> psServices (yPm s') = psServices (yPm s)"
proof -
  let ?ev = "\<lparr>ruType = updateTypeDeleted, ruObject = r\<rparr>"
  obtain u where url: "buildUrl (seClient e) (mNamespace (rtMetadata r)) routesString (route_name r) = Inr u"
    using assms(2,4) by (simp add: buildUrl_def routesString_def Let_def)
  from assms(1) obtain b x where "peDo (sePm e) u ''DELETE'' NoBody (psRest (yPm s)) = (Ok \<lparr>hrStatusCode = 200, hrBody = b\<rparr>, x)"
    and "\<forall>m. peAny (sePm e) b \<noteq> Malformed m" unfolding accepts_deletes_def by metis
  then have "performRequest (sePm e) u ''DELETE'' NoBody 200 (peAny (sePm e)) () (yPm s) = (Ok (), (yPm s)\<lparr>psRest := x\<rparr>)"
    by (cases "peAny (sePm e) b") (simp_all add: performRequest_def on_rest_def decodeResponseBody_def go_simps)
  then have run: "DeleteRoute (sePm e) (seClient e) r (yPm s) =
      on_routes (updateRoutesCache_event ?ev) ((yPm s)\<lparr>psRest := x\<rparr>)"
    using url by (simp add: DeleteRoute_def go_simps url_or_400_def Let_def updateRoutesCache_def)
  have known: "mlookup (psRoutes (yPm s)) (own_namespace e) = Some (GoMap es)" using assms(3) by (simp add: own_routes_def)
  then have "psRoutes (yPm s) \<noteq> NilMap" by auto
  with known have "updateRoutesCache_event ?ev (psRoutes (yPm s)) =
      (Ok (), GoMap (AList.update (own_namespace e) (GoMap (AList.delete (CacheKey r) es)) (ments (psRoutes (yPm s)))))"
    using assms(4) by (simp add: updateRoutesCache_event_def Let_def cache_delete_def stores_def update_type_defs)
  with run have "DeleteRoute (sePm e) (seClient e) r (yPm s) = (Ok (), (yPm s)\<lparr>psRest := x,
      psRoutes := GoMap (AList.update (own_namespace e) (GoMap (AList.delete (CacheKey r) es)) (ments (psRoutes (yPm s))))\<rparr>)"
    by (simp add: on_routes_def gzoom_run)
  then show ?thesis
    using on_pm_ignoring_ok [of "DeleteRoute (sePm e) (seClient e) r" s "()"] by (simp add: own_routes_def)
qed

lemma knows_services_same:
  "knows_services e n svs s \<Longrightarrow> psServices (yPm s') = psServices (yPm s) \<Longrightarrow> knows_services e n svs s'"
  by (simp add: knows_services_def)

lemma delete_stale_own:
  assumes "accepts_deletes (sePm e)" and "own_namespace e \<noteq> []"
  shows "\<forall>r \<in> set rs. mNamespace (rtMetadata r) = own_namespace e \<Longrightarrow> own_routes e es s \<Longrightarrow>
    \<exists>s'. delete_stale_routes e ts rs s = (Ok (), s') \<and> psServices (yPm s') = psServices (yPm s) \<and>
      own_routes e (filter (\<lambda>(k, r). k \<notin> CacheKey ` set (filter (is_stale ts) rs)) es) s'"
proof (induction rs arbitrary: s es)
  case Nil
  then show ?case by (simp add: delete_stale_routes_def go_simps)
next
  case (Cons r rs)
  let ?body = "\<lambda>r. if is_stale ts r then ignoring (on_pm (DeleteRoute (sePm e) (seClient e) r)) else gret ()"
  let ?es = "if is_stale ts r then AList.delete (CacheKey r) es else es"
  obtain t where t: "?body r s = (Ok (), t)" "own_routes e ?es t" "psServices (yPm t) = psServices (yPm s)"
    using delete_own_route [OF assms Cons.prems(2), of r] Cons.prems by (cases "is_stale ts r") (auto simp: gret_run)
  from Cons.IH [OF _ t(2)] Cons.prems(1) obtain s' where
    s': "delete_stale_routes e ts rs t = (Ok (), s')" "psServices (yPm s') = psServices (yPm t)"
    "own_routes e (filter (\<lambda>(k, r). k \<notin> CacheKey ` set (filter (is_stale ts) rs)) ?es) s'" by auto
  have "delete_stale_routes e ts (r # rs) s = (Ok (), s')"
    using t(1) s'(1) by (simp add: delete_stale_routes_def gbind_run)
  moreover have "filter (\<lambda>(k, r). k \<notin> CacheKey ` set (filter (is_stale ts) rs)) ?es =
      filter (\<lambda>(k, x). k \<notin> CacheKey ` set (filter (is_stale ts) (r # rs))) es"
    by (auto simp: AList.delete_eq intro!: filter_cong)
  ultimately show ?case using s'(2,3) t(3) by auto
qed

lemma no_stale: "\<forall>r \<in> set rs. \<not> is_stale ts r \<Longrightarrow> delete_stale_routes e ts rs s = (Ok (), s)"
  by (induction rs) (simp_all add: delete_stale_routes_def go_simps)

section \<open>What the stored tenants demand\<close>

definition stored_tenants :: "('x \<Rightarrow> string \<Rightarrow> tenant_dns option) \<Rightarrow> 'x sync_state \<Rightarrow> tenant_dns set" where
  "stored_tenants db s = {t. table db s (tTenantId t) = Some t}"

text \<open>The triples of an active tenant, a service and an address.\<close>

definition demand :: "('x \<Rightarrow> string \<Rightarrow> tenant_dns option) \<Rightarrow> 'x sync_state \<Rightarrow> (tenant_dns \<times> string \<times> address) set" where
  "demand db s = (\<Union>t \<in> stored_tenants db s. if tActive t then set (wanted_of t) else {})"

definition demanded_hosts :: "(tenant_dns \<times> string \<times> address) set \<Rightarrow> string set" where
  "demanded_hosts W = (\<lambda>(t, service, a). Host a) ` W"

text \<open>The cached routes without those of tenants whose host nobody demands.\<close>

definition kept_routes ::
  "(tenant_dns \<times> string \<times> address) set \<Rightarrow> (string \<times> route) list \<Rightarrow> (string \<times> route) list" where
  "kept_routes W es = filter (\<lambda>(k, r). IsRouteManageable r \<longrightarrow>
     ToLower (route_host r) \<in> ToLower ` demanded_hosts W) es"

lemma set_wanted: "set (wanted ts) = (\<Union>t \<in> set ts. if tActive t then set (wanted_of t) else {})"
  by (auto simp: wanted_def)

lemma demand_wanted: "set ts = stored_tenants db s \<Longrightarrow> set (wanted ts) = demand db s"
  by (simp add: set_wanted demand_def)

lemma hosts_wanted: "wanted_hosts ws = demanded_hosts (set ws)"
  by (simp add: wanted_hosts_def demanded_hosts_def)

lemma all_addresses_wanted: "set (all_addresses t) = (\<lambda>(t, service, a). a) ` set (wanted_of t)"
proof -
  have "map (\<lambda>(t, service, a). a) (wanted_of t) = all_addresses t"
    by (simp add: all_addresses_def wanted_of_def map_concat comp_def split_def)
  then show ?thesis by (metis set_map)
qed

lemma belongs_demanded:
  "hostBelongsToActiveTenant host ts \<longleftrightarrow> ToLower host \<in> ToLower ` demanded_hosts (set (wanted ts))"
proof -
  have "hostBelongsToActiveTenant host ts \<longleftrightarrow>
      (\<exists>t \<in> set ts. tActive t \<and> (\<exists>(t', service, a) \<in> set (wanted_of t). ToLower (Host a) = ToLower host))"
    by (auto simp: hostBelongsToActiveTenant_def list_ex_iff all_addresses_wanted split_def)
  also have "\<dots> \<longleftrightarrow> (\<exists>(t', service, a) \<in> set (wanted ts). ToLower (Host a) = ToLower host)"
    by (auto simp: set_wanted split: if_splits)
  also have "\<dots> \<longleftrightarrow> ToLower host \<in> ToLower ` demanded_hosts (set (wanted ts))"
    by (auto simp: demanded_hosts_def image_iff split_def) (metis eq_fst_iff eq_snd_iff)+
  finally show ?thesis .
qed

lemma manageable_not_general: "IsRouteManageable r \<Longrightarrow> \<not> RouteIsGeneral r"
  by (auto simp: IsRouteManageable_def RouteIsGeneral_def)

lemma stale_demanded:
  "IsRouteManageable r \<Longrightarrow> is_stale ts r \<longleftrightarrow> ToLower (route_host r) \<notin> ToLower ` demanded_hosts (set (wanted ts))"
  by (simp add: is_stale_def manageable_not_general belongs_demanded)

lemma kept_by_key:
  assumes "well_keyed e es" and "set rs = set (filter IsRouteManageable (map snd es))"
  shows "filter (\<lambda>(k, r). k \<notin> CacheKey ` set (filter (is_stale ts) rs)) es = kept_routes (set (wanted ts)) es"
  unfolding kept_routes_def
proof (intro filter_cong refl)
  fix kr assume kr: "kr \<in> set es"
  obtain k r where [simp]: "kr = (k, r)" by (cases kr)
  have k: "k = CacheKey r" using assms(1) kr by (auto simp: well_keyed_def)
  have same: "r' = r" if r': "(k', r') \<in> set es" "CacheKey r' = CacheKey r" for k' r'
  proof -
    have "k' = k" using assms(1) r' k by (auto simp: well_keyed_def)
    with r'(1) have "(k, r') \<in> set es" by simp
    moreover have "(k, r) \<in> set es" using kr by simp
    moreover have "distinct (map fst es)" using assms(1) by (simp add: well_keyed_def)
    ultimately show ?thesis by (metis eq_key_imp_eq_value)
  qed
  have "k \<in> CacheKey ` set (filter (is_stale ts) rs) \<longleftrightarrow> IsRouteManageable r \<and> is_stale ts r"
  proof
    assume "k \<in> CacheKey ` set (filter (is_stale ts) rs)"
    then obtain r' where r': "r' \<in> set rs" "is_stale ts r'" "CacheKey r' = CacheKey r" using k by auto
    from r'(1) have "IsRouteManageable r'" "r' \<in> snd ` set es" unfolding assms(2) by simp_all
    moreover from this(2) obtain k' where "(k', r') \<in> set es" by auto
    then have "r' = r" using same r'(3) by blast
    ultimately show "IsRouteManageable r \<and> is_stale ts r" using r'(2) by simp
  next
    assume "IsRouteManageable r \<and> is_stale ts r"
    moreover have "IsRouteManageable r \<Longrightarrow> r \<in> set rs" using image_eqI [OF _ kr, of r snd] unfolding assms(2) by simp
    ultimately show "k \<in> CacheKey ` set (filter (is_stale ts) rs)" using k by simp
  qed
  then show "(case kr of (k, r) \<Rightarrow> k \<notin> CacheKey ` set (filter (is_stale ts) rs)) =
      (case kr of (k, r) \<Rightarrow> IsRouteManageable r \<longrightarrow> ToLower (route_host r) \<in> ToLower ` demanded_hosts (set (wanted ts)))"
    by (auto simp: stale_demanded)
qed

section \<open>The phases of a pass\<close>

lemma own_routes_same: "own_routes e es s \<Longrightarrow> psRoutes (yPm s') = psRoutes (yPm s) \<Longrightarrow> own_routes e es s'"
  by (simp add: own_routes_def)

text \<open>Reading the routes of namespaces none of which is another one.\<close>

lemma read_own:
  assumes "own_routes e es s" and "set ns \<subseteq> {own_namespace e}"
  shows "s_GetRoutesForNamespaces2 e ns p s = (Ok (filter p (concat (map (\<lambda>n. map snd es) ns))), s)"
proof -
  have "mlookup (psRoutes (yPm s)) (or_own_namespace (seClient e) n) = Some (GoMap es)" if "n \<in> set ns" for n
    using assms that by (auto simp: own_routes_def or_own_namespace_def)
  then have "GetRoutesForNamespaces2 (sePm e) (seClient e) ns p (yPm s) =
      (Ok (filter p (concat (map (\<lambda>n. map snd es) ns))), yPm s)"
    using get_routes_cached [of ns "yPm s" "seClient e" "\<lambda>n. GoMap es"] by simp
  then show ?thesis by (simp add: s_GetRoutesForNamespaces2_def on_pm_def gzoom_run)
qed

lemma append_own: "set (appendElemIfNotExists ns n) = insert n (set ns)"
  by (auto simp: appendElemIfNotExists_def)

lemma all_namespaces_own:
  assumes "\<forall>t \<in> set ts. set (tNamespaces t) \<subseteq> {n}"
  shows "set (appendElemIfNotExists (getAllNamespacesFromTenants n ts) n) = {n}"
proof -
  have one: "set (foldl (\<lambda>acc namespace. if namespace \<noteq> [] then appendElemIfNotExists acc namespace else acc) acc ns) \<subseteq>
      set acc \<union> set ns" for acc ns
  proof (induction ns arbitrary: acc)
    case (Cons n ns)
    show ?case
      using Cons.IH [of "if n \<noteq> [] then appendElemIfNotExists acc n else acc"]
      by (cases "n = []") (auto simp: append_own)
  qed simp
  have "set (foldl (\<lambda>acc tenant. foldl (\<lambda>acc namespace.
      if namespace \<noteq> [] then appendElemIfNotExists acc namespace else acc) acc (tNamespaces tenant)) acc ts) \<subseteq> set acc \<union> {n}"
    for acc
    using assms
  proof (induction ts arbitrary: acc)
    case (Cons t ts)
    then show ?case using one [of acc "tNamespaces t"] by (fastforce dest: subsetD)
  qed auto
  from this [of "[]"] show ?thesis by (auto simp: getAllNamespacesFromTenants_def append_own)
qed

text \<open>The mails change nothing but the world outside.\<close>

lemma notify_own:
  "own_routes e es s \<Longrightarrow> \<forall>t \<in> snd ` set changed. set (tNamespaces t) \<subseteq> {own_namespace e} \<Longrightarrow>
     \<exists>s'. notify_tenants e changed s = (Ok (), s') \<and> psRoutes (yPm s') = psRoutes (yPm s) \<and>
       psServices (yPm s') = psServices (yPm s)"
proof (induction changed arbitrary: s)
  case Nil
  then show ?case by (simp add: gret_run)
next
  case (Cons c changed)
  obtain k t where c: "c = (k, t)" by (cases c)
  let ?ns = "appendElemIfNotExists (tNamespaces t) (own_namespace e)"
  let ?rs = "filter RouteIsGeneral (concat (map (\<lambda>n. map snd es) ?ns))"
  let ?s = "s\<lparr>yPm := (yPm s)\<lparr>psRest :=
    seNotify e (tTenantAdmin t) (GenerateTextForTenantUpdate (seMail e) t ?rs) (psRest (yPm s))\<rparr>\<rparr>"
  have "set ?ns \<subseteq> {own_namespace e}" using Cons.prems(2) by (auto simp: c append_own)
  from read_own [OF Cons.prems(1) this, of RouteIsGeneral]
  have "notify_tenants e (c # changed) s = notify_tenants e changed ?s"
    by (simp add: c Let_def go_simps on_world_def on_pm_def on_rest_def)
  moreover have "own_routes e es ?s" using Cons.prems(1) by (simp add: own_routes_def)
  ultimately show ?case using Cons.IH [of ?s] Cons.prems(2) by auto
qed

lemma on_world_caches:
  "on_world m s = (r, s') \<Longrightarrow> psRoutes (yPm s') = psRoutes (yPm s) \<and> psServices (yPm s') = psServices (yPm s)"
  by (auto simp: on_world_def on_pm_def on_rest_def gzoom_def split: prod.splits)

lemma own_routes_unique: "own_routes e es s \<Longrightarrow> own_routes e es' s \<Longrightarrow> es' = es"
  by (simp add: own_routes_def)

lemma no_clash_subset: "no_clash e W es \<Longrightarrow> set es' \<subseteq> set es \<Longrightarrow> no_clash e W es'"
  by (intro no_clashI) (blast dest: no_clashD)+

section \<open>A pass\<close>

text \<open>
  What a platform, a database and a set of tenants have to satisfy: every request is accepted, no
  tenant is flagged as removed or names another namespace, the services exist, the hosts are in lower
  case.
\<close>

definition answering :: "'x sync_env \<Rightarrow> bool" where
  "answering e \<longleftrightarrow> (\<forall>x. \<exists>ts x'. FindAll (sePg e) x = (Ok ts, x')) \<and> accepts_deletes (sePm e) \<and>
     accepts_creates (sePm e) (own_namespace e)"

definition plain_tenants :: "'x sync_env \<Rightarrow> ('x \<Rightarrow> string \<Rightarrow> tenant_dns option) \<Rightarrow> 'x sync_state \<Rightarrow> bool" where
  "plain_tenants e db s \<longleftrightarrow>
     (\<forall>t \<in> stored_tenants db s. \<not> tRemoved t \<and> set (tNamespaces t) \<subseteq> {own_namespace e}) \<and>
     (\<exists>svs. knows_services e (own_namespace e) svs s \<and>
        (\<forall>(t, service, a) \<in> demand db s. ToLower (Host a) = Host a \<and> service \<in> names_of svs))"

text \<open>The first phase of a pass takes the cached routes from \<open>es\<close> to \<open>es1\<close>.\<close>

definition deletions ::
  "'x sync_env \<Rightarrow> ('x \<Rightarrow> string \<Rightarrow> tenant_dns option) \<Rightarrow> 'x sync_state \<Rightarrow>
     (string \<times> route) list \<Rightarrow> (string \<times> route) list \<Rightarrow> bool" where
  "deletions e db s es es1 \<longleftrightarrow> (\<forall>ts rs t. set ts = stored_tenants db s \<longrightarrow>
     set rs = set (filter IsRouteManageable (map snd es)) \<longrightarrow> own_routes e es t \<longrightarrow>
     (\<exists>t'. delete_stale_routes e ts rs t = (Ok (), t') \<and> psServices (yPm t') = psServices (yPm t) \<and> own_routes e es1 t'))"

context sync_world begin

lemma find_all_answers:
  assumes "\<forall>x. \<exists>ts x'. FindAll (sePg e) x = (Ok ts, x')"
  shows "\<exists>ts s'. on_world (FindAll (sePg e)) s = (Ok ts, s') \<and> set ts = stored_tenants db s \<and>
    table db s' = table db s \<and> psRoutes (yPm s') = psRoutes (yPm s) \<and> psServices (yPm s') = psServices (yPm s)"
proof -
  from assms obtain ts x' where x: "FindAll (sePg e) (psRest (yPm s)) = (Ok ts, x')" by blast
  then have run: "on_world (FindAll (sePg e)) s = (Ok ts, s\<lparr>yPm := (yPm s)\<lparr>psRest := x'\<rparr>\<rparr>)"
    by (simp add: on_world_run)
  have "set ts = stored_tenants db s"
    using dao.find_all_member [OF x] by (auto simp: stored_tenants_def table_def)
  with run framedD(1) [OF keeps_dao_reads(1) run] show ?thesis by auto
qed

lemma none_removed: "\<forall>t \<in> set ts. \<not> tRemoved t \<Longrightarrow> deleteRemovedTenants e ts s = (Ok (), s)"
  by (induction ts) (simp_all add: deleteRemovedTenants_def go_simps)

lemma only_flagged_live: "only_flagged d d' \<Longrightarrow> (\<And>k t. d k = Some t \<Longrightarrow> \<not> tRemoved t) \<Longrightarrow> d' = d"
  by (rule ext) (auto simp: only_flagged_def)

text \<open>A pass whose deletions leave the cached routes \<open>es1\<close>.\<close>

lemma pass_from:
  assumes ans: "answering e" and own: "own_routes e es s" and plain: "plain_tenants e db s"
    and clash: "no_clash e (demand db s) es1"
    and del: "deletions e db s es es1"
  shows "\<exists>s' es'. processSynchronization e s = (Ok (), s') \<and> own_routes e es' s' \<and>
    table db s' = table db s \<and> plain_tenants e db s' \<and> no_clash e (demand db s) es' \<and>
    hosts_in es' = hosts_in es1 \<union> demanded_hosts (demand db s) \<and>
    snd ` set es' \<subseteq> snd ` set es1 \<union> {r. route_host r \<in> demanded_hosts (demand db s)} \<and>
    (demanded_hosts (demand db s) \<subseteq> hosts_in es1 \<longrightarrow> es' = es1)"
proof -
  let ?W = "demand db s"
  have find: "\<forall>x. \<exists>ts x'. FindAll (sePg e) x = (Ok ts, x')" and acc: "accepts_creates (sePm e) (own_namespace e)"
    using ans by (simp_all add: answering_def)
  from plain obtain svs where svs: "knows_services e (own_namespace e) svs s"
    and lower: "\<forall>(t, service, a) \<in> ?W. ToLower (Host a) = Host a \<and> service \<in> names_of svs"
    and tenants: "\<forall>t \<in> stored_tenants db s. \<not> tRemoved t \<and> set (tNamespaces t) \<subseteq> {own_namespace e}"
    by (auto simp: plain_tenants_def)
  from find_all_answers [OF find, of s] obtain ts s1 where
    f1: "on_world (FindAll (sePg e)) s = (Ok ts, s1)" "set ts = stored_tenants db s" "table db s1 = table db s"
    "psRoutes (yPm s1) = psRoutes (yPm s)" "psServices (yPm s1) = psServices (yPm s)"
    by (elim exE conjE) (rule that; assumption)
  have o1: "own_routes e es s1" by (rule own_routes_same [OF own f1(4)])
  let ?ns = "appendElemIfNotExists (getAllNamespacesFromTenants (own_namespace e) ts) (own_namespace e)"
  let ?rs = "filter IsRouteManageable (concat (map (\<lambda>n. map snd es) ?ns))"
  have ns: "set ?ns = {own_namespace e}" 
    by (rule all_namespaces_own) (use tenants in \<open>simp add: f1(2)\<close>)
  note read = read_own [OF o1 equalityD1 [OF ns], of IsRouteManageable]
  have "set ?rs = set (filter IsRouteManageable (map snd es))" by (simp add: ns)
  with del f1(2) o1 obtain s2 where
    d: "delete_stale_routes e ts ?rs s1 = (Ok (), s2)" "psServices (yPm s2) = psServices (yPm s1)" "own_routes e es1 s2"
    unfolding deletions_def by metis
  have t2: "table db s2 = table db s1" by (rule framedD(1) [OF keeps_delete_stale d(1)])
  have rem: "deleteRemovedTenants e ts s2 = (Ok (), s2)" 
    by (rule none_removed) (use tenants in \<open>simp add: f1(2)\<close>)
  from find_all_answers [OF find, of s2] obtain ts' s3 where
    f3: "on_world (FindAll (sePg e)) s2 = (Ok ts', s3)" "set ts' = stored_tenants db s2"
    "psRoutes (yPm s3) = psRoutes (yPm s2)" "psServices (yPm s3) = psServices (yPm s2)"
    by (elim exE conjE) (rule that; assumption)
  have st: "set ts' = stored_tenants db s" using f3(2) t2 f1(3) by (simp add: stored_tenants_def)
  have w: "set (wanted ts') = ?W" by (rule demand_wanted [OF st])
  have o3: "own_routes e es1 s3" by (rule own_routes_same [OF d(3) f3(3)])
  have k3: "knows_services e (own_namespace e) svs s3"
    by (rule knows_services_same [OF svs]) (simp add: f3(4) d(2) f1(5))
  have "set (wanted ts') \<subseteq> ?W" by (simp add: w)
  from create_all [OF acc lower this k3 o3 clash, of "[]", folded create_flat]
  obtain changed s4 es' where
    c: "create_missing_routes e ts' s3 = (Ok changed, s4)" "knows_services e (own_namespace e) svs s4"
    "own_routes e es' s4" "no_clash e ?W es'" "hosts_in es' = hosts_in es1 \<union> wanted_hosts (wanted ts')"
    and idle: "(\<forall>(t, service, a) \<in> set (wanted ts'). Host a \<in> hosts_in es1) \<longrightarrow> changed = [] \<and> s4 = s3"
    and who: "snd ` set changed \<subseteq> snd ` set ([] :: (string \<times> tenant_dns) list) \<union> fst ` set (wanted ts')"
    and what: "snd ` set es' \<subseteq> snd ` set es1 \<union> {r. route_host r \<in> wanted_hosts (wanted ts')}"
    by (elim exE conjE) (rule that; assumption)
  have "snd ` set changed \<subseteq> stored_tenants db s"
    using who unfolding w by (auto simp: demand_def wanted_of_def split: if_splits)
  with tenants have "\<forall>t \<in> snd ` set changed. set (tNamespaces t) \<subseteq> {own_namespace e}" by blast
  from notify_own [OF c(3) this] obtain s5 where
    n: "notify_tenants e changed s4 = (Ok (), s5)" "psRoutes (yPm s5) = psRoutes (yPm s4)"
    "psServices (yPm s5) = psServices (yPm s4)" by blast
  have run: "processSynchronization e s = (Ok (), s5)"
    using f1(1) read d(1) rem f3(1) c(1) n(1)
    by (simp add: processSynchronization_def refreshSettings_def go_simps)
  have "only_flagged (table db s) (table db s5)"
    using keepsD [OF keeps_pass, of "table db s" "yBus s" s] run by (simp add: lost_flagged_def only_flagged_refl)
  then have table: "table db s5 = table db s" by (rule only_flagged_live) (use tenants keyed in \<open>auto simp: stored_tenants_def table_def\<close>)
  then have same: "stored_tenants db s5 = stored_tenants db s" "demand db s5 = ?W"
    by (simp_all add: stored_tenants_def demand_def)
  have k5: "knows_services e (own_namespace e) svs s5" by (rule knows_services_same [OF c(2) n(3)])
  have plain': "plain_tenants e db s5"
    unfolding plain_tenants_def same using tenants lower k5 by blast
  have o5: "own_routes e es' s5" by (rule own_routes_same [OF c(3) n(2)])
  have "es' = es1" if "demanded_hosts ?W \<subseteq> hosts_in es1"
  proof -
    have "\<forall>(t, service, a) \<in> set (wanted ts'). Host a \<in> hosts_in es1"
      using that unfolding w demanded_hosts_def by auto
    with idle have "s4 = s3" by simp
    with c(3) o3 show ?thesis using own_routes_unique by blast
  qed
  then show ?thesis
    using run o5 table plain' c(4,5) what unfolding hosts_wanted w by blast
qed

end

lemma plain_named: "plain_tenants e db s \<Longrightarrow> own_namespace e \<noteq> []"
  by (auto simp: plain_tenants_def knows_services_def)

lemma first_deletions:
  assumes "accepts_deletes (sePm e)" and "own_namespace e \<noteq> []" and "well_keyed e es"
  shows "deletions e db s es (kept_routes (demand db s) es)"
  unfolding deletions_def
proof (intro allI impI)
  fix ts rs t
  assume ts: "set ts = stored_tenants db s" and rs: "set rs = set (filter IsRouteManageable (map snd es))"
    and own: "own_routes e es t"
  have "\<forall>r \<in> set rs. mNamespace (rtMetadata r) = own_namespace e"
    unfolding rs using assms(3) by (auto simp: well_keyed_def)
  from delete_stale_own [OF assms(1,2) this own, of ts]
  show "\<exists>t'. delete_stale_routes e ts rs t = (Ok (), t') \<and> psServices (yPm t') = psServices (yPm t) \<and>
      own_routes e (kept_routes (demand db s) es) t'"
    unfolding kept_by_key [OF assms(3) rs] demand_wanted [OF ts] .
qed

lemma later_deletions:
  assumes all: "\<forall>r \<in> snd ` set es. IsRouteManageable r \<longrightarrow> ToLower (route_host r) \<in> ToLower ` demanded_hosts (demand db s)"
  shows "deletions e db s es es"
  unfolding deletions_def
proof (intro allI impI)
  fix ts rs t
  assume ts: "set ts = stored_tenants db s" and rs: "set rs = set (filter IsRouteManageable (map snd es))"
    and own: "own_routes e es t"
  have "\<not> is_stale ts r" if "r \<in> set rs" for r
  proof -
    from that have r: "IsRouteManageable r" "r \<in> snd ` set es" unfolding rs by simp_all
    have "ToLower (route_host r) \<in> ToLower ` demanded_hosts (demand db s)"
      using bspec [OF all r(2)] r(1) by (rule mp)
    then show ?thesis unfolding stale_demanded [OF r(1)] demand_wanted [OF ts] by simp
  qed
  then show "\<exists>t'. delete_stale_routes e ts rs t = (Ok (), t') \<and> psServices (yPm t') = psServices (yPm t) \<and> own_routes e es t'"
    using no_stale [of rs ts e t] own by blast
qed

lemma pass_settles:
  assumes "sync_world e db" and "answering e" and "own_routes e es s" and "well_keyed e es" and "plain_tenants e db s"
    and "no_clash e (demand db s) (kept_routes (demand db s) es)"
  shows "\<exists>s' es'. processSynchronization e s = (Ok (), s') \<and> own_routes e es' s' \<and> table db s' = table db s \<and>
    hosts_in es' = hosts_in (kept_routes (demand db s) es) \<union> demanded_hosts (demand db s) \<and>
    (\<forall>(k, r) \<in> set es'. IsRouteManageable r \<longrightarrow> ToLower (route_host r) \<in> ToLower ` demanded_hosts (demand db s)) \<and>
    (\<exists>s''. processSynchronization e s' = (Ok (), s'') \<and> own_routes e es' s'' \<and> table db s'' = table db s)"
proof -
  let ?W = "demand db s"
  have "accepts_deletes (sePm e)" using assms(2) by (simp add: answering_def)
  note del = first_deletions [OF this plain_named [OF assms(5)] assms(4)]
  from sync_world.pass_from [OF assms(1-3,5,6) del] obtain s' es' where
    p: "processSynchronization e s = (Ok (), s')" "own_routes e es' s'" "table db s' = table db s" "plain_tenants e db s'"
    "no_clash e ?W es'" "hosts_in es' = hosts_in (kept_routes ?W es) \<union> demanded_hosts ?W"
    and what: "snd ` set es' \<subseteq> snd ` set (kept_routes ?W es) \<union> {r. route_host r \<in> demanded_hosts ?W}"
    by (elim exE conjE) (rule that; assumption)
  have same: "demand db s' = ?W" using p(3) by (simp add: demand_def stored_tenants_def)
  have "\<forall>r \<in> snd ` set (kept_routes ?W es). IsRouteManageable r \<longrightarrow> ToLower (route_host r) \<in> ToLower ` demanded_hosts ?W"
    by (auto simp: kept_routes_def)
  with what have ok: "\<forall>r \<in> snd ` set es'. IsRouteManageable r \<longrightarrow> ToLower (route_host r) \<in> ToLower ` demanded_hosts ?W"
    by blast
  note del' = later_deletions [of es' db s' e, unfolded same, OF ok]
  from sync_world.pass_from [OF assms(1,2) p(2,4), of es', unfolded same, OF p(5) del'] obtain s'' es'' where
    q: "processSynchronization e s' = (Ok (), s'')" "own_routes e es'' s''" "table db s'' = table db s'"
    and idle: "demanded_hosts ?W \<subseteq> hosts_in es' \<longrightarrow> es'' = es'"
    by (elim exE conjE) (rule that; assumption)
  have "es'' = es'" using idle unfolding p(6) by simp
  with q p(3) have "processSynchronization e s' = (Ok (), s'')" "own_routes e es' s''" "table db s'' = table db s"
    by simp_all
  moreover have "\<forall>(k, r) \<in> set es'. IsRouteManageable r \<longrightarrow> ToLower (route_host r) \<in> ToLower ` demanded_hosts ?W"
    using ok by fastforce
  ultimately show ?thesis using p(1,2,3,6) by blast
qed

text \<open>
  C1: On a platform and a database that answer, with tenants that are not flagged as removed, stay in the
  own namespace, have hosts in lower case and existing services, and with no clash of names, a pass of the
  synchronization ends without an error and leaves the tenants as they are; every demanded host has a
  route, every route of a tenant has a demanded host, no host of any other route is lost; and a second
  pass changes no route.
\<close>

theorem pass_converges:
  assumes "sync_world e db" and "answering e" and "own_routes e es s" and "well_keyed e es" and "plain_tenants e db s"
    and "no_clash e (demand db s) (kept_routes (demand db s) es)"
  shows "\<exists>s' es'. processSynchronization e s = (Ok (), s') \<and> own_routes e es' s' \<and> table db s' = table db s \<and>
    hosts_in es' = hosts_in (kept_routes (demand db s) es) \<union> demanded_hosts (demand db s) \<and>
    (\<forall>(k, r) \<in> set es'. IsRouteManageable r \<longrightarrow> ToLower (route_host r) \<in> ToLower ` demanded_hosts (demand db s)) \<and>
    (\<exists>s''. processSynchronization e s' = (Ok (), s'') \<and> own_routes e es' s'' \<and> table db s'' = table db s)"
  using assms by (rule pass_settles)

text \<open>A platform that accepts everything, one route nobody demands and one tenant without a route.\<close>

definition settling_sync :: "mem_table sync_env" where
  "settling_sync = placing_sync\<lparr>sePm := (sePm placing_sync)\<lparr>peDo := (\<lambda>url verb body.
     gret \<lparr>hrStatusCode = (if verb = ''POST'' then 201 else 200), hrBody = []\<rparr>)\<rparr>\<rparr>"

definition left_over :: route where
  "left_over = ToRoute (shop_tenant ''old.com'') ''shop'' (Address ''old.com'')"

definition unsettled :: "mem_table sync_state" where
  "unsettled = mem_state [placed ''ns'' left_over] [named_service ''shop'' NilMap] [(''t1'', shop_tenant ''a.com'')]"

lemma settling_namespace [simp]: "own_namespace settling_sync = ''ns''"
  by (simp add: settling_sync_def placing_sync_def mem_sync_def)

lemma settling_pm: "sePm settling_sync = (mem_pm 201)\<lparr>peIntoRoute := (\<lambda>b r. Decoded (placed ''ns'' r)),
    peDo := (\<lambda>url verb body. gret \<lparr>hrStatusCode = (if verb = ''POST'' then 201 else 200), hrBody = []\<rparr>)\<rparr>"
  by (simp add: settling_sync_def)

interpretation settling: sync_world settling_sync mem_db
proof -
  have "tm_world (seTm settling_sync) mem_db"
    by (simp add: settling_sync_def placing_sync_def mem_sync_def mem_tm.tm_world_axioms)
  moreover have "pm_frame (sePm settling_sync) mem_db"
    by unfold_locales (simp_all add: settling_pm mem_pm_def go_simps)
  moreover have "sync_world_axioms settling_sync mem_db"
    by unfold_locales (simp_all add: settling_sync_def placing_sync_def mem_sync_def go_simps)
  ultimately show "sync_world settling_sync mem_db" by (simp add: sync_world_def)
qed

lemma settling_answers: "answering settling_sync"
proof -
  have "FindAll (sePg settling_sync) x = (Ok (mem_select (\<lambda>t. True) x), x)" for x
    by (simp add: settling_sync_def placing_sync_def mem_sync_def mem_tm_def mem_pg_def FindAll_def usingDB_def go_simps)
  then show ?thesis
    by (simp add: answering_def accepts_deletes_def accepts_creates_def settling_pm mem_pm_def go_simps
        decodeResponseBody_def)
qed

lemma unsettled_tenants: "stored_tenants mem_db unsettled = {shop_tenant ''a.com''}"
  by (auto simp: stored_tenants_def table_def unsettled_def mem_state_def mem_db_def shop_tenant_def split: if_splits)

lemma unsettled_demand: "demand mem_db unsettled = {(shop_tenant ''a.com'', ''shop'', Address ''a.com'')}"
  using wanted_shop [of "''a.com''"] by (simp add: demand_def unsettled_tenants wanted_def) (simp add: shop_tenant_def)

lemma pass_converges_witness:
  "\<exists>s' es'. processSynchronization settling_sync unsettled = (Ok (), s') \<and> own_routes settling_sync es' s' \<and>
     hosts_in es' = {''a.com''}"
proof -
  let ?r = "placed ''ns'' left_over"
  let ?W = "demand mem_db unsettled"
  have host: "Host (Address ''a.com'') = ''a.com''" "ToLower ''a.com'' = ''a.com''" "ToLower ''old.com'' = ''old.com''"
    "Host (Address ''old.com'') = ''old.com''"
    by code_simp+
  have r: "route_host ?r = ''old.com''" "IsRouteManageable ?r" "mNamespace (rtMetadata ?r) = ''ns''"
    using host by (simp_all add: placed_def left_over_def ToRoute_def IsRouteManageable_def shop_tenant_def GENERAL_def)
  have routes: "own_routes settling_sync [(CacheKey ?r, ?r)] unsettled"
    by (simp add: own_routes_def unsettled_def mem_state_def keyed_def)
  have keys: "well_keyed settling_sync [(CacheKey ?r, ?r)]" by (simp add: well_keyed_def r)
  have kept: "kept_routes ?W [(CacheKey ?r, ?r)] = []"
    by (simp add: kept_routes_def r demanded_hosts_def unsettled_demand host)
  have "knows_services settling_sync ''ns'' [named_service ''shop'' NilMap] unsettled"
    by (simp add: knows_services_def unsettled_def mem_state_def keyed_def)
  then have plain: "plain_tenants settling_sync mem_db unsettled"
    unfolding plain_tenants_def unsettled_demand unsettled_tenants
    by (auto simp: host shop_tenant_def named_service_def zero_tenant_def)
  have "no_clash settling_sync ?W (kept_routes ?W [(CacheKey ?r, ?r)])"
    unfolding kept by (simp add: no_clash_def unsettled_demand)
  from pass_converges [OF settling.sync_world_axioms settling_answers routes keys plain this]
  show ?thesis unfolding kept by (auto simp: hosts_in_def demanded_hosts_def unsettled_demand host)
qed

end
