(* ===== verification/Controller.thy ===== *)
theory Controller
  imports SyncQueries SyncPass VirtualServices
begin

text \<open>
  The handlers of the HTTP interface (\<open>controller/api.go\<close>) and the table of their paths
  (\<open>lib/runner.go\<close>). A handler reads parameters of the request, calls the synchronizer and answers
  with a status and a body. The web framework gives the request as functions and turns an error that
  a handler returns, or a panic, into an answer of its own; the JSON decoders of the bodies, the reset
  of the client of the identity provider and the clock of the caches are parameters, \<open>api_env\<close>.
\<close>

section \<open>Requests and answers\<close>

text \<open>
  \<open>rqParam\<close>, \<open>rqQuery\<close> and \<open>rqHeader\<close> are \<open>c.Params\<close>, \<open>c.Query\<close> and \<open>c.Get\<close>, whose second argument is the
  default value; \<open>rqArgs\<close> are the query arguments in the order of \<open>VisitAll\<close>.
\<close>

record request =
  rqParam :: "string \<Rightarrow> string"
  rqQuery :: "string \<Rightarrow> string \<Rightarrow> string"
  rqHeader :: "string \<Rightarrow> string"
  rqArgs :: "(string \<times> string) list"
  rqBody :: string

datatype api_payload =
    NoPayload
  | NullPayload
  | TextPayload string
  | StringPayload string
  | ErrorPayload string
  | TenantPayload tenant_dns
  | TenantsPayload "tenant_dns list"
  | ServicesPayload "custom_service list"
  | PlatformServicesPayload "service list"
  | RoutesPayload "route list"
  | RealmPayload "string list"
  | RealmsPayload "string list \<times> realm list"
  | ValidationPayload validation_result
  | BulkPayload "tenant_data list"

datatype response = Response (status: int) (payload: api_payload)

text \<open>
  \<open>aeTenantDns\<close>: the decoder that refuses unknown fields. \<open>aeBulk\<close>: a pointer to a slice of pointers,
  all of which can be nil. \<open>aeTenant\<close>: the framework's \<open>BodyParser\<close>. \<open>aeLastUpdate\<close>: the time of the
  last update of the caches.
\<close>

record 'x api_env =
  aeSync :: "'x sync_env"
  aeReset :: "'x \<Rightarrow> 'x"
  aeTenantDns :: "string \<Rightarrow> tenant_dns option"
  aeTenant :: "request \<Rightarrow> tm_tenant option"
  aeBulk :: "string \<Rightarrow> tenant_data option list option option"
  aeLastUpdate :: "'x pm_state \<Rightarrow> int"

definition respondWithJson :: "int \<Rightarrow> api_payload \<Rightarrow> ('s, response) go" where
  "respondWithJson code body = gret (Response code body)"

definition respondWithError :: "int \<Rightarrow> string \<Rightarrow> ('s, response) go" where
  "respondWithError code msg = respondWithJson code (ErrorPayload msg)"

definition respondWithoutBody :: "int \<Rightarrow> ('s, response) go" where
  "respondWithoutBody code = gret (Response code (StringPayload []))"

definition respondWithString :: "int \<Rightarrow> string \<Rightarrow> ('s, response) go" where
  "respondWithString code response = gret (Response code (TextPayload response))"

text \<open>The two forms of a flag: true unless the text is \<open>false\<close>, and false unless it is \<open>true\<close>.\<close>

definition unless_false :: "request \<Rightarrow> string \<Rightarrow> bool" where
  "unless_false rq key \<longleftrightarrow> rqQuery rq key ''true'' \<noteq> ''false''"

definition only_true :: "request \<Rightarrow> string \<Rightarrow> bool" where
  "only_true rq key \<longleftrightarrow> rqQuery rq key ''false'' = ''true''"

definition Merge :: string where "Merge = ''mergeGeneral''"
definition GenerateDefault :: string where "GenerateDefault = ''generateDefaultSiteIfEmpty''"
definition IgnoreMissing :: string where "IgnoreMissing = ''ignoreMissing''"
definition ShowAllTenants :: string where "ShowAllTenants = ''showAllTenants''"
definition Async :: string where "Async = ''async''"
definition Protocol :: string where "Protocol = ''protocol''"
definition TenantIdParam :: string where "TenantIdParam = ''tenantId''"

text \<open>What most handlers do with the outcome of a call: an error becomes an answer with one status.\<close>

definition or_status :: "int \<Rightarrow> ('s, 'a) go \<Rightarrow> ('a \<Rightarrow> ('s, response) go) \<Rightarrow> ('s, response) go" where
  "or_status code m f = gtry m (\<lambda>r. case r of
     Inl err \<Rightarrow> respondWithError code (err_message err) | Inr x \<Rightarrow> f x)"

definition with_tenant_id :: "request \<Rightarrow> (string \<Rightarrow> ('s, response) go) \<Rightarrow> ('s, response) go" where
  "with_tenant_id rq f = (let tenantId = rqParam rq TenantIdParam in
     if tenantId = [] then respondWithError 400 ''Tenant id is not provided in request'' else f tenantId)"

definition api_await :: "'x api_env \<Rightarrow> bool \<Rightarrow> ('x sync_state, unit) go \<Rightarrow> ('x sync_state, unit) go" where
  "api_await env async f = AwaitAction (aeSync env) (aeLastUpdate env) async f"

section \<open>Queries\<close>

definition api_GetSite :: "'x api_env \<Rightarrow> request \<Rightarrow> ('x sync_state, response) go" where
  "api_GetSite env rq =
     (let tenantId = rqParam rq TenantIdParam; url = rqHeader rq ''url'' in
      if tenantId = [] then respondWithError 400 ''Tenant external id is not provided in request''
      else if url = [] then respondWithError 400 ''URL is not specified''
      else or_status 500 (GetSite (aeSync env) tenantId url (unless_false rq Merge) (only_true rq GenerateDefault))
        (\<lambda>data. if data \<noteq> [] then respondWithString 200 data else respondWithError 404 ''Site not found''))"

definition api_GetServiceName :: "'x api_env \<Rightarrow> request \<Rightarrow> ('x sync_state, response) go" where
  "api_GetServiceName env rq =
     (let tenantId = rqHeader rq ''Tenant'' in
      if tenantId = [] then respondWithError 400 ''Tenant id is not specified''
      else or_status 500 (SyncUpsert.GetServiceName (aeSync env) tenantId) (\<lambda>data. respondWithJson 200 (StringPayload data)))"

definition api_GetRealms :: "'x api_env \<Rightarrow> request \<Rightarrow> ('x sync_state, response) go" where
  "api_GetRealms env rq =
     or_status 500 (GetRealms (aeSync env) (only_true rq ShowAllTenants)) (\<lambda>data. respondWithJson 200 (RealmsPayload data))"

definition api_GetRealm :: "'x api_env \<Rightarrow> request \<Rightarrow> ('x sync_state, response) go" where
  "api_GetRealm env rq =
     or_status 500 (GetRealm (aeSync env) (rqParam rq TenantIdParam)) (\<lambda>data. respondWithJson 200 (RealmPayload data))"

text \<open>The loop flattens copies of the tenants, which share their maps with the answer.\<close>

definition api_GetAll :: "'x api_env \<Rightarrow> request \<Rightarrow> ('x sync_state, response) go" where
  "api_GetAll env rq = or_status 404 (FindAllWithGeneral (aeSync env) (unless_false rq Merge))
     (\<lambda>data. respondWithJson 200 (TenantsPayload (map FlattenAddressesToHosts data)))"

definition api_Validate :: "'x api_env \<Rightarrow> request \<Rightarrow> ('x sync_state, response) go" where
  "api_Validate env rq = (case aeTenantDns env (rqBody rq) of
       None \<Rightarrow> respondWithError 400 ''Invalid request payload''
     | Some data \<Rightarrow> or_status 500 (CheckCollisions (aeSync env) data) (\<lambda>result. respondWithJson 200 (ValidationPayload result)))"

text \<open>An error of the first search is dropped; the second takes the id for an external one.\<close>

definition api_Get :: "'x api_env \<Rightarrow> request \<Rightarrow> ('x sync_state, response) go" where
  "api_Get env rq = with_tenant_id rq (\<lambda>tenantId.
     let tenantSite = rqQuery rq ''site'' []; mergeGeneral = unless_false rq Merge;
         generateDefault = only_true rq GenerateDefault in
     gtry (sync_FindByTenantId (aeSync env) tenantId tenantSite mergeGeneral generateDefault) (\<lambda>r. case r of
       Inr data \<Rightarrow> respondWithJson 200 (TenantPayload (FlattenAddressesToHosts data))
     | Inl _ \<Rightarrow> or_status 404 (FindByExternalTenantId (aeSync env) tenantId tenantSite mergeGeneral generateDefault)
         (\<lambda>data. respondWithJson 200 (TenantPayload (FlattenAddressesToHosts data)))))"

text \<open>A key that occurs more than once has the values of its last occurrence.\<close>

definition query_map :: "(string \<times> string) list \<Rightarrow> (string, string list) gomap" where
  "query_map args = GoMap (foldl (\<lambda>m (key, v). AList.update key (Split v (CHR '','')) m) [] args)"

definition api_ListOpenShiftRoutes :: "'x api_env \<Rightarrow> request \<Rightarrow> ('x sync_state, response) go" where
  "api_ListOpenShiftRoutes env rq =
     gtry (GetOpenShiftRoutes (aeSync env) (query_map (rqArgs rq))) (\<lambda>r. case r of
       Inr routes \<Rightarrow> respondWithJson 200 (RoutesPayload routes)
     | Inl (OpenShiftPermissionError m) \<Rightarrow> respondWithError 403 m
     | Inl err \<Rightarrow> respondWithError 500 (err_message err))"

text \<open>A nil pointer, of the slice or of an element, is dereferenced.\<close>

fun default_sites :: "tenant_data option list \<Rightarrow> tenant_data list result" where
  "default_sites [] = Ok []"
| "default_sites (None # rest) = Panic ''invalid memory address or nil pointer dereference''"
| "default_sites (Some d # rest) = (case default_sites rest of
     Ok ds \<Rightarrow> Ok ((if tdSite d = [] then d\<lparr>tdSite := ''default''\<rparr> else d) # ds)
   | Err err \<Rightarrow> Err err | Panic p \<Rightarrow> Panic p)"

definition api_ListAnnotatedRoutesBulk :: "'x api_env \<Rightarrow> request \<Rightarrow> ('x sync_state, response) go" where
  "api_ListAnnotatedRoutesBulk env rq = (case aeBulk env (rqBody rq) of
       None \<Rightarrow> respondWithError 400 ''Invalid request payload''
     | Some None \<Rightarrow> gpanic ''invalid memory address or nil pointer dereference''
     | Some (Some pointers) \<Rightarrow> gbind (gresult (default_sites pointers)) (\<lambda>data.
         or_status 500 (GetAnnotatedRoutesBulk (aeSync env) data) (\<lambda>services. respondWithJson 200 (BulkPayload services))))"

text \<open>
  What the two handlers of one tenant's routes share. The protocol is read from the parameter \<open>async\<close>.
\<close>

definition tenant_data_of :: "request \<Rightarrow> tenant_data" where
  "tenant_data_of rq = \<lparr>tdTenantId = Some (rqQuery rq TenantIdParam []), tdTenantName = [],
     tdProtocol = rqQuery rq Async [],
     tdSite = (if rqQuery rq ''site'' [] \<noteq> [] then rqQuery rq ''site'' [] else ''default''),
     tdIgnoreMissing = only_true rq IgnoreMissing, tdRoutes = []\<rparr>"

definition answer_services :: "('s, custom_service list) go \<Rightarrow> ('s, response) go" where
  "answer_services m = gtry m (\<lambda>r. case r of
       Inr services \<Rightarrow> respondWithJson 200 (ServicesPayload services)
     | Inl (TenantNotFoundError m) \<Rightarrow> respondWithError 404 m
     | Inl (TenantIsNotActiveError m) \<Rightarrow> respondWithError 400 m
     | Inl err \<Rightarrow> respondWithError 500 (err_message err))"

definition api_GetIdpRoute :: "'x api_env \<Rightarrow> request \<Rightarrow> ('x sync_state, response) go" where
  "api_GetIdpRoute env rq =
     (if rqQuery rq TenantIdParam [] = [] then respondWithError 400 ''No tenantId specified''
      else answer_services (GetIdpRouteForTenant (aeSync env) (tenant_data_of rq)))"

definition api_ListAnnotatedRoutes :: "'x api_env \<Rightarrow> request \<Rightarrow> ('x sync_state, response) go" where
  "api_ListAnnotatedRoutes env rq =
     (if rqQuery rq TenantIdParam [] = [] then respondWithError 400 ''No tenantId specified''
      else answer_services (GetAnnotatedRoutesForTenant (aeSync env) (tenant_data_of rq)))"

definition api_ListPublicServices :: "'x api_env \<Rightarrow> request \<Rightarrow> ('x sync_state, response) go" where
  "api_ListPublicServices env rq =
     (let v = rqQuery rq ''namespaces'' []; namespaces = (if v \<noteq> [] then Split v (CHR '','') else []) in
      or_status 500 (GetPublicServices (aeSync env) namespaces) (\<lambda>services. respondWithJson 200 (PlatformServicesPayload services)))"

text \<open>A tenant is appended once for every address with the host.\<close>

definition search_host :: "string \<Rightarrow> tenant_dns list \<Rightarrow> tenant_dns list" where
  "search_host host tenants = concat (map (\<lambda>tenant. map (\<lambda>_. tenant)
     (filter (\<lambda>a. ToLower (Host a) = ToLower host) (all_addresses tenant))) tenants)"

definition api_Search :: "'x api_env \<Rightarrow> request \<Rightarrow> ('x sync_state, response) go" where
  "api_Search env rq =
     (let v = rqQuery rq ''host'' [] in
      if v = [] then respondWithError 400 ''No host specified''
      else let host = Host (Address v) in
        if host = [] then respondWithError 400 ''Host format is not valid''
        else or_status 500 (sync_FindAll (aeSync env)) (\<lambda>data. respondWithJson 200 (TenantsPayload (search_host host data))))"

text \<open>An error is returned to the framework.\<close>

definition api_GetTenantCurrentServices :: "'x api_env \<Rightarrow> request \<Rightarrow> ('x sync_state, response) go" where
  "api_GetTenantCurrentServices env rq =
     (let forwardedProto = hd (Split (ToLower (rqHeader rq ''X-Forwarded-Proto'')) (CHR '',''));
          externalId = rqHeader rq ''Tenant'' in
      gbind (if externalId \<noteq> [] then FindByExternalTenantId (aeSync env) externalId [] False False
             else gret zero_tenant) (\<lambda>scheme.
      let tenantData = \<lparr>tdTenantId = Some (tTenantId scheme), tdTenantName = [], tdProtocol = forwardedProto,
            tdSite = ''default'', tdIgnoreMissing = True, tdRoutes = []\<rparr> in
      gbind (if tTenantId scheme \<noteq> [] then GetAnnotatedRoutesForTenant (aeSync env) tenantData
             else GetAnnotatedRoutes (aeSync env) tenantData scheme) (\<lambda>services.
      respondWithJson 200 (ServicesPayload services))))"

section \<open>Changes\<close>

definition api_RegisterTenant :: "'x api_env \<Rightarrow> request \<Rightarrow> ('x sync_state, response) go" where
  "api_RegisterTenant env rq = (case aeTenant env rq of
       None \<Rightarrow> respondWithError 400 ''Invalid request payload''
     | Some tenant \<Rightarrow> or_status 500 (RegisterTenant (aeSync env) tenant) (\<lambda>_. respondWithoutBody 201))"

text \<open>
  \<open>Upsert\<close> gets a copy of the tenant that shares its map of sites and its array of namespaces with the
  caller's, so the answer shows what \<open>Upsert\<close> did to them; \<open>upsert_seen\<close> is \<open>Upsert\<close> with that view.
\<close>

definition upsert_seen :: "'x sync_env \<Rightarrow> tenant_dns \<Rightarrow> ('x sync_state, tenant_dns) go" where
  "upsert_seen e data =
     gbind (prepare_upsert e data) (\<lambda>filteredData.
     gbind (on_world (dao_Upsert (sePg e) filteredData)) (\<lambda>_.
     gbind Sync (\<lambda>_. gret (data\<lparr>tSites := tSites filteredData, tNamespaces := tNamespaces filteredData\<rparr>))))"

text \<open>\<open>AwaitAction\<close> around an action whose closure has changed a variable of the handler.\<close>

definition await_value :: "'x api_env \<Rightarrow> bool \<Rightarrow> ('x sync_state, 'a) go \<Rightarrow> ('x sync_state, 'a) go" where
  "await_value env async f = (\<lambda>s. case f s of
       (Ok v, t) \<Rightarrow> gbind (api_await env async (\<lambda>_. (Ok (), t))) (\<lambda>_. gret v) s
     | (Err err, t) \<Rightarrow> gbind (api_await env async (\<lambda>_. (Err err, t))) (\<lambda>_. gerr err) s
     | (Panic p, t) \<Rightarrow> (Panic p, t))"

definition api_Upsert :: "'x api_env \<Rightarrow> request \<Rightarrow> ('x sync_state, response) go" where
  "api_Upsert env rq = (case aeTenantDns env (rqBody rq) of
       None \<Rightarrow> respondWithError 400 ''Invalid request payload''
     | Some data0 \<Rightarrow>
         let data = FlattenAddressesToHosts data0 in
         or_status 500 (await_value env (unless_false rq Async) (upsert_seen (aeSync env) data))
           (\<lambda>seen. respondWithJson 201 (TenantPayload seen)))"

definition api_UpsertUpdate :: "'x api_env \<Rightarrow> request \<Rightarrow> ('x sync_state, response) go" where
  "api_UpsertUpdate env rq = api_Upsert env rq"

text \<open>\<open>FindByExternalTenantId\<close> as a caller sees it who looks at the tenant and not at the error.\<close>

definition find_external_tenant ::
  "'x sync_env \<Rightarrow> string \<Rightarrow> ('x sync_state, tenant_dns option) go" where
  "find_external_tenant e externalId =
     gtry (on_world (GetTenantByExternalId (seTm e) externalId)) (\<lambda>r. case r of
       Inl _ \<Rightarrow> gret None
     | Inr tenantData \<Rightarrow> gtry (sync_FindByTenantId e (tmObjectId tenantData) [] False False) (\<lambda>q. case q of
         Inl _ \<Rightarrow> gret None
       | Inr tenant \<Rightarrow> gtry (actualizeTenantStatus e tenant (tmStatus tenantData = Active))
           (\<lambda>_. gret (Some (tenant\<lparr>tActive := (tmStatus tenantData = Active)\<rparr>)))))"

definition nil_dereference :: "('s, 'a) go" where
  "nil_dereference = gpanic ''invalid memory address or nil pointer dereference''"

definition api_RestoreTenantAlias :: "'x api_env \<Rightarrow> request \<Rightarrow> ('x sync_state, response) go" where
  "api_RestoreTenantAlias env rq = with_tenant_id rq (\<lambda>tenantId.
     gbind (gtry (sync_FindByTenantId (aeSync env) tenantId [] False False) (\<lambda>r. case r of
         Inr data \<Rightarrow> gret (Some data)
       | Inl _ \<Rightarrow> find_external_tenant (aeSync env) tenantId)) (\<lambda>found.
     case found of
       None \<Rightarrow> nil_dereference
     | Some data \<Rightarrow>
         let activate = or_status 500 (api_await env True (ChangeTenantStatus (aeSync env) tenantId True))
               (\<lambda>_. respondWithoutBody 200) in
         if ments (tSites data) \<noteq> [] then activate
         else gtry (sync_FindByTenantId (aeSync env) tenantId [] False True) (\<lambda>r. case r of
             Inl _ \<Rightarrow> nil_dereference
           | Inr generated \<Rightarrow> or_status 500 (api_await env True (Upsert (aeSync env) generated)) (\<lambda>_. activate))))"

definition api_Delete :: "'x api_env \<Rightarrow> request \<Rightarrow> ('x sync_state, response) go" where
  "api_Delete env rq = with_tenant_id rq (\<lambda>tenantId.
     or_status 500 (api_await env (unless_false rq Async) (DeleteRoutes (aeSync env) tenantId))
       (\<lambda>_. respondWithJson 200 (StringPayload [])))"

text \<open>Nothing is written, so the framework answers with its default status.\<close>

definition api_Sync :: "'x api_env \<Rightarrow> request \<Rightarrow> ('x sync_state, response) go" where
  "api_Sync env rq = gbind Sync (\<lambda>_. gret (Response 200 NoPayload))"

definition api_ResetCaches :: "'x api_env \<Rightarrow> request \<Rightarrow> ('x sync_state, response) go" where
  "api_ResetCaches env rq = respondWithJson 200 (StringPayload [])"

definition change_status :: "'x api_env \<Rightarrow> request \<Rightarrow> bool \<Rightarrow> ('x sync_state, response) go" where
  "change_status env rq active = with_tenant_id rq (\<lambda>tenantId.
     or_status 500 (api_await env (unless_false rq Async) (ChangeTenantStatus (aeSync env) tenantId active))
       (\<lambda>_. respondWithJson 200 NullPayload))"

definition api_ActivateTenant :: "'x api_env \<Rightarrow> request \<Rightarrow> ('x sync_state, response) go" where
  "api_ActivateTenant env rq = change_status env rq True"

definition api_DeactivateTenant :: "'x api_env \<Rightarrow> request \<Rightarrow> ('x sync_state, response) go" where
  "api_DeactivateTenant env rq = change_status env rq False"

text \<open>The flag is read from the parameter \<open>protocol\<close>.\<close>

definition api_DeleteTenant :: "'x api_env \<Rightarrow> request \<Rightarrow> ('x sync_state, response) go" where
  "api_DeleteTenant env rq = with_tenant_id rq (\<lambda>tenantId.
     or_status 500 (api_await env (unless_false rq Protocol) (DeleteTenant (aeSync env) tenantId))
       (\<lambda>_. respondWithJson 200 NullPayload))"

definition api_CreateTenantRoute :: "'x api_env \<Rightarrow> request \<Rightarrow> ('x sync_state, response) go" where
  "api_CreateTenantRoute env rq = with_tenant_id rq (\<lambda>tenantId.
     or_status 404 (sync_FindByTenantId (aeSync env) tenantId [] False False) (\<lambda>data.
     let activate = or_status 500 (api_await env True (ChangeTenantStatus (aeSync env) tenantId True))
           (\<lambda>_. respondWithJson 200 NullPayload) in
     if ments (tSites data) \<noteq> [] then activate
     else or_status 404 (sync_FindByTenantId (aeSync env) tenantId [] False True) (\<lambda>generated.
       or_status 500 (api_await env True (Upsert (aeSync env) (FlattenAddressesToHosts generated))) (\<lambda>_. activate))))"

definition api_SyncIDP :: "'x api_env \<Rightarrow> request \<Rightarrow> ('x sync_state, response) go" where
  "api_SyncIDP env rq =
     gbind (on_world (gmodify (aeReset env))) (\<lambda>_.
     or_status 500 (SendRoutesToIDP (aeSync env)) (\<lambda>_. respondWithoutBody 200))"

section \<open>The paths\<close>

datatype handler =
    SyncH | ValidateH | ResetCachesH | ListPublicServicesH | ListAnnotatedRoutesH | ListAnnotatedRoutesBulkH
  | ListOpenShiftRoutesH | GetIdpRouteH | GetRealmH | GetRealmsH | GetServiceNameH | GetTenantCurrentServicesH
  | RegisterTenantH | DeleteTenantH | SearchH | CreateTenantRouteH | SyncIDPH | GetSiteH | GetH | GetAllH
  | ActivateTenantH | DeactivateTenantH | UpsertH | UpsertUpdateH | DeleteH | RestoreTenantAliasH

text \<open>Method, path and handler, in the order of their registration.\<close>

definition api_routes :: "(string \<times> string \<times> handler) list" where
  "api_routes = map (\<lambda>(verb, path, h). (verb, ''/api/v1'' @ path, h))
    ([(''POST'', ''/sync'', SyncH), (''POST'', ''/validate'', ValidateH),
      (''POST'', ''/reset-caches'', ResetCachesH), (''GET'', ''/public-services'', ListPublicServicesH),
      (''GET'', ''/annotated-routes'', ListAnnotatedRoutesH),
      (''POST'', ''/annotated-routes-bulk'', ListAnnotatedRoutesBulkH),
      (''GET'', ''/openshift-routes'', ListOpenShiftRoutesH),
      (''GET'', ''/identity-provider-route'', GetIdpRouteH),
      (''GET'', ''/trusted-hosts/:tenantId'', GetRealmH), (''GET'', ''/trusted-hosts'', GetRealmsH),
      (''GET'', ''/tenants/current/service/name'', GetServiceNameH),
      (''GET'', ''/tenants/current/services'', GetTenantCurrentServicesH),
      (''POST'', ''/tenants'', RegisterTenantH), (''DELETE'', ''/tenants/:tenantId'', DeleteTenantH),
      (''GET'', ''/search'', SearchH),
      (''POST'', ''/activate/create-os-tenant-alias-routes/perform/:tenantId'', CreateTenantRouteH)] @
     map (\<lambda>(verb, path, h). (verb, ''/routes'' @ path, h))
     [(''POST'', ''/sync-idp'', SyncIDPH), (''GET'', ''/:tenantId/site'', GetSiteH),
      (''GET'', ''/:tenantId'', GetH), (''GET'', ''/'', GetAllH),
      (''POST'', ''/:tenantId/activate'', ActivateTenantH),
      (''POST'', ''/:tenantId/deactivate'', DeactivateTenantH), (''POST'', ''/'', UpsertH),
      (''PUT'', ''/'', UpsertUpdateH), (''DELETE'', ''/:tenantId'', DeleteH),
      (''POST'', ''/:tenantId/restore-tenant-alias'', RestoreTenantAliasH)])"

fun handle :: "'x api_env \<Rightarrow> handler \<Rightarrow> request \<Rightarrow> ('x sync_state, response) go" where
  "handle env SyncH = api_Sync env"
| "handle env ValidateH = api_Validate env"
| "handle env ResetCachesH = api_ResetCaches env"
| "handle env ListPublicServicesH = api_ListPublicServices env"
| "handle env ListAnnotatedRoutesH = api_ListAnnotatedRoutes env"
| "handle env ListAnnotatedRoutesBulkH = api_ListAnnotatedRoutesBulk env"
| "handle env ListOpenShiftRoutesH = api_ListOpenShiftRoutes env"
| "handle env GetIdpRouteH = api_GetIdpRoute env"
| "handle env GetRealmH = api_GetRealm env"
| "handle env GetRealmsH = api_GetRealms env"
| "handle env GetServiceNameH = api_GetServiceName env"
| "handle env GetTenantCurrentServicesH = api_GetTenantCurrentServices env"
| "handle env RegisterTenantH = api_RegisterTenant env"
| "handle env DeleteTenantH = api_DeleteTenant env"
| "handle env SearchH = api_Search env"
| "handle env CreateTenantRouteH = api_CreateTenantRoute env"
| "handle env SyncIDPH = api_SyncIDP env"
| "handle env GetSiteH = api_GetSite env"
| "handle env GetH = api_Get env"
| "handle env GetAllH = api_GetAll env"
| "handle env ActivateTenantH = api_ActivateTenant env"
| "handle env DeactivateTenantH = api_DeactivateTenant env"
| "handle env UpsertH = api_Upsert env"
| "handle env UpsertUpdateH = api_UpsertUpdate env"
| "handle env DeleteH = api_Delete env"
| "handle env RestoreTenantAliasH = api_RestoreTenantAlias env"

text \<open>
  The statuses that the annotations \<open>@Success\<close> and \<open>@Failure\<close> of a handler name (\<open>default\<close> left out).
\<close>

fun documented :: "handler \<Rightarrow> int set" where
  "documented SyncH = {200}"
| "documented ValidateH = {200, 400, 500}"
| "documented ResetCachesH = {200}"
| "documented ListPublicServicesH = {200, 500}"
| "documented ListAnnotatedRoutesH = {200, 400, 404, 500}"
| "documented ListAnnotatedRoutesBulkH = {200, 400, 500}"
| "documented ListOpenShiftRoutesH = {200, 403, 500}"
| "documented GetIdpRouteH = {200, 400, 404, 500}"
| "documented GetRealmH = {200, 500}"
| "documented GetRealmsH = {200, 500}"
| "documented GetServiceNameH = {200, 400, 500}"
| "documented GetTenantCurrentServicesH = {200}"
| "documented RegisterTenantH = {201, 400, 500}"
| "documented DeleteTenantH = {200, 400, 500}"
| "documented SearchH = {200, 400, 500}"
| "documented CreateTenantRouteH = {200, 400, 404, 500}"
| "documented SyncIDPH = {200, 500}"
| "documented GetSiteH = {200, 400, 404, 500}"
| "documented GetH = {200, 404}"
| "documented GetAllH = {200, 404}"
| "documented ActivateTenantH = {200, 404, 500}"
| "documented DeactivateTenantH = {200, 400, 500}"
| "documented UpsertH = {201, 400, 500}"
| "documented UpsertUpdateH = {201, 400, 500}"
| "documented DeleteH = {200, 400, 500}"
| "documented RestoreTenantAliasH = {200, 400, 500}"

lemmas query_handlers = api_GetSite_def api_GetServiceName_def api_GetRealms_def api_GetRealm_def
  api_GetAll_def api_Validate_def api_Get_def api_ListOpenShiftRoutes_def api_ListAnnotatedRoutesBulk_def
  api_GetIdpRoute_def api_ListAnnotatedRoutes_def api_ListPublicServices_def api_Search_def
  api_GetTenantCurrentServices_def

lemmas change_handlers = api_RegisterTenant_def api_Upsert_def api_UpsertUpdate_def
  api_RestoreTenantAlias_def api_Delete_def api_Sync_def api_ResetCaches_def change_status_def
  api_ActivateTenant_def api_DeactivateTenant_def api_DeleteTenant_def api_CreateTenantRoute_def
  api_SyncIDP_def

end
