(* ===== verification/PaasSync.thy ===== *)
theory PaasSync
  imports PaasClientLemmas
begin

text \<open>
  How the caches of the mediation client follow the platform: the web socket client that puts
  messages on a channel (\<open>paasMediationClient/websocketclient.go\<close>), the adapters that turn messages of
  gateway routes into messages of native ones, and the loop that applies the messages to a cache and
  calls the callbacks (\<open>StartSyncingCache\<close> in \<open>paasMediationClient.go\<close>). A channel is the list of its
  messages; JSON coding and the socket are parameters. At the end, what the routes cache holds after
  any sequence of events.
\<close>

section \<open>Adapters\<close>

text \<open>
  \<open>envelope\<close> reads the fields \<open>type\<close>, \<open>None\<close> if it is no string, and \<open>object\<close>, encoded again. The type
  is asserted after the object has been encoded.
\<close>

definition extractObjectPayload ::
  "(string \<Rightarrow> string + string option \<times> string) \<Rightarrow> string \<Rightarrow> (string \<times> string) result" where
  "extractObjectPayload envelope jsonVal = (case envelope jsonVal of
       Inl m \<Rightarrow> Err (PlainError m)
     | Inr (Some ty, object) \<Rightarrow> Ok (ty, object)
     | Inr (None, object) \<Rightarrow> Panic ''interface conversion: interface is not string'')"

fun marshal_all :: "(route_update \<Rightarrow> string + string) \<Rightarrow> route_update list \<Rightarrow> string list result" where
  "marshal_all marshal [] = Ok []"
| "marshal_all marshal (u # us) = (case marshal u of
     Inl m \<Rightarrow> Err (PlainError m)
   | Inr message \<Rightarrow> (case marshal_all marshal us of Ok ms \<Rightarrow> Ok (message # ms) | Err e \<Rightarrow> Err e | Panic p \<Rightarrow> Panic p))"

definition makeRouteAdapter ::
  "(string \<Rightarrow> string + string option \<times> string) \<Rightarrow> (route_update \<Rightarrow> string + string) \<Rightarrow>
     (string \<Rightarrow> string + 'r) \<Rightarrow> ('r list \<Rightarrow> route list) \<Rightarrow> string \<Rightarrow> string list result" where
  "makeRouteAdapter envelope marshal unmarshalFn convertFn t =
     (case extractObjectPayload envelope t of
        Ok (opType, objectPayload) \<Rightarrow> (case unmarshalFn objectPayload of
            Inl m \<Rightarrow> Err (PlainError m)
          | Inr rt \<Rightarrow> marshal_all marshal (map (\<lambda>r. \<lparr>ruType = opType, ruObject = r\<rparr>) (convertFn [rt])))
      | Err e \<Rightarrow> Err e
      | Panic p \<Rightarrow> Panic p)"

definition httpRouteAdapter ::
  "(string \<Rightarrow> string + string option \<times> string) \<Rightarrow> (route_update \<Rightarrow> string + string) \<Rightarrow>
     (string \<Rightarrow> string + http_route) \<Rightarrow> string \<Rightarrow> string list result" where
  "httpRouteAdapter envelope marshal unmarshal = makeRouteAdapter envelope marshal unmarshal convertHTTPRoutes"

definition grpcRouteAdapter ::
  "(string \<Rightarrow> string + string option \<times> string) \<Rightarrow> (route_update \<Rightarrow> string + string) \<Rightarrow>
     (string \<Rightarrow> string + grpc_route) \<Rightarrow> string \<Rightarrow> string list result" where
  "grpcRouteAdapter envelope marshal unmarshal = makeRouteAdapter envelope marshal unmarshal convertGRPCRoutes"

section \<open>The web socket client\<close>

definition generatePath :: "string \<Rightarrow> string \<Rightarrow> string" where
  "generatePath namespace resource = ''/watchapi/v2/paas-mediation/namespaces/'' @ namespace @ ''/'' @ resource"

text \<open>
  What one connection puts on the channel, given the messages read until the first read error, and
  the panic of an adapter, which ends the program.
\<close>

fun ws_frames :: "(string \<Rightarrow> string list result) option \<Rightarrow> string list \<Rightarrow> string list \<times> string option" where
  "ws_frames adapter [] = ([], None)"
| "ws_frames adapter (message # rest) =
     (case adapter of
        None \<Rightarrow> (case ws_frames adapter rest of (ms, p) \<Rightarrow> (message # ms, p))
      | Some adapt \<Rightarrow> (case adapt message of
          Ok messages \<Rightarrow> (case ws_frames adapter rest of (ms, p) \<Rightarrow> (messages @ ms, p))
        | Err err \<Rightarrow> ws_frames adapter rest
        | Panic p \<Rightarrow> ([], Some p)))"

text \<open>
  The loop of \<open>initWebsocketClient\<close> over the attempts to connect, \<open>None\<close> for one that fails; every
  connection starts with the signal to read a snapshot of the resources.
\<close>

fun initWebsocketClient ::
  "(string \<Rightarrow> string list result) option \<Rightarrow> string \<Rightarrow> string list option list \<Rightarrow> string list \<times> string option" where
  "initWebsocketClient adapter initSignal [] = ([], None)"
| "initWebsocketClient adapter initSignal (None # rest) = initWebsocketClient adapter initSignal rest"
| "initWebsocketClient adapter initSignal (Some frames # rest) =
     (case ws_frames adapter frames of
        (ms, Some p) \<Rightarrow> (initSignal # ms, Some p)
      | (ms, None) \<Rightarrow> (case initWebsocketClient adapter initSignal rest of (ms', p) \<Rightarrow> (initSignal # ms @ ms', p)))"

section \<open>Applying the messages\<close>

definition attemptsWs :: nat where "attemptsWs = 10"

text \<open>
  \<open>n\<close> attempts are left. A message that cannot be decoded is skipped; an update that panics costs one
  attempt and a pause; one that does not restores all attempts and gives the time of the last update
  to the goroutine that keeps it (\<open>stamp\<close>). With no message left the loop waits.
\<close>

fun syncingCacheInternal ::
  "nat \<Rightarrow> ('s \<Rightarrow> 's) \<Rightarrow> ('s \<Rightarrow> 's) \<Rightarrow> (string \<Rightarrow> 'u option) \<Rightarrow> ('u \<Rightarrow> ('s, unit) go) \<Rightarrow> string list \<Rightarrow> ('s, unit) go" where
  "syncingCacheInternal 0 pause stamp parse updateCache bus = gpanic ''Used all attempts to read channel''"
| "syncingCacheInternal (Suc n) pause stamp parse updateCache [] = gret ()"
| "syncingCacheInternal (Suc n) pause stamp parse updateCache (message # bus) =
     (case parse message of
        None \<Rightarrow> syncingCacheInternal (Suc n) pause stamp parse updateCache bus
      | Some update \<Rightarrow> (\<lambda>s. case updateCache update s of
          (Panic p, t) \<Rightarrow> syncingCacheInternal n pause stamp parse updateCache bus (pause t)
        | (_, t) \<Rightarrow> syncingCacheInternal attemptsWs pause stamp parse updateCache bus (stamp t)))"

definition syncingCache ::
  "('s \<Rightarrow> 's) \<Rightarrow> ('s \<Rightarrow> 's) \<Rightarrow> (string \<Rightarrow> 'u option) \<Rightarrow> ('u \<Rightarrow> ('s, unit) go) \<Rightarrow> string list \<Rightarrow> ('s, unit) go" where
  "syncingCache pause stamp parse updateCache bus = syncingCacheInternal attemptsWs pause stamp parse updateCache bus"

text \<open>The update of the routes calls the callbacks, whose errors are logged.\<close>

definition with_callbacks :: "('u \<Rightarrow> ('s, unit) go) \<Rightarrow> ('u \<Rightarrow> ('s, unit) go) list \<Rightarrow> 'u \<Rightarrow> ('s, unit) go" where
  "with_callbacks updateCache callbacks update =
     gbind (updateCache update) (\<lambda>_. gfor callbacks (\<lambda>callback. gtry (callback update) (\<lambda>_. gret ())))"

section \<open>When the loop gives up\<close>

text \<open>Ten elements in a row that satisfy \<open>bad\<close>.\<close>

definition has_run :: "nat \<Rightarrow> ('u \<Rightarrow> bool) \<Rightarrow> 'u list \<Rightarrow> bool" where
  "has_run n bad us \<longleftrightarrow> (\<exists>xs ys zs. us = xs @ ys @ zs \<and> length ys = n \<and> list_all bad ys)"

definition decoded_messages :: "(string \<Rightarrow> 'u option) \<Rightarrow> string list \<Rightarrow> 'u list" where
  "decoded_messages parse bus = List.map_filter parse bus"

lemma has_run_Cons:
  "has_run n bad (u # us) \<longleftrightarrow> has_run n bad us \<or> (n \<le> Suc (length us) \<and> list_all bad (take n (u # us)))"
proof
  assume "has_run n bad (u # us)"
  then obtain xs ys zs where x: "u # us = xs @ ys @ zs" "length ys = n" "list_all bad ys"
    by (auto simp: has_run_def)
  show "has_run n bad us \<or> (n \<le> Suc (length us) \<and> list_all bad (take n (u # us)))"
  proof (cases xs)
    case Nil
    with x show ?thesis by (metis append_Nil append_eq_conv_conj length_Cons length_append le_add1)
  next
    case (Cons a as)
    with x show ?thesis by (auto simp: has_run_def)
  qed
next
  assume "has_run n bad us \<or> (n \<le> Suc (length us) \<and> list_all bad (take n (u # us)))"
  then show "has_run n bad (u # us)"
  proof
    assume "has_run n bad us"
    then obtain xs ys zs where "us = xs @ ys @ zs" "length ys = n" "list_all bad ys" by (auto simp: has_run_def)
    then show ?thesis unfolding has_run_def by (intro exI [of _ "u # xs"] exI [of _ ys] exI [of _ zs]) simp
  next
    assume "n \<le> Suc (length us) \<and> list_all bad (take n (u # us))"
    then show ?thesis unfolding has_run_def
      by (intro exI [of _ "[]"] exI [of _ "take n (u # us)"] exI [of _ "drop n (u # us)"]) auto
  qed
qed

text \<open>An update either panics in every state or in none.\<close>

definition panics :: "('u \<Rightarrow> ('s, unit) go) \<Rightarrow> 'u \<Rightarrow> bool" where
  "panics update u \<longleftrightarrow> (\<forall>s. \<exists>p. fst (update u s) = Panic p)"

lemma has_run_take: "n \<le> length us \<Longrightarrow> list_all bad (take n us) \<Longrightarrow> has_run n bad us"
  unfolding has_run_def by (intro exI [of _ "[]"] exI [of _ "take n us"] exI [of _ "drop n us"]) auto

lemma list_all_take_le: "list_all bad (take m us) \<Longrightarrow> n \<le> m \<Longrightarrow> list_all bad (take n us)"
  by (metis append_take_drop_id list_all_append min.absorb1 take_take)

lemma syncing_verdict:
  assumes each: "\<And>u s p. fst (update u s) = Panic p \<Longrightarrow> panics update u"
    and "n \<le> attemptsWs"
  shows "fst (syncingCacheInternal n pause stamp parse update bus s) =
    (if n = 0 \<or> (n \<le> length (decoded_messages parse bus) \<and> list_all (panics update) (take n (decoded_messages parse bus)))
       \<or> has_run attemptsWs (panics update) (decoded_messages parse bus)
     then Panic ''Used all attempts to read channel'' else Ok ())"
  using assms(2)
proof (induction bus arbitrary: n s)
  case Nil
  then show ?case by (cases n)
    (simp_all add: gret_run gpanic_run decoded_messages_def List.map_filter_def has_run_def attemptsWs_def)
next
  case (Cons message bus)
  let ?d = "decoded_messages parse bus" and ?run = "has_run attemptsWs (panics update)"
  show ?case
  proof (cases n)
    case 0
    then show ?thesis by (simp add: gpanic_run)
  next
    case n: (Suc m)
    show ?thesis
    proof (cases "parse message")
      case None
      with Cons.IH [of n s] Cons.prems n show ?thesis by (simp add: decoded_messages_def List.map_filter_simps)
    next
      case (Some u)
      then have d: "decoded_messages parse (message # bus) = u # ?d"
        by (simp add: decoded_messages_def List.map_filter_simps)
      obtain q t where q: "update u s = (q, t)" by (cases "update u s")
      show ?thesis
      proof (cases "panics update u")
        case True
        then obtain p where "q = Panic p" using q by (metis fst_conv panics_def)
        then have "fst (syncingCacheInternal n pause stamp parse update (message # bus) s) =
            fst (syncingCacheInternal m pause stamp parse update bus (pause t))" using n Some q by simp
        also have "\<dots> = (if m = 0 \<or> (m \<le> length ?d \<and> list_all (panics update) (take m ?d)) \<or> ?run ?d
            then Panic ''Used all attempts to read channel'' else Ok ())"
          by (rule Cons.IH) (use Cons.prems n in simp)
        also have "m = 0 \<or> (m \<le> length ?d \<and> list_all (panics update) (take m ?d)) \<or> ?run ?d \<longleftrightarrow>
            n = 0 \<or> (n \<le> length (u # ?d) \<and> list_all (panics update) (take n (u # ?d))) \<or> ?run (u # ?d)"
        proof -
          obtain a where a: "attemptsWs = Suc a" "m \<le> a" using Cons.prems n by (cases attemptsWs) auto
          then show ?thesis using True n a(2) has_run_Cons [of attemptsWs "panics update" u ?d]
            by (auto simp: a(1) intro: list_all_take_le)
        qed
        finally show ?thesis by (simp only: d)
      next
        case False
        then have q': "\<forall>p. q \<noteq> Panic p" using each q by (metis fst_conv)
        then have "fst (syncingCacheInternal n pause stamp parse update (message # bus) s) =
            fst (syncingCacheInternal attemptsWs pause stamp parse update bus (stamp t))"
          using n Some q q' by (cases q) simp_all
        also have "\<dots> = (if ?run ?d then Panic ''Used all attempts to read channel'' else Ok ())"
          using Cons.IH [of attemptsWs "stamp t"] has_run_take [of attemptsWs ?d "panics update"]
          by (auto simp: attemptsWs_def)
        finally show ?thesis
          using False n has_run_Cons [of attemptsWs "panics update" u ?d] by (auto simp: d attemptsWs_def)
      qed
    qed
  qed
qed

text \<open>
  The loop that applies messages to a cache gives up, and the program with it, exactly if ten
  updates in a row panic; messages that cannot be decoded do not count, and an update that does not
  panic starts the count anew.
\<close>

theorem syncing_gives_up:
  assumes "\<And>u s p. fst (update u s) = Panic p \<Longrightarrow> panics update u"
  shows "fst (syncingCache pause stamp parse update bus s) =
    (if has_run 10 (panics update) (decoded_messages parse bus)
     then Panic ''Used all attempts to read channel'' else Ok ())"
proof -
  have "fst (syncingCache pause stamp parse update bus s) =
      (if has_run attemptsWs (panics update) (decoded_messages parse bus)
       then Panic ''Used all attempts to read channel'' else Ok ())"
    unfolding syncingCache_def
    using syncing_verdict [OF assms order_refl] has_run_take [of attemptsWs _ "panics update"]
    by (auto simp: attemptsWs_def)
  then show ?thesis by (simp add: attemptsWs_def)
qed

lemma syncing_gives_up_witness:
  "fst (syncingCache id id (\<lambda>m. Some m) (\<lambda>m. if m = ''bad'' then gpanic m else gret ()) (replicate 10 ''bad'') ()) =
     Panic ''Used all attempts to read channel''"
proof -
  let ?update = "(\<lambda>m. if m = ''bad'' then gpanic m else gret ()) :: string \<Rightarrow> (unit, unit) go"
  have p: "panics ?update u \<longleftrightarrow> u = ''bad''" for u by (simp add: panics_def gpanic_run gret_run)
  have once: "panics ?update u" if "fst (?update u s) = Panic q" for u s q
    using that p by (auto simp: gret_run split: if_splits)
  have d: "decoded_messages (\<lambda>m. Some m) ms = ms" for ms :: "string list"
    by (simp add: decoded_messages_def List.map_filter_def comp_def)
  have r: "has_run 10 (panics ?update) (replicate 10 ''bad'')"
    by (rule has_run_take) (simp_all add: p list_all_iff)
  have "fst (syncingCache id id (\<lambda>m. Some m) ?update (replicate 10 ''bad'') ()) =
      (if has_run 10 (panics ?update) (decoded_messages (\<lambda>m. Some m) (replicate 10 ''bad''))
       then Panic ''Used all attempts to read channel'' else Ok ())"
    by (rule syncing_gives_up) (rule once)
  with r show ?thesis by (simp only: d if_True)
qed

section \<open>Start of the client\<close>

text \<open>\<open>NewClient\<close>; the address is nil if the caller has none.\<close>

definition NewClient :: "'x pm_env \<Rightarrow> string option \<Rightarrow> string \<Rightarrow> bool \<Rightarrow> ('x pm_state, pm_client) go" where
  "NewClient env internalGatewayAddress namespace enableGatewayRoutes = (case internalGatewayAddress of
       None \<Rightarrow> gpanic ''Parameters internalGatewayAddress and idpAddress can not be empty!''
     | Some address \<Rightarrow>
         let c = \<lparr>pcInternalGatewayAddress = address, pcNamespace = namespace, pcEnableGateway = enableGatewayRoutes\<rparr>
         in gbind (initCompositeCache env c) (\<lambda>_. gret c))"

definition AddRouteCallback :: "'cb \<Rightarrow> 'cb list \<Rightarrow> 'cb list" where
  "AddRouteCallback callback callbacks = callbacks @ [callback]"

text \<open>
  The three loops that \<open>StartSyncingCache\<close> starts, each on its own channel; \<open>pause\<close> is the sleep after
  a panic, \<open>stamp\<close> the time of the last update.
\<close>

definition sync_routes ::
  "'x pm_env \<Rightarrow> pm_client \<Rightarrow> (route_update \<Rightarrow> ('x pm_state, unit) go) list \<Rightarrow> ('x pm_state \<Rightarrow> 'x pm_state) \<Rightarrow>
     ('x pm_state \<Rightarrow> 'x pm_state) \<Rightarrow> (string \<Rightarrow> route_update option) \<Rightarrow> string list \<Rightarrow> ('x pm_state, unit) go" where
  "sync_routes env c callbacks pause stamp parse bus =
     syncingCache pause stamp parse (with_callbacks (updateRoutesCache env c) callbacks) bus"

definition sync_services ::
  "'x pm_env \<Rightarrow> pm_client \<Rightarrow> ('x pm_state \<Rightarrow> 'x pm_state) \<Rightarrow> ('x pm_state \<Rightarrow> 'x pm_state) \<Rightarrow>
     (string \<Rightarrow> service_update option) \<Rightarrow> string list \<Rightarrow> ('x pm_state, unit) go" where
  "sync_services env c pause stamp parse bus = syncingCache pause stamp parse (updateServicesCache env c) bus"

definition sync_configmaps ::
  "'x pm_env \<Rightarrow> pm_client \<Rightarrow> ('x pm_state \<Rightarrow> 'x pm_state) \<Rightarrow> ('x pm_state \<Rightarrow> 'x pm_state) \<Rightarrow>
     (string \<Rightarrow> configmap_update option) \<Rightarrow> string list \<Rightarrow> ('x pm_state, unit) go" where
  "sync_configmaps env c pause stamp parse bus = syncingCache pause stamp parse (updateConfigmapsCache env c) bus"

section \<open>Which messages stop the service\<close>

text \<open>\<open>safe P m\<close>: from a state with \<open>P\<close>, \<open>m\<close> does not panic and leaves a state with \<open>P\<close>.\<close>

definition safe :: "('s \<Rightarrow> bool) \<Rightarrow> ('s, 'a) go \<Rightarrow> bool" where
  "safe P m \<longleftrightarrow> (\<forall>s. P s \<longrightarrow> P (snd (m s)) \<and> (\<forall>p. fst (m s) \<noteq> Panic p))"

named_theorems go_safe

lemma safeD: "safe P m \<Longrightarrow> P s \<Longrightarrow> P (snd (m s)) \<and> (\<forall>p. fst (m s) \<noteq> Panic p)"
  by (simp add: safe_def)

lemma safe_gret [go_safe]: "safe P (gret x)" "safe P (gerr e)"
  by (simp_all add: safe_def go_simps)

lemma safe_gmodify: "(\<And>s. P s \<Longrightarrow> P (f s)) \<Longrightarrow> safe P (gmodify f)"
  by (simp add: safe_def go_simps)

lemma safe_gbind [go_safe]: "safe P m \<Longrightarrow> (\<And>x. safe P (f x)) \<Longrightarrow> safe P (gbind m f)"
  unfolding safe_def gbind_def by (fastforce split: prod.splits result.splits)

lemma safe_gtry [go_safe]: "safe P m \<Longrightarrow> (\<And>x. safe P (f x)) \<Longrightarrow> safe P (gtry m f)"
  unfolding safe_def gtry_def by (fastforce split: prod.splits result.splits)

lemma safe_cases [go_safe]:
  "safe P m \<Longrightarrow> safe P m' \<Longrightarrow> safe P (if b then m else m')"
  "(\<And>a. safe P (f a)) \<Longrightarrow> (\<And>x. safe P (g x)) \<Longrightarrow> safe P (case q of Inl a \<Rightarrow> f a | Inr x \<Rightarrow> g x)"
  by (auto split: sum.split)

lemma safe_gfor [go_safe]: "(\<And>x. safe P (body x)) \<Longrightarrow> safe P (gfor xs body)"
  by (induction xs) (auto intro: go_safe)

lemma safe_syncing:
  assumes "\<And>u. safe P (update u)" and "\<And>s. P s \<Longrightarrow> P (stamp s)"
  shows "0 < n \<Longrightarrow> safe P (syncingCacheInternal n pause stamp parse update bus)"
proof (induction bus arbitrary: n)
  case Nil
  then show ?case by (cases n) (auto intro: go_safe)
next
  case (Cons message bus)
  then obtain m where n: "n = Suc m" by (cases n) auto
  show ?case
  proof (cases "parse message")
    case None
    with Cons.IH n show ?thesis by simp
  next
    case (Some u)
    show ?thesis unfolding safe_def
    proof (intro allI impI)
      fix s assume s: "P s"
      obtain q t where q: "update u s = (q, t)" by fastforce
      with safeD [OF assms(1) s, of u] have t: "P t" "\<forall>p. q \<noteq> Panic p" by auto
      have IH: "safe P (syncingCacheInternal attemptsWs pause stamp parse update bus)"
        by (rule Cons.IH) (simp add: attemptsWs_def)
      show "P (snd (syncingCacheInternal n pause stamp parse update (message # bus) s)) \<and>
          (\<forall>p. fst (syncingCacheInternal n pause stamp parse update (message # bus) s) \<noteq> Panic p)"
        using safeD [OF IH assms(2) [OF t(1)]] t(2) n Some q by (cases q) simp_all
    qed
  qed
qed

lemma safe_from_sum [go_safe]: "safe P (from_sum r)"
  unfolding from_sum_def by (intro go_safe)

text \<open>
  A retried request is safe for a condition on the caches that survives the pauses, as long as the
  executor does not panic.
\<close>

lemma safe_retry:
  assumes "\<And>x p. fst (peDo env url verb body x) \<noteq> Panic p"
    and idle: "\<And>s. P s \<Longrightarrow> P (peIdle env s)" and rest: "\<And>s x. P s \<Longrightarrow> P (s\<lparr>psRest := x\<rparr>)"
  shows "safe P (performRequestWithRetry env url verb body code dec target)"
proof -
  have "safe P (on_rest (peDo env url verb body))"
    by (simp add: safe_def on_rest_def gzoom_fst gzoom_snd assms(1) rest)
  then have one: "safe P (performRequest env url verb body code dec target)"
    unfolding performRequest_def by (intro go_safe)
  have "safe P (retry_loop n env (performRequest env url verb body code dec target) target)" for n
    by (induction n) (auto intro!: go_safe one safe_gmodify idle)
  then show ?thesis by (simp add: performRequestWithRetry_def)
qed

text \<open>The caches of routes and of services exist.\<close>

definition allocated_caches :: "'x pm_state \<Rightarrow> bool" where
  "allocated_caches s \<longleftrightarrow> psRoutes s \<noteq> NilMap \<and> psServices s \<noteq> NilMap"

locale pm_calm =
  fixes env :: "'x pm_env"
  assumes do_calm: "fst (peDo env url verb body x) \<noteq> Panic p"
    and idle_calm: "allocated_caches s \<Longrightarrow> allocated_caches (peIdle env s)"
begin

lemma safe_request [go_safe]:
  "safe allocated_caches (performRequestWithRetry env url verb body code dec target)"
proof (rule safe_retry)
  show "allocated_caches s \<Longrightarrow> allocated_caches (peIdle env s)" for s by (rule idle_calm)
qed (simp_all add: do_calm allocated_caches_def)

lemma set_namespace_safe:
  "c \<noteq> NilMap \<Longrightarrow> \<exists>c'. set_namespace namespace m c = (Ok (), c') \<and> c' \<noteq> NilMap"
  by (cases c) (auto simp: set_namespace_def)

lemma safe_fill [go_safe]:
  "safe allocated_caches (on_routes (set_namespace namespace m))"
  "safe allocated_caches (on_services (set_namespace namespace m'))"
  using set_namespace_safe [of _ namespace m] set_namespace_safe [of _ namespace m']
  by (fastforce simp: safe_def on_routes_def on_services_def gzoom_run allocated_caches_def split: prod.split)+

lemma cache_event_safe:
  assumes "c \<noteq> NilMap" and "updateRoutesCache_event u c = (r, c')"
  shows "c' \<noteq> NilMap \<and> (\<forall>p. r \<noteq> Panic p)"
  using assms by (auto simp: updateRoutesCache_event_def Let_def cache_put_def cache_delete_def
      split: option.splits gomap.splits if_splits)

lemma cache_event_safe':
  assumes "c \<noteq> NilMap" and "updateServicesCache_event u c = (r, c')"
  shows "c' \<noteq> NilMap \<and> (\<forall>p. r \<noteq> Panic p)"
  using assms by (auto simp: updateServicesCache_event_def Let_def cache_put_def cache_delete_def
      split: option.splits gomap.splits if_splits)

lemma safe_updateRoutes: "safe allocated_caches (updateRoutesCache env c u)"
proof -
  have i: "safe allocated_caches (initRoutesMapInCache env c namespace)" for namespace
    unfolding initRoutesMapInCache_def getRoutesWithoutCache_def by (intro go_safe)
  have "safe allocated_caches (on_routes (updateRoutesCache_event u) :: ('x pm_state, unit) go)"
    using cache_event_safe [of _ u]
    by (fastforce simp: safe_def on_routes_def gzoom_run allocated_caches_def split: prod.split)
  with i show ?thesis by (simp add: safe_def updateRoutesCache_def)
qed

lemma safe_updateServices: "safe allocated_caches (updateServicesCache env c u)"
proof -
  have i: "safe allocated_caches (InitServicesMapInCache env c namespace)" for namespace
    unfolding InitServicesMapInCache_def getServicesWithoutCache_def by (intro go_safe)
  have "safe allocated_caches (on_services (updateServicesCache_event u) :: ('x pm_state, unit) go)"
    using cache_event_safe' [of _ u]
    by (fastforce simp: safe_def on_services_def gzoom_run allocated_caches_def split: prod.split)
  with i show ?thesis by (simp add: safe_def updateServicesCache_def)
qed

end

interpretation down: pm_calm env_down
  by unfold_locales (simp_all add: env_down_def)

text \<open>
  C18: No message stops the loops of routes and of services, however many are malformed or name unknown
  namespaces, as long as neither the HTTP executor nor a callback panics.
\<close>

theorem caches_survive:
  assumes "pm_calm env" and "allocated_caches s" and "\<And>s. allocated_caches s \<Longrightarrow> allocated_caches (stamp s)"
    and "\<And>callback u. callback \<in> set callbacks \<Longrightarrow> safe allocated_caches (callback u)"
  shows "\<not> (\<exists>p. fst (sync_routes env c callbacks pause stamp parse bus s) = Panic p) \<and>
    \<not> (\<exists>p. fst (sync_services env c pause stamp parse' bus' s) = Panic p)"
proof -
  have callbacks: "safe allocated_caches (gfor cs (\<lambda>callback. gtry (callback u) (\<lambda>_. gret ())))"
    if "set cs \<subseteq> set callbacks" for cs u
    using that by (induction cs) (simp_all add: safe_gbind safe_gtry safe_gret assms(4))
  have "safe allocated_caches (with_callbacks (updateRoutesCache env c) callbacks u)" for u
    unfolding with_callbacks_def by (intro go_safe pm_calm.safe_updateRoutes [OF assms(1)] callbacks) auto
  from safe_syncing [where update = "with_callbacks (updateRoutesCache env c) callbacks", OF this assms(3)]
    safe_syncing [where update = "updateServicesCache env c", OF pm_calm.safe_updateServices [OF assms(1)] assms(3)]
    assms(2)
  show ?thesis
    by (simp add: sync_routes_def sync_services_def syncingCache_def safe_def attemptsWs_def)
qed

definition allocated_state :: "unit pm_state" where
  "allocated_state = \<lparr>psRoutes = mempty, psServices = mempty, psConfigmaps = mempty, psRest = ()\<rparr>"

lemma caches_survive_witness:
  "\<not> (\<exists>p. fst (sync_routes env_down sample_client [\<lambda>u. gerr (PlainError ''callback'')] id id
     (\<lambda>m. Some (sample_event m [])) (replicate 12 updateTypeInit) allocated_state) = Panic p)"
  using caches_survive [OF down.pm_calm_axioms, of allocated_state id "[\<lambda>u. gerr (PlainError ''callback'')]"]
  by (simp add: allocated_state_def allocated_caches_def mempty_def safe_def gerr_run)

text \<open>
  C17: Ten messages about config maps of a namespace the cache does not know stop the service: the
  handler dereferences a nil pointer each time, and the loop uses up its attempts.
\<close>

theorem unknown_config_maps_stop:
  assumes "psConfigmaps s \<noteq> NilMap" and "10 \<le> length bus"
    and "\<And>message. message \<in> set bus \<Longrightarrow> \<exists>u. parse message = Some u \<and> cuType u \<noteq> updateTypeInit \<and>
      mlookup (psConfigmaps s) (cmNamespace (cfMetadata (cuObject u))) = None"
    and "\<And>s. psConfigmaps (pause s) = psConfigmaps s"
  shows "\<exists>p. fst (sync_configmaps env c pause stamp parse bus s) = Panic p"
proof -
  have "n \<le> length bus' \<Longrightarrow> set bus' \<subseteq> set bus \<Longrightarrow> psConfigmaps t = psConfigmaps s \<Longrightarrow>
      fst (syncingCacheInternal n pause stamp parse (updateConfigmapsCache env c) bus' t) =
        Panic ''Used all attempts to read channel''" for n bus' t
  proof (induction n arbitrary: bus' t)
    case (Suc n)
    then obtain message rest where bus': "bus' = message # rest" by (cases bus') auto
    with Suc.prems(2) assms(3) obtain u where u: "parse message = Some u" "cuType u \<noteq> updateTypeInit"
      "mlookup (psConfigmaps s) (cmNamespace (cfMetadata (cuObject u))) = None" by fastforce
    obtain p where "updateConfigmapsCache env c u t = (Panic p, t)"
      using u(2,3) Suc.prems(3) assms(1)
      by (simp add: updateConfigmapsCache_def on_configmaps_def gzoom_run updateConfigmapsCache_event_def)
    moreover have "fst (syncingCacheInternal n pause stamp parse (updateConfigmapsCache env c) rest (pause t)) =
        Panic ''Used all attempts to read channel''"
      by (rule Suc.IH) (use Suc.prems bus' assms(4) in auto)
    ultimately show ?case using bus' u(1) by simp
  qed (simp add: gpanic_run)
  from this [of attemptsWs bus s] assms(2) show ?thesis
    by (simp add: sync_configmaps_def syncingCache_def attemptsWs_def)
qed

lemma unknown_config_maps_stop_witness:
  "\<exists>p. fst (sync_configmaps env_down sample_client id id (\<lambda>m. Some (sample_configmap m))
     (replicate 10 ''other'') allocated_state) = Panic p"
  by (rule unknown_config_maps_stop)
    (auto simp: allocated_state_def mempty_def sample_configmap_def updateTypeModified_def updateTypeInit_def)

section \<open>The routes cache follows the events\<close>

lemma gfor_append: "gfor (xs @ ys) body s = gbind (gfor xs body) (\<lambda>_. gfor ys body) s"
  by (induction xs arbitrary: s) (simp_all add: go_simps split: prod.split result.split)

text \<open>
  The HTTP executor does not panic, and no other goroutine writes to the routes cache while a failed
  read of the server waits for its next attempt.
\<close>

definition quiet :: "'x pm_env \<Rightarrow> bool" where
  "quiet env \<longleftrightarrow> (\<forall>url verb body x p. fst (peDo env url verb body x) \<noteq> Panic p) \<and>
     (\<forall>s. psRoutes (peIdle env s) = psRoutes s)"

lemma list_routes_quiet:
  assumes "quiet env"
  obtains (listed) routes t where "getRoutesWithoutCache env c namespace s = (Ok routes, t)"
      "psRoutes t = psRoutes s"
  | (failed) e t where "getRoutesWithoutCache env c namespace s = (Err e, t)" "psRoutes t = psRoutes s"
proof -
  have "safe (\<lambda>t. psRoutes t = psRoutes s) (getRoutesWithoutCache env c namespace)"
    unfolding getRoutesWithoutCache_def using assms
    by (intro go_safe safe_retry) (auto simp: quiet_def)
  from safeD [OF this, of s] that show thesis
    by (cases "getRoutesWithoutCache env c namespace s"; cases "fst (getRoutesWithoutCache env c namespace s)")
      auto
qed

text \<open>An INIT event replaces the content of its namespace by what the server lists, if it answers.\<close>

lemma init_routes_quiet:
  assumes "quiet env" and "known (psRoutes s) n"
  obtains t where "initRoutesMapInCache env c namespace s = (Ok (), t)" and "known (psRoutes t) n"
    and "\<And>k. n \<noteq> namespace \<Longrightarrow> cached (psRoutes t) n k = cached (psRoutes s) n k"
    and "\<And>routes u k. getRoutesWithoutCache env c namespace s = (Ok routes, u) \<Longrightarrow>
      cached (psRoutes t) namespace k = map_of (rev (map (\<lambda>r. (CacheKey r, r)) routes)) k"
proof -
  consider (listed) routes u where "getRoutesWithoutCache env c namespace s = (Ok routes, u)"
      "psRoutes u = psRoutes s"
    | (failed) e u where "getRoutesWithoutCache env c namespace s = (Err e, u)" "psRoutes u = psRoutes s"
    using list_routes_quiet [OF assms(1), of c namespace s] by blast
  then show ?thesis
  proof cases
  case listed
  from assms(2) listed(2) have "psRoutes u \<noteq> NilMap" by (auto simp: known_not_nil)
  let ?m = "GoMap (AList.update namespace (keyed CacheKey routes) (ments (psRoutes u)))"
  have run: "initRoutesMapInCache env c namespace s = (Ok (), u\<lparr>psRoutes := ?m\<rparr>)"
    using \<open>psRoutes u \<noteq> NilMap\<close>
    by (simp add: initRoutesMapInCache_def gtry_run listed(1) on_routes_def gzoom_run set_namespace_run)
  have look: "mlookup ?m n' = (if n' = namespace then Some (keyed CacheKey routes) else mlookup (psRoutes s) n')"
    for n' using listed(2) by (cases "psRoutes u") (simp_all add: update_conv')
  show ?thesis
  proof (rule that [OF run])
    show "known (psRoutes (u\<lparr>psRoutes := ?m\<rparr>)) n"
      using assms(2) look [of n] by (simp add: known_def keyed_def)
    show "n \<noteq> namespace \<Longrightarrow> cached (psRoutes (u\<lparr>psRoutes := ?m\<rparr>)) n k = cached (psRoutes s) n k" for k
      using look [of n] by (simp add: cached_def)
    show "getRoutesWithoutCache env c namespace s = (Ok routes', u') \<Longrightarrow>
        cached (psRoutes (u\<lparr>psRoutes := ?m\<rparr>)) namespace k =
          map_of (rev (map (\<lambda>r. (CacheKey r, r)) routes')) k" for routes' u' k
      using look [of namespace] listed(1) by (simp add: cached_def cached_keyed)
  qed
  next
  case failed
  then have "initRoutesMapInCache env c namespace s = (Ok (), u)"
    by (simp add: initRoutesMapInCache_def gtry_run gret_run)
  then show ?thesis by (rule that) (use assms(2) failed in simp_all)
  qed
qed

text \<open>The other events: the contract of the cache, and nothing for a namespace it does not know.\<close>

lemma unknown_routes_event:
  "\<not> known c (mNamespace (rtMetadata (ruObject u))) \<Longrightarrow> updateRoutesCache_event u c = (Ok (), c)"
  by (auto simp: updateRoutesCache_event_def known_def Let_def split: option.split gomap.split)

definition about :: "string \<Rightarrow> string \<Rightarrow> route_update \<Rightarrow> bool" where
  "about namespace key u \<longleftrightarrow> mNamespace (rtMetadata (ruObject u)) = namespace \<and>
     (ruType u = updateTypeInit \<or> CacheKey (ruObject u) = key)"

lemma routes_update_quiet:
  assumes "quiet env" and "known (psRoutes s) n"
  obtains t where "updateRoutesCache env c u s = (Ok (), t)" and "known (psRoutes t) n"
    and "\<not> about n k u \<Longrightarrow> cached (psRoutes t) n k = cached (psRoutes s) n k"
    and "about n k u \<Longrightarrow> ruType u \<noteq> updateTypeInit \<Longrightarrow>
      cached (psRoutes t) n k = event_effect (ruType u) (ruObject u) (cached (psRoutes s) n k)"
proof (cases "ruType u = updateTypeInit")
  case True
  let ?ns = "mNamespace (rtMetadata (ruObject u))"
  from init_routes_quiet [OF assms, of c ?ns] obtain t where
    "initRoutesMapInCache env c ?ns s = (Ok (), t)" "known (psRoutes t) n"
    "\<And>k. n \<noteq> ?ns \<Longrightarrow> cached (psRoutes t) n k = cached (psRoutes s) n k" by metis
  with True known_not_nil [OF assms(2)] that [of t] show ?thesis
    by (auto simp: updateRoutesCache_def about_def)
next
  case False
  let ?c = "psRoutes s" and ?ns = "mNamespace (rtMetadata (ruObject u))"
  obtain r c' where c': "updateRoutesCache_event u ?c = (r, c')" by fastforce
  have run: "updateRoutesCache env c u s = (r, s\<lparr>psRoutes := c'\<rparr>)"
    using False c' by (simp add: updateRoutesCache_def on_routes_def gzoom_run)
  show ?thesis
  proof (cases "known ?c ?ns")
    case True
    from routes.step_ok [OF True] c' have "r = Ok ()" by simp
    with run show ?thesis
      using routes.step_known [OF True, of n] routes.step_cached [OF True, of n k] assms(2) False
      by (intro that [of "s\<lparr>psRoutes := c'\<rparr>"]) (auto simp: about_def c' split: if_splits)
  next
    case unknown: False
    then have "?ns \<noteq> n" using assms(2) by auto
    with that [of "s\<lparr>psRoutes := c'\<rparr>"] run c' unknown_routes_event [OF unknown] assms(2) show ?thesis
      by (auto simp: about_def)
  qed
qed

lemma routes_updates_quiet:
  assumes "quiet env" and "known (psRoutes s) n"
  shows "\<exists>t. gfor us (updateRoutesCache env c) s = (Ok (), t) \<and> known (psRoutes t) n \<and>
    ((\<forall>u\<in>set us. \<not> about n k u) \<longrightarrow> cached (psRoutes t) n k = cached (psRoutes s) n k)"
  using assms(2)
proof (induction us arbitrary: s)
  case (Cons u us)
  from routes_update_quiet [OF assms(1) Cons.prems, where k = k] obtain t where
    t: "updateRoutesCache env c u s = (Ok (), t)" "known (psRoutes t) n"
      "\<not> about n k u \<Longrightarrow> cached (psRoutes t) n k = cached (psRoutes s) n k" by metis
  from Cons.IH [OF t(2)] t show ?case by (auto simp: gbind_run)
qed (simp add: gret_run)

text \<open>
  C16: Whatever events the loop of the routes hands to the cache, INIT events and events for other and
  for unknown namespaces included, none fails, and the content of a known namespace under a key is
  what the last event about it said. For a CREATED, ADDED or MODIFIED event of the key that is the
  route of the event, for a DELETED event nothing, and for an INIT event of the namespace the last
  route with this key that the server listed when the event was handled, as long as later events
  are neither for this key nor INIT events of this namespace. The executor must not panic, and
  no other goroutine may write to the routes cache while a failed read waits for its next attempt.
\<close>

theorem routes_cache_last_event:
  assumes "quiet env" and "known (psRoutes s) n"
    and "mNamespace (rtMetadata (ruObject w)) = n"
    and "\<forall>v\<in>set vs. mNamespace (rtMetadata (ruObject v)) = n \<longrightarrow>
      ruType v \<noteq> updateTypeInit \<and> CacheKey (ruObject v) \<noteq> key"
  shows "\<exists>s1 s2 t. gfor us (updateRoutesCache env c) s = (Ok (), s1) \<and>
    updateRoutesCache env c w s1 = (Ok (), s2) \<and>
    gfor (us @ w # vs) (updateRoutesCache env c) s = (Ok (), t) \<and> known (psRoutes t) n \<and>
    (stores (ruType w) \<and> CacheKey (ruObject w) = key \<longrightarrow>
       cached (psRoutes t) n key = Some (ruObject w)) \<and>
    (ruType w = updateTypeDeleted \<and> CacheKey (ruObject w) = key \<longrightarrow> cached (psRoutes t) n key = None) \<and>
    (\<forall>routes u. ruType w = updateTypeInit \<and> getRoutesWithoutCache env c n s1 = (Ok routes, u) \<longrightarrow>
       cached (psRoutes t) n key = map_of (rev (map (\<lambda>r. (CacheKey r, r)) routes)) key)"
proof -
  from routes_updates_quiet [OF assms(1,2)] obtain s1 where
    s1: "gfor us (updateRoutesCache env c) s = (Ok (), s1)" "known (psRoutes s1) n" by blast
  from routes_update_quiet [OF assms(1) s1(2), of c w key] obtain s2 where
    s2: "updateRoutesCache env c w s1 = (Ok (), s2)" "known (psRoutes s2) n"
    and last: "about n key w \<Longrightarrow> ruType w \<noteq> updateTypeInit \<Longrightarrow>
      cached (psRoutes s2) n key = event_effect (ruType w) (ruObject w) (cached (psRoutes s1) n key)"
    by metis
  from assms(4) have other: "\<forall>v\<in>set vs. \<not> about n key v" by (auto simp: about_def)
  with routes_updates_quiet [OF assms(1) s2(2), of vs c key] obtain t where
    t: "gfor vs (updateRoutesCache env c) s2 = (Ok (), t)" "known (psRoutes t) n"
      "cached (psRoutes t) n key = cached (psRoutes s2) n key" by blast
  have whole: "gfor (us @ w # vs) (updateRoutesCache env c) s = (Ok (), t)"
    by (simp add: gfor_append s1(1) s2(1) t(1) gbind_run)
  have init: "cached (psRoutes s2) n key = map_of (rev (map (\<lambda>r. (CacheKey r, r)) routes)) key"
    if "ruType w = updateTypeInit" "getRoutesWithoutCache env c n s1 = (Ok routes, u)" for routes u
    using init_routes_quiet [OF assms(1) s1(2), of c n] that s2(1) known_not_nil [OF s1(2)]
    by (fastforce simp: updateRoutesCache_def assms(3))
  have no_init: "updateTypeDeleted \<noteq> updateTypeInit" "\<not> stores updateTypeInit" "\<not> stores updateTypeDeleted"
    by (simp_all add: update_type_defs stores_def)
  have store: "cached (psRoutes s2) n key = Some (ruObject w)"
    if "stores (ruType w)" "CacheKey (ruObject w) = key"
  proof -
    from that(1) no_init(2) have "ruType w \<noteq> updateTypeInit" by auto
    with last that assms(3) show ?thesis by (auto simp: about_def event_effect_def)
  qed
  have delete: "cached (psRoutes s2) n key = None"
    if "ruType w = updateTypeDeleted" "CacheKey (ruObject w) = key"
    using last that no_init assms(3) by (auto simp: about_def event_effect_def)
  show ?thesis
    by (intro exI [of _ s1] exI [of _ s2] exI [of _ t])
      (use s1(1) s2(1) whole t(2,3) store delete init in \<open>simp del: gfor.simps\<close>)
qed

text \<open>A server that lists one route, and a sample run with an INIT event among the others.\<close>

definition env_listing :: "unit pm_env" where
  "env_listing = (env_status 200)\<lparr>peRoutes := \<lambda>b. Decoded [ruObject (sample_event [] ''b.com'')]\<rparr>"

lemma routes_cache_last_event_witness:
  "cached (psRoutes (snd (gfor [sample_event updateTypeDeleted ''a.com'', sample_event updateTypeInit ''c.com'']
     (updateRoutesCache env_listing sample_client) sample_state))) ''ns'' ''Route/r'' =
       Some (ruObject (sample_event [] ''b.com'')) \<and>
   cached (psRoutes (snd (gfor [sample_event updateTypeInit ''c.com'', sample_event updateTypeDeleted ''a.com'']
     (updateRoutesCache env_listing sample_client) sample_state))) ''ns'' ''Route/r'' = None"
proof -
  let ?d = "sample_event updateTypeDeleted ''a.com''" and ?i = "sample_event updateTypeInit ''c.com''"
  have q: "quiet env_listing"
    by (simp add: quiet_def env_listing_def env_status_def env_down_def gret_run)
  have k: "known (psRoutes sample_state) ''ns''" by (simp add: known_def sample_state_def)
  have n: "mNamespace (rtMetadata (ruObject (sample_event ty host))) = ''ns''"
    "CacheKey (ruObject (sample_event ty host)) = ''Route/r''"
    "ruType (sample_event ty host) = ty" for ty host
    by (simp_all add: sample_event_def CacheKey_def RouteKindNative_def zero_metadata_def)
  have listed: "\<exists>u. getRoutesWithoutCache env_listing sample_client ''ns'' s =
      (Ok [ruObject (sample_event [] ''b.com'')], u)" for s
    by (simp add: getRoutesWithoutCache_def buildUrl_def routesString_def from_sum_def sample_client_def
        performRequestWithRetry_def attempts_def numeral_eq_Suc performRequest_def env_listing_def
        env_status_def on_rest_def gzoom_run decodeResponseBody_def go_simps)
  let ?run = "\<lambda>us. gfor us (updateRoutesCache env_listing sample_client) sample_state"
  have types: "updateTypeInit \<noteq> updateTypeDeleted" "updateTypeDeleted \<noteq> updateTypeInit"
    by (simp_all add: update_type_defs)
  have nil: "\<forall>v\<in>set ([] :: route_update list). P v" for P by simp
  from routes_cache_last_event [OF q k n(1) [of updateTypeInit "''c.com''"] nil,
      where us = "[?d]" and key = "''Route/r''" and c = sample_client]
  obtain s1 t where "?run [?d] = (Ok (), s1)" and i: "?run ([?d] @ ?i # []) = (Ok (), t)" "\<And>routes u.
      getRoutesWithoutCache env_listing sample_client ''ns'' s1 = (Ok routes, u) \<Longrightarrow>
      cached (psRoutes t) ''ns'' ''Route/r'' = map_of (rev (map (\<lambda>r. (CacheKey r, r)) routes)) ''Route/r''"
    unfolding n by (elim exE conjE) (rule that, assumption, assumption, blast)
  from listed [of s1] obtain u where "getRoutesWithoutCache env_listing sample_client ''ns'' s1 =
      (Ok [ruObject (sample_event [] ''b.com'')], u)" by blast
  from i(2) [OF this] have a: "cached (psRoutes t) ''ns'' ''Route/r'' =
      Some (ruObject (sample_event [] ''b.com''))" by (simp add: n)
  from routes_cache_last_event [OF q k n(1) [of updateTypeDeleted "''a.com''"] nil,
      where us = "[?i]" and key = "''Route/r''" and c = sample_client]
  obtain t' where d: "?run ([?i] @ ?d # []) = (Ok (), t')"
      "cached (psRoutes t') ''ns'' ''Route/r'' = None"
    unfolding n by (elim exE conjE) (rule that, assumption, simp del: gfor.simps)
  from a i(1) d show ?thesis by (simp del: gfor.simps)
qed

end
