(* ===== verification/Migration.thy ===== *)
theory Migration
  imports GoLib
begin

text \<open>
  \<open>migration/*.go\<close>: the three evolutions of the database as updates of tables (what their SQL
  statements do), their registry, and the run at the start of the service: the evolutions an older
  tool has applied are marked, a lock is held in an open transaction, the rest is applied. The library
  that runs evolutions and its connection are the parameter \<open>migrator\<close>.
\<close>

section \<open>The evolutions\<close>

text \<open>
  A row of \<open>tenant_dns\<close>: the columns the second evolution reads and writes, \<open>None\<close> for SQL NULL; the
  sites are an object of objects, in the order in which the database lists their keys.
\<close>

record sql_row =
  srTenantId :: string
  srSites :: "(string \<times> (string \<times> string list) list) list option"
  srServiceName :: "string option"
  srTenantName :: "string option"

record sql_db =
  sdTables :: "(string \<times> string list) list"
  sdTenants :: "sql_row list"

definition create_table :: "string \<Rightarrow> string list \<Rightarrow> (sql_db, unit) go" where
  "create_table name columns = gmodify (\<lambda>db.
     if map_of (sdTables db) name = None then db\<lparr>sdTables := sdTables db @ [(name, columns)]\<rparr> else db)"

definition add_column :: "string \<Rightarrow> string \<Rightarrow> (sql_db, unit) go" where
  "add_column name column = (\<lambda>db. case map_of (sdTables db) name of
       None \<Rightarrow> (Err (PlainError (''relation does not exist: '' @ name)), db)
     | Some columns \<Rightarrow> (Ok (), db\<lparr>sdTables := AList.update name
         (if column \<in> set columns then columns else columns @ [column]) (sdTables db)\<rparr>))"

text \<open>\<open>RunInTx\<close>: the transaction is rolled back unless the function returns without an error.\<close>

definition run_in_tx :: "('s, unit) go \<Rightarrow> ('s, unit) go" where
  "run_in_tx m = (\<lambda>s. case m s of (Ok x, t) \<Rightarrow> (Ok x, t) | (Err e, t) \<Rightarrow> (Err e, s) | (Panic p, t) \<Rightarrow> (Panic p, s))"

definition evolution_init :: "(sql_db, unit) go" where
  "evolution_init = run_in_tx (
     gbind (create_table ''tenant_dns'' [''tenant_id'', ''tenant_admin'', ''sites'', ''active'', ''namespaces'',
       ''domain_name'', ''service_name'', ''tenant_name'', ''removed'']) (\<lambda>_.
     create_table ''inits'' [''initialized'']))"

text \<open>The regular expression \<open>^(tenant\-)([0-9a-zA-Z]+$)\<close>, and the match of \<open>[^-]+$\<close>.\<close>

definition alphanumeric :: "char \<Rightarrow> bool" where
  "alphanumeric c \<longleftrightarrow> CHR ''0'' \<le> c \<and> c \<le> CHR ''9'' \<or> CHR ''a'' \<le> c \<and> c \<le> CHR ''z'' \<or>
     CHR ''A'' \<le> c \<and> c \<le> CHR ''Z''"

definition tenant_key :: "string \<Rightarrow> bool" where
  "tenant_key key \<longleftrightarrow> take 7 key = ''tenant-'' \<and> drop 7 key \<noteq> [] \<and> list_all alphanumeric (drop 7 key)"

definition last_part :: "string \<Rightarrow> string" where
  "last_part key = rev (takeWhile (\<lambda>c. c \<noteq> CHR ''-'') (rev key))"

text \<open>The services of all sites of a row whose name is that of a tenant; a row without sites has none.\<close>

definition tenant_keys :: "sql_row \<Rightarrow> string list" where
  "tenant_keys row = (case srSites row of None \<Rightarrow> []
     | Some sites \<Rightarrow> concat (map (\<lambda>(site, services). filter tenant_key (map fst services)) sites))"

text \<open>A subquery that stands for a value: NULL without a row, an error with more than one.\<close>

definition scalar :: "'a list \<Rightarrow> go_error + 'a option" where
  "scalar rows = (case rows of [] \<Rightarrow> Inr None | [x] \<Rightarrow> Inr (Some x)
     | _ \<Rightarrow> Inl (PlainError ''more than one row returned by a subquery used as an expression''))"

definition coalesce :: "'a option \<Rightarrow> 'a \<Rightarrow> 'a" where
  "coalesce v otherwise = (case v of Some x \<Rightarrow> x | None \<Rightarrow> otherwise)"

definition update_servicename_row :: "sql_row \<Rightarrow> go_error + sql_row" where
  "update_servicename_row row =
     (if srTenantName row = None then
       (case scalar (tenant_keys row) of
          Inl e \<Rightarrow> Inl e
        | Inr key \<Rightarrow> (case scalar (filter (\<lambda>part. part \<noteq> []) (map last_part (tenant_keys row))) of
            Inl e \<Rightarrow> Inl e
          | Inr part \<Rightarrow> Inr (row\<lparr>srServiceName := Some (coalesce key ''tenant-dev''),
              srTenantName := Some (coalesce part ''dev'')\<rparr>)))
      else Inr row)"

fun update_rows :: "sql_row list \<Rightarrow> go_error + sql_row list" where
  "update_rows [] = Inr []"
| "update_rows (row # rows) = (case update_servicename_row row of
     Inl e \<Rightarrow> Inl e
   | Inr row' \<Rightarrow> (case update_rows rows of Inl e \<Rightarrow> Inl e | Inr rows' \<Rightarrow> Inr (row' # rows')))"

definition evolution_servicename :: "(sql_db, unit) go" where
  "evolution_servicename = run_in_tx (\<lambda>db.
     if map_of (sdTables db) ''tenant_dns'' = None
     then (Err (PlainError ''relation does not exist: tenant_dns''), db)
     else case update_rows (sdTenants db) of
       Inl e \<Rightarrow> (Err e, db)
     | Inr rows \<Rightarrow> (Ok (), db\<lparr>sdTenants := rows\<rparr>))"

definition evolution_workbook :: "(sql_db, unit) go" where
  "evolution_workbook = run_in_tx (add_column ''tenant_dns'' ''workbook'')"

text \<open>What the three \<open>init\<close> functions register, by the names of their files.\<close>

type_synonym 'x evolutions = "(string \<times> ('x, unit) go) list"

definition evolutions :: "sql_db evolutions" where
  "evolutions = [(''00000000000001'', evolution_init), (''00000000000002'', evolution_servicename),
     (''00000000000003'', evolution_workbook)]"

section \<open>The run\<close>

text \<open>
  \<open>mgSchemas\<close> counts the rows of the table of the older tool; the error of \<open>mgApplied\<close> is ignored, the
  names it gives with one are not; \<open>mgMigrate\<close> tells whether there was nothing to apply.
\<close>

record 'x migrator =
  mgInit :: "('x, unit) go"
  mgSchemas :: "('x, nat) go"
  mgApplied :: "'x \<Rightarrow> string list \<times> 'x"
  mgMarkApplied :: "string \<Rightarrow> ('x, unit) go"
  mgConn :: "('x, unit) go"
  mgCloseConn :: "('x, unit) go"
  mgBeginTx :: "('x, unit) go"
  mgRollback :: "('x, unit) go"
  mgLock :: "('x, unit) go"
  mgMigrate :: "string list \<Rightarrow> ('x, bool) go"

definition relationDoesNotExist :: "go_error \<Rightarrow> bool" where
  "relationDoesNotExist err = True"

definition contains_migration :: "string list \<Rightarrow> string \<Rightarrow> bool" where
  "contains_migration applied migration \<longleftrightarrow> list_ex (\<lambda>candidate. migration = candidate) applied"

text \<open>\<open>sorted[i]\<close> panics behind the end; \<open>applied\<close> is read once, before the loop.\<close>

definition markExistingMigrationsAsApplied :: "'x migrator \<Rightarrow> string list \<Rightarrow> nat \<Rightarrow> ('x, unit) go" where
  "markExistingMigrationsAsApplied env sorted_migrations migrationsAmount = (\<lambda>x. case mgApplied env x of
     (applied, x') \<Rightarrow> gfor [0..<migrationsAmount] (\<lambda>i.
       if i < length sorted_migrations then
         if \<not> contains_migration applied (sorted_migrations ! i)
         then mgMarkApplied env (sorted_migrations ! i) else gret ()
       else gpanic ''index out of range'') x')"

definition checkExistingMigrations :: "'x migrator \<Rightarrow> string list \<Rightarrow> ('x, unit) go" where
  "checkExistingMigrations env sorted_migrations = gtry (mgSchemas env) (\<lambda>r. case r of
       Inl err \<Rightarrow> if relationDoesNotExist err then gret () else gerr err
     | Inr migrationsAmount \<Rightarrow> markExistingMigrationsAsApplied env sorted_migrations migrationsAmount)"

text \<open>\<open>errors.WrapPrefix\<close>\<close>

definition prefixed :: "string \<Rightarrow> ('s, 'a) go \<Rightarrow> ('s, 'a) go" where
  "prefixed msg m = gtry m (\<lambda>r. case r of
     Inl err \<Rightarrow> gerr (PlainError (msg @ '': '' @ err_message err)) | Inr x \<Rightarrow> gret x)"

text \<open>The registered evolutions, or the ones of a test; \<open>names\<close> are the sorted names.\<close>

definition runMigration :: "'x migrator \<Rightarrow> string list \<Rightarrow> string list option \<Rightarrow> ('x, unit) go" where
  "runMigration env registered extraMigrations =
     (let names = (case extraMigrations of Some extra \<Rightarrow> extra | None \<Rightarrow> registered) in
      gbind (prefixed ''can't init migrator'' (mgInit env)) (\<lambda>_.
      gbind (prefixed ''can't existing migrations'' (checkExistingMigrations env names)) (\<lambda>_.
      gbind (prefixed ''error during getting lock connection'' (mgConn env)) (\<lambda>_.
      gdefer (mgCloseConn env) (
      gbind (prefixed ''error during beginning lock transaction'' (mgBeginTx env)) (\<lambda>_.
      gdefer (mgRollback env) (
      gbind (prefixed ''failed to execute lock request'' (mgLock env)) (\<lambda>_.
      gbind (prefixed ''error during migration execution'' (mgMigrate env names)) (\<lambda>_.
      gret ())))))))))"

definition RunMigration :: "'x migrator \<Rightarrow> string list \<Rightarrow> ('x, unit) go" where
  "RunMigration env registered = runMigration env registered None"

section \<open>What the evolutions do\<close>

lemma last_part_append:
  "CHR ''-'' \<notin> set s \<Longrightarrow> last_part (p @ CHR ''-'' # s) = s"
  by (simp add: last_part_def takeWhile_append takeWhile_eq_all_conv [THEN iffD2])

lemma alphanumeric_dash [simp]: "\<not> alphanumeric (CHR ''-'')"
  by code_simp

lemma tenant_key_split:
  assumes "tenant_key key"
  obtains name where "key = ''tenant-'' @ name" and "name \<noteq> []" and "list_all alphanumeric name"
  using assms by (metis append_take_drop_id tenant_key_def)

lemma last_part_tenant_key:
  assumes "tenant_key key"
  shows "last_part key \<noteq> [] \<and> key = ''tenant-'' @ last_part key"
proof -
  obtain name where name: "key = ''tenant-'' @ name" "name \<noteq> []" "list_all alphanumeric name"
    by (rule tenant_key_split [OF assms])
  then have "CHR ''-'' \<notin> set name" by (auto simp: list_all_iff)
  from last_part_append [OF this, of "''tenant''"] name show ?thesis by simp
qed

lemma tenant_keys_all: "key \<in> set (tenant_keys row) \<Longrightarrow> tenant_key key"
  by (auto simp: tenant_keys_def split: option.splits)

text \<open>What becomes of a row: unchanged if it has a tenant name, else named after its only tenant service.\<close>

definition named_row :: "sql_row \<Rightarrow> sql_row" where
  "named_row row = (if srTenantName row = None then
     (case tenant_keys row of
        key # _ \<Rightarrow> row\<lparr>srServiceName := Some key, srTenantName := Some (last_part key)\<rparr>
      | [] \<Rightarrow> row\<lparr>srServiceName := Some ''tenant-dev'', srTenantName := Some ''dev''\<rparr>)
     else row)"

definition ambiguous :: "sql_row \<Rightarrow> bool" where
  "ambiguous row \<longleftrightarrow> srTenantName row = None \<and> 2 \<le> length (tenant_keys row)"

lemma scalar_cases:
  "scalar xs = (if 2 \<le> length xs then Inl (PlainError ''more than one row returned by a subquery used as an expression'')
     else Inr (case xs of [] \<Rightarrow> None | x # _ \<Rightarrow> Some x))"
  by (auto simp: scalar_def split: list.split)

lemma update_row_result:
  "update_servicename_row row = (if ambiguous row
     then Inl (PlainError ''more than one row returned by a subquery used as an expression'')
     else Inr (named_row row))"
proof -
  have "filter (\<lambda>part. part \<noteq> []) (map last_part (tenant_keys row)) = map last_part (tenant_keys row)"
    using tenant_keys_all last_part_tenant_key by (fastforce simp: filter_id_conv)
  then show ?thesis
    by (auto simp: update_servicename_row_def ambiguous_def named_row_def scalar_cases coalesce_def
        split: list.split)
qed

lemma update_rows_result:
  "update_rows rows = (if list_ex ambiguous rows
     then Inl (PlainError ''more than one row returned by a subquery used as an expression'')
     else Inr (map named_row rows))"
  by (induction rows) (auto simp: update_row_result)

text \<open>
  C13: The second evolution gives every tenant without a name the service name \<open>tenant-<name>\<close>, read off
  the only service of its sites with such a name (\<open>dev\<close> if there is none), and changes no other row;
  it fails and changes nothing exactly if some tenant without a name has two such services, which
  includes the same service in two sites.
\<close>

theorem evolution_names_tenants:
  assumes "map_of (sdTables db) ''tenant_dns'' \<noteq> None"
  shows "evolution_servicename db =
      (if \<exists>row \<in> set (sdTenants db). ambiguous row
       then (Err (PlainError ''more than one row returned by a subquery used as an expression''), db)
       else (Ok (), db\<lparr>sdTenants := map named_row (sdTenants db)\<rparr>)) \<and>
    (\<forall>row. srTenantName row \<noteq> None \<longrightarrow> named_row row = row) \<and>
    (\<forall>row. srTenantName row = None \<longrightarrow> \<not> ambiguous row \<longrightarrow> (\<exists>name.
       srTenantName (named_row row) = Some name \<and> srServiceName (named_row row) = Some (''tenant-'' @ name) \<and>
       (if tenant_keys row = [] then name = ''dev'' else tenant_keys row = [''tenant-'' @ name])))"
proof (intro conjI allI impI)
  show "evolution_servicename db =
      (if \<exists>row \<in> set (sdTenants db). ambiguous row
       then (Err (PlainError ''more than one row returned by a subquery used as an expression''), db)
       else (Ok (), db\<lparr>sdTenants := map named_row (sdTenants db)\<rparr>))"
    using assms by (auto simp: evolution_servicename_def run_in_tx_def update_rows_result list_ex_iff)
  show "named_row row = row" if "srTenantName row \<noteq> None" for row
    using that by (auto simp: named_row_def)
  show "\<exists>name. srTenantName (named_row row) = Some name \<and> srServiceName (named_row row) = Some (''tenant-'' @ name) \<and>
      (if tenant_keys row = [] then name = ''dev'' else tenant_keys row = [''tenant-'' @ name])"
    if "srTenantName row = None" "\<not> ambiguous row" for row
    using that tenant_keys_all [of _ row] last_part_tenant_key
    by (cases "tenant_keys row") (auto simp: ambiguous_def named_row_def not_le less_Suc_eq numeral_2_eq_2)
qed

lemma evolution_names_tenants_witness:
  "srServiceName (sdTenants (snd (evolution_servicename \<lparr>sdTables = [(''tenant_dns'', [])],
     sdTenants = [\<lparr>srTenantId = ''t'', srSites = Some [(''default'', [(''tenant-acme'', [''a.b'']), (''shop'', [])])],
       srServiceName = None, srTenantName = None\<rparr>]\<rparr>)) ! 0) = Some ''tenant-acme''"
proof -
  let ?row = "\<lparr>srTenantId = ''t'', srSites = Some [(''default'', [(''tenant-acme'', [''a.b'']), (''shop'', [])])],
       srServiceName = None, srTenantName = None\<rparr>"
  let ?db = "\<lparr>sdTables = [(''tenant_dns'', [])], sdTenants = [?row]\<rparr>"
  have k: "tenant_keys ?row = [''tenant-acme'']" by code_simp
  have "evolution_servicename ?db = (Ok (), ?db\<lparr>sdTenants := map named_row [?row]\<rparr>)"
    using evolution_names_tenants [of ?db] by (simp add: ambiguous_def k)
  moreover have "srServiceName (named_row ?row) = Some ''tenant-acme''"
    by (simp add: named_row_def k)
  ultimately show ?thesis by simp
qed

section \<open>What the run leaves\<close>

text \<open>
  The contract of the library: \<open>conns\<close> counts open connections of the run, \<open>locked\<close> tells whether the
  lock row is held, which only the lock request can bring about, and \<open>applied\<close> are the names of the
  applied evolutions.
\<close>

locale migration_library =
  fixes env :: "'x migrator" and conns :: "'x \<Rightarrow> nat" and locked :: "'x \<Rightarrow> bool" and applied :: "'x \<Rightarrow> string list"
  assumes quiet: "keeps (\<lambda>x. conns x = n \<and> \<not> locked x) (mgInit env)"
      "keeps (\<lambda>x. conns x = n \<and> \<not> locked x) (mgSchemas env)"
      "keeps (\<lambda>x. conns x = n \<and> \<not> locked x) (mgMarkApplied env name)"
      "keeps (\<lambda>x. conns x = n \<and> \<not> locked x) (mgBeginTx env)"
      "conns x = n \<and> \<not> locked x \<Longrightarrow> mgApplied env x = (names, x') \<Longrightarrow> conns x' = n \<and> \<not> locked x'"
    and inside: "keeps (\<lambda>x. conns x = n) (mgLock env)" "keeps (\<lambda>x. conns x = n) (mgMigrate env sorted_names)"
    and rollback: "mgRollback env x = (r, x') \<Longrightarrow> conns x' = conns x \<and> \<not> locked x'"
    and conn: "mgConn env x = (r, x') \<Longrightarrow> \<not> locked x \<Longrightarrow>
      \<not> locked x' \<and> conns x' = (case r of Ok _ \<Rightarrow> Suc (conns x) | _ \<Rightarrow> conns x)"
    and closing: "mgCloseConn env x = (r, x') \<Longrightarrow> \<not> locked x \<Longrightarrow> conns x' = conns x - 1 \<and> \<not> locked x'"
    and reads: "mgApplied env x = (names, x') \<Longrightarrow> names = applied x \<and> applied x' = applied x"
    and marks: "mgMarkApplied env name x = (Ok (), x') \<Longrightarrow> applied x' = applied x @ [name]"
begin

abbreviation idle :: "nat \<Rightarrow> 'x \<Rightarrow> bool" where "idle n x \<equiv> conns x = n \<and> \<not> locked x"

lemma keeps_prefixed: "keeps Q m \<Longrightarrow> keeps Q (prefixed msg m)"
  unfolding prefixed_def by (intro go_keeps)

lemma keeps_mark: "keeps (idle n) (markExistingMigrationsAsApplied env names k)"
proof (rule keepsI)
  fix x assume i: "idle n x"
  obtain seen x1 where a: "mgApplied env x = (seen, x1)" by fastforce
  with quiet(5) i have i1: "idle n x1" by blast
  have "keeps (idle n) (gfor [0..<k] (\<lambda>i. if i < length names then
      if \<not> contains_migration seen (names ! i) then mgMarkApplied env (names ! i) else gret ()
      else gpanic ''index out of range''))"
    by (intro go_keeps quiet(3))
  from keepsD [OF this, OF i1] show "idle n (snd (markExistingMigrationsAsApplied env names k x))"
    by (simp add: markExistingMigrationsAsApplied_def a)
qed

lemma keeps_check: "keeps (idle n) (checkExistingMigrations env names)"
  unfolding checkExistingMigrations_def by (intro go_keeps quiet(2) keeps_mark)

lemma keeps_deferred:
  assumes "keeps R m" and "\<And>x. R x \<Longrightarrow> T (snd (cleanup x))" and "\<And>x. Q x \<Longrightarrow> R x"
  shows "Q x \<Longrightarrow> T (snd (gdefer cleanup m x))"
  using keepsD [OF assms(1), of x] assms(2) [of "snd (m x)"] assms(3) [of x]
  by (auto simp: gdefer_def split: prod.splits result.splits)

lemma keeps_locked_part: "keeps (idle n) (gdefer (mgRollback env)
      (gbind (prefixed a (mgLock env)) (\<lambda>_. gbind (prefixed b (mgMigrate env names)) (\<lambda>_. gret ()))))"
proof (rule keepsI, rule keeps_deferred [where R = "\<lambda>x. conns x = n" and Q = "idle n"])
  show "keeps (\<lambda>x. conns x = n)
      (gbind (prefixed a (mgLock env)) (\<lambda>_. gbind (prefixed b (mgMigrate env names)) (\<lambda>_. gret ())))"
    by (intro go_keeps keeps_prefixed inside)
  show "idle n (snd (mgRollback env x))" if "conns x = n" for x
    using rollback [OF prod.collapse [symmetric], of x] that by simp
qed auto

lemma keeps_run: "keeps (idle n) (RunMigration env names)"
proof -
  have part: "keeps (idle (Suc n)) (gbind (prefixed a (mgBeginTx env)) (\<lambda>_. gdefer (mgRollback env)
      (gbind (prefixed b (mgLock env)) (\<lambda>_. gbind (prefixed c (mgMigrate env names)) (\<lambda>_. gret ())))))" for a b c
    by (intro keeps_gbind keeps_prefixed quiet(4) keeps_locked_part)
  have conn_part: "keeps (idle n) (gbind (prefixed d (mgConn env)) (\<lambda>_. gdefer (mgCloseConn env) m))"
    if m: "keeps (idle (Suc n)) m" for d and m :: "('x, unit) go"
  proof (rule keepsI)
    fix x assume i: "idle n x"
    obtain r x1 where c: "mgConn env x = (r, x1)" by fastforce
    show "idle n (snd (gbind (prefixed d (mgConn env)) (\<lambda>_. gdefer (mgCloseConn env) m) x))"
    proof (cases r)
      case (Ok u)
      have "idle (Suc n) x1" using conn [OF c] i Ok by simp
      then have "idle n (snd (gdefer (mgCloseConn env) m x1))"
        by (rule keeps_deferred [OF m, rotated 2]) (use closing [OF prod.collapse [symmetric]] in auto)
      with Ok c show ?thesis by (simp add: prefixed_def go_simps)
    qed (use conn [OF c] i c in \<open>simp_all add: prefixed_def go_simps\<close>)
  qed
  show ?thesis
    unfolding RunMigration_def runMigration_def Let_def option.case
    by (intro keeps_gbind [OF keeps_prefixed [OF quiet(1)]] keeps_gbind [OF keeps_prefixed [OF keeps_check]] conn_part part)
qed

lemma mark_loop:
  "gfor [k..<n] (\<lambda>i. if i < length names then
      if \<not> contains_migration seen (names ! i) then mgMarkApplied env (names ! i) else gret ()
      else gpanic ''index out of range'') x = (Ok (), x') \<Longrightarrow> k \<le> n \<Longrightarrow>
    (n \<le> length names \<or> k = n) \<and> applied x' = applied x @ filter (\<lambda>m. m \<notin> set seen) (drop k (take n names))"
proof (induction "n - k" arbitrary: k x)
  case (Suc d)
  then have kn: "k < n" by simp
  then have up: "[k..<n] = k # [Suc k..<n]" by (rule upt_conv_Cons)
  from Suc.prems(1) have len: "k < length names" by (auto simp: up go_simps split: if_splits)
  let ?x = "if names ! k \<in> set seen then x else snd (mgMarkApplied env (names ! k) x)"
  from Suc.prems(1) len have run: "gfor [Suc k..<n] (\<lambda>i. if i < length names then
      if \<not> contains_migration seen (names ! i) then mgMarkApplied env (names ! i) else gret ()
      else gpanic ''index out of range'') ?x = (Ok (), x')"
    and one: "names ! k \<notin> set seen \<Longrightarrow> mgMarkApplied env (names ! k) x = (Ok (), ?x)"
    by (auto simp: up go_simps contains_migration_def list_ex_iff split: prod.splits result.splits if_splits)
  have IH: "(n \<le> length names \<or> Suc k = n) \<and>
      applied x' = applied ?x @ filter (\<lambda>m. m \<notin> set seen) (drop (Suc k) (take n names))"
    by (rule Suc.hyps(1)) (use Suc.hyps(2) run kn in auto)
  have "drop k (take n names) = names ! k # drop (Suc k) (take n names)"
    using kn len by (simp add: Cons_nth_drop_Suc [symmetric])
  with IH one marks len kn show ?case by auto
qed (simp add: go_simps)

lemma marked:
  assumes "markExistingMigrationsAsApplied env names n x = (Ok (), x')"
  shows "n \<le> length names \<or> n = 0" and "applied x' = applied x @ filter (\<lambda>m. m \<notin> set (applied x)) (take n names)"
proof -
  obtain seen x1 where a: "mgApplied env x = (seen, x1)" by fastforce
  with assms have "gfor [0..<n] (\<lambda>i. if i < length names then
      if \<not> contains_migration seen (names ! i) then mgMarkApplied env (names ! i) else gret ()
      else gpanic ''index out of range'') x1 = (Ok (), x')"
    by (simp add: markExistingMigrationsAsApplied_def)
  from mark_loop [OF this] reads [OF a] show "n \<le> length names \<or> n = 0"
    "applied x' = applied x @ filter (\<lambda>m. m \<notin> set (applied x)) (take n names)" by auto
qed

end

text \<open>
  A library over tables in memory: \<open>mmOld\<close> counts the evolutions the older tool has applied, \<open>None\<close> if
  its table does not exist.
\<close>

record mem_migrations =
  mmDb :: sql_db
  mmApplied :: "string list"
  mmOld :: "nat option"
  mmConns :: nat
  mmLocked :: bool

definition mem_mark :: "string \<Rightarrow> (mem_migrations, unit) go" where
  "mem_mark name = gmodify (\<lambda>s. s\<lparr>mmApplied := mmApplied s @ [name]\<rparr>)"

definition mem_apply :: "string \<Rightarrow> (mem_migrations, unit) go" where
  "mem_apply name = (case map_of evolutions name of
       None \<Rightarrow> gret ()
     | Some evolution \<Rightarrow> gbind (gzoom mmDb (\<lambda>db s. s\<lparr>mmDb := db\<rparr>) evolution) (\<lambda>_. mem_mark name))"

definition mem_migrator :: "mem_migrations migrator" where
  "mem_migrator = \<lparr>mgInit = gret (),
     mgSchemas = (\<lambda>s. case mmOld s of None \<Rightarrow> (Err (PlainError ''42P01''), s) | Some n \<Rightarrow> (Ok n, s)),
     mgApplied = (\<lambda>s. (mmApplied s, s)), mgMarkApplied = mem_mark,
     mgConn = gmodify (\<lambda>s. s\<lparr>mmConns := Suc (mmConns s)\<rparr>),
     mgCloseConn = gmodify (\<lambda>s. s\<lparr>mmConns := mmConns s - 1\<rparr>),
     mgBeginTx = gret (), mgRollback = gmodify (\<lambda>s. s\<lparr>mmLocked := False\<rparr>),
     mgLock = (\<lambda>s. if mmLocked s then (Err (PlainError ''duplicate key''), s) else (Ok (), s\<lparr>mmLocked := True\<rparr>)),
     mgMigrate = (\<lambda>names s. let open_names = filter (\<lambda>name. name \<notin> set (mmApplied s)) names in
       gbind (gfor open_names mem_apply) (\<lambda>_. gret (open_names = [])) s)\<rparr>"

lemma keeps_mem_apply: "keeps (\<lambda>s. mmConns s = n) (mem_apply name)"
  unfolding mem_apply_def mem_mark_def by (intro go_keeps keeps_gzoom keeps_gmodify) auto

interpretation mem_migrator: migration_library mem_migrator mmConns mmLocked mmApplied
proof
  show "keeps (\<lambda>x. mmConns x = n) (mgMigrate mem_migrator names)" for n names
  proof (rule keepsI)
    fix s :: mem_migrations assume n: "mmConns s = n"
    have "keeps (\<lambda>s. mmConns s = n) (gbind (gfor (filter (\<lambda>name. name \<notin> set (mmApplied s)) names) mem_apply)
        (\<lambda>_. gret (filter (\<lambda>name. name \<notin> set (mmApplied s)) names = [])))"
      by (intro go_keeps keeps_mem_apply)
    from keepsD [OF this, OF n] show "mmConns (snd (mgMigrate mem_migrator names s)) = n"
      by (simp add: mem_migrator_def Let_def)
  qed
qed (auto simp: mem_migrator_def mem_mark_def keeps_def go_simps split: option.splits if_splits)

text \<open>
  The run leaves no connection and no lock behind, whether it succeeds, fails at any step or
  panics.
\<close>

theorem migration_releases_lock:
  assumes "migration_library env conns locked applied" and "\<not> locked x"
  shows "conns (snd (RunMigration env names x)) = conns x \<and> \<not> locked (snd (RunMigration env names x))"
  using keepsD [OF migration_library.keeps_run [OF assms(1)], of x "conns x" names] assms(2) by simp

definition old_database :: "nat \<Rightarrow> sql_row list \<Rightarrow> mem_migrations" where
  "old_database n rows = \<lparr>mmDb = \<lparr>sdTables = [(''tenant_dns'', [''tenant_id'', ''sites'']), (''inits'', [''initialized''])],
     sdTenants = rows\<rparr>, mmApplied = [], mmOld = Some n, mmConns = 0, mmLocked = False\<rparr>"

lemma migration_releases_lock_witness:
  "mmConns (snd (RunMigration mem_migrator (map fst evolutions) (old_database 7 []))) = 0 \<and>
   \<not> mmLocked (snd (RunMigration mem_migrator (map fst evolutions) (old_database 7 [])))"
  using migration_releases_lock [OF mem_migrator.migration_library_axioms, of "old_database 7 []" "map fst evolutions"]
  by (simp add: old_database_def)

text \<open>
  Of the sorted evolutions as many as the older tool has applied, and no others, are marked as
  applied, each of them once, and this succeeds only if at least as many are registered.
\<close>

theorem existing_evolutions_marked:
  assumes "migration_library env conns locked applied"
    and "markExistingMigrationsAsApplied env names n x = (Ok (), x')"
  shows "(n \<le> length names \<or> n = 0) \<and>
    applied x' = applied x @ filter (\<lambda>m. m \<notin> set (applied x)) (take n names)"
  using migration_library.marked [OF assms] by blast

lemma existing_evolutions_marked_witness:
  "mmApplied (snd (markExistingMigrationsAsApplied mem_migrator (map fst evolutions) 2 (old_database 2 []))) =
     [''00000000000001'', ''00000000000002''] \<and>
   (\<exists>p. fst (markExistingMigrationsAsApplied mem_migrator (map fst evolutions) 7 (old_database 7 [])) = Panic p)"
proof -
  have "fst (markExistingMigrationsAsApplied mem_migrator (map fst evolutions) 2 (old_database 2 [])) = Ok ()"
    by code_simp
  then have "markExistingMigrationsAsApplied mem_migrator (map fst evolutions) 2 (old_database 2 []) =
      (Ok (), snd (markExistingMigrationsAsApplied mem_migrator (map fst evolutions) 2 (old_database 2 [])))"
    by (simp add: prod_eq_iff)
  from existing_evolutions_marked [OF mem_migrator.migration_library_axioms this]
  have "mmApplied (snd (markExistingMigrationsAsApplied mem_migrator (map fst evolutions) 2 (old_database 2 []))) =
     [''00000000000001'', ''00000000000002'']"
    by (simp add: old_database_def evolutions_def numeral_2_eq_2)
  moreover have "fst (markExistingMigrationsAsApplied mem_migrator (map fst evolutions) 7 (old_database 7 [])) =
      Panic ''index out of range''" by code_simp
  ultimately show ?thesis by simp
qed

text \<open>
  From an empty database the run creates the columns the service reads; a second run applies nothing.
\<close>

lemma fresh_database_migrated:
  "let empty = \<lparr>mmDb = \<lparr>sdTables = [], sdTenants = []\<rparr>, mmApplied = [], mmOld = None, mmConns = 0, mmLocked = False\<rparr>;
       run = RunMigration mem_migrator (map fst evolutions); once = run empty in
   fst once = Ok () \<and> mmApplied (snd once) = map fst evolutions \<and> run (snd once) = once \<and>
   map_of (sdTables (mmDb (snd once))) ''tenant_dns'' = Some [''tenant_id'', ''tenant_admin'', ''sites'', ''active'',
     ''namespaces'', ''domain_name'', ''service_name'', ''tenant_name'', ''removed'', ''workbook'']"
proof -
  let ?empty = "\<lparr>mmDb = \<lparr>sdTables = [], sdTenants = []\<rparr>, mmApplied = [], mmOld = None, mmConns = 0, mmLocked = False\<rparr>"
  let ?run = "RunMigration mem_migrator (map fst evolutions)"
  have "fst (?run ?empty) = Ok ()" "mmApplied (snd (?run ?empty)) = map fst evolutions"
    "map_of (sdTables (mmDb (snd (?run ?empty)))) ''tenant_dns'' = Some [''tenant_id'', ''tenant_admin'', ''sites'', ''active'',
     ''namespaces'', ''domain_name'', ''service_name'', ''tenant_name'', ''removed'', ''workbook'']"
    by code_simp+
  moreover have "?run (snd (?run ?empty)) = ?run ?empty"
    unfolding prod_eq_iff mem_migrations.equality sql_db.equality by code_simp
  ultimately show ?thesis by (simp only: Let_def)
qed

end
