(* ===== verification/Service.thy ===== *)
theory Service
  imports Controller PaasSync Migration
begin

text \<open>
  The service as a whole: how it starts (\<open>RunService\<close> in \<open>lib/runner.go\<close>, \<open>New\<close> in
  \<open>synchronizer/synchronizer.go\<close>), what runs from then on (requests, the loop of the synchronization, the
  timer, the events of the tenant manager, the messages of the platform) as a step relation, and how
  it ends (\<open>utils/shutdown_hook.go\<close>).
\<close>

section \<open>Events of the tenant manager\<close>

text \<open>The three callbacks that \<open>New\<close> subscribes.\<close>

datatype sync_callback = SyncTenantsCb | ActualizeCacheCb | RedirectURIsCb

definition GetUpdateRedirectURIsInIDPHandler :: "'x sync_env \<Rightarrow> tenant_watch_event \<Rightarrow> ('x sync_state, unit) go" where
  "GetUpdateRedirectURIsInIDPHandler e tenantEvent = wrapped (SendRoutesToIDP e)"

definition on_active :: "(active_tenants, 'a) go \<Rightarrow> ('x sync_state, 'a) go" where
  "on_active = gzoom yActive (\<lambda>a s. s\<lparr>yActive := a\<rparr>)"

fun run_callback :: "'x sync_env \<Rightarrow> sync_callback \<Rightarrow> tenant_watch_event \<Rightarrow> ('x sync_state, unit) go" where
  "run_callback e SyncTenantsCb tenantEvent = SyncTenantsWithTM e tenantEvent"
| "run_callback e ActualizeCacheCb tenantEvent = on_active (ActualizeActiveTenantsCache tenantEvent)"
| "run_callback e RedirectURIsCb tenantEvent = GetUpdateRedirectURIsInIDPHandler e tenantEvent"

text \<open>The subscriptions when the watch starts, five seconds after the first one.\<close>

definition subscriptions :: "bool \<Rightarrow> sync_callback callbacks" where
  "subscriptions compositeSatelliteMode =
     SubscribeToAllExcept EventTypeDeleted RedirectURIsCb (SubscribeToAll ActualizeCacheCb
       (if compositeSatelliteMode then SubscribeToAll SyncTenantsCb [] else []))"

text \<open>The callback that \<open>New\<close> adds to the client of the platform.\<close>

definition route_callback :: "'x sync_env \<Rightarrow> route_update \<Rightarrow> ('x sync_state, unit) go" where
  "route_callback e routeUpdate = wrapped (SendRoutesToIDP e)"

section \<open>The constructor of the synchronizer\<close>

definition checkRedirectURISupport :: "'x sync_env \<Rightarrow> ('x sync_state, bool) go" where
  "checkRedirectURISupport e = gtry (on_world (facade_CheckPostURIFeature (seIdp e))) (\<lambda>r. case r of
     Inl err \<Rightarrow> gpanic (''Failed to check existence of PostURI feature on IPD: '' @ err_message err)
   | Inr ok \<Rightarrow> gret ok)"

definition protocol_of :: "string \<Rightarrow> string" where
  "protocol_of proto = (if proto = ''http'' then proto else ''https'')"

text \<open>
  The settings are completed, the stored schemes are built if that is required, and in satellite mode
  the tenants are loaded before the constructor returns; that loop may not end, which is \<open>None\<close>.
\<close>

definition new_settings :: "'x sync_env \<Rightarrow> string \<Rightarrow> string \<Rightarrow> 'x sync_env" where
  "new_settings e zone proto = e\<lparr>seDefaultDomainZone := zone, seProtocol := protocol_of proto\<rparr>"

text \<open>The goroutines it starts, in their order; their steps are the inputs of the running service below.\<close>

datatype background = WatchEvents "sync_callback callbacks" | CacheLoops | SignalLoop | AutoSyncTimer

definition goroutines :: "'x sync_env \<Rightarrow> background list" where
  "goroutines e = [WatchEvents (subscriptions (seCompositeSatellite e)), CacheLoops, SignalLoop, AutoSyncTimer]"

definition New ::
  "'x sync_env \<Rightarrow> string \<Rightarrow> string \<Rightarrow> 'x sync_state \<Rightarrow> (('x sync_env \<times> background list) result \<times> 'x sync_state) option" where
  "New e0 zone proto s0 =
     (let e = new_settings e0 zone proto in
      case or_panic (buildSchemeIfRequired e) s0 of
        (Ok _, s1) \<Rightarrow>
          if seCompositeSatellite e then (case syncAllTenantsFromTM e s1 of
              None \<Rightarrow> None
            | Some (Panic p, s2) \<Rightarrow> Some (Panic p, s2)
            | Some (_, s2) \<Rightarrow> Some (Ok (e, goroutines e), s2))
          else Some (Ok (e, goroutines e), s1)
      | (Err err, s1) \<Rightarrow> Some (Err err, s1)
      | (Panic p, s1) \<Rightarrow> Some (Panic p, s1))"

text \<open>A tick of the timer; the error of the second call is dropped.\<close>

definition auto_sync_tick :: "'x sync_env \<Rightarrow> ('x sync_state, unit) go" where
  "auto_sync_tick e = gbind Sync (\<lambda>_. ignoring (SendRoutesToIDP e))"

section \<open>The running service\<close>

text \<open>
  What the goroutines do, one step at a time: a request, a turn of the loop that waits for signals, a
  tick, a frame of the watch of tenants, a message for one of the three caches, and a change of the
  outside world or of the caches while others wait. A handler that panics has changed the state up to
  there.
\<close>

datatype service_input =
    RequestIn handler request
  | SignalIn
  | TickIn
  | FrameIn string
  | RouteIn route_update
  | ServiceIn service_update
  | ConfigMapIn configmap_update

definition react ::
  "'x api_env \<Rightarrow> (string \<Rightarrow> tenant_watch_event option) \<Rightarrow> service_input \<Rightarrow> 'x sync_state \<Rightarrow> 'x sync_state" where
  "react env parse i s = (let e = aeSync env in case i of
       RequestIn h rq \<Rightarrow> snd (handle env h rq s)
     | SignalIn \<Rightarrow> snd (sync_turn e s)
     | TickIn \<Rightarrow> snd (auto_sync_tick e s)
     | FrameIn body \<Rightarrow> snd (handle_frame parse (run_callback e) (subscriptions (seCompositeSatellite e)) body s)
     | RouteIn u \<Rightarrow> snd (with_callbacks (\<lambda>u. on_pm (updateRoutesCache (sePm e) (seClient e) u)) [route_callback e] u s)
     | ServiceIn u \<Rightarrow> snd (on_pm (updateServicesCache (sePm e) (seClient e) u) s)
     | ConfigMapIn u \<Rightarrow> snd (on_pm (updateConfigmapsCache (sePm e) (seClient e) u) s))"

inductive service_step ::
  "'x api_env \<Rightarrow> (string \<Rightarrow> tenant_watch_event option) \<Rightarrow> 'x sync_state \<Rightarrow> 'x sync_state \<Rightarrow> bool"
  for env parse where
  input: "service_step env parse s (react env parse i s)"
| outside: "service_step env parse s (s\<lparr>yPm := c\<rparr>)"

inductive_cases service_stepE: "service_step env parse s t"

section \<open>Shutdown\<close>

datatype os_signal = SIGINT | SIGTERM | OtherSignal

definition shutdown_code :: "os_signal \<Rightarrow> int" where
  "shutdown_code sig = (case sig of SIGINT \<Rightarrow> 130 | SIGTERM \<Rightarrow> 143 | OtherSignal \<Rightarrow> 0)"

definition RegisterShutdownHook :: "(int \<Rightarrow> 's \<Rightarrow> 's) \<Rightarrow> os_signal \<Rightarrow> 's \<Rightarrow> 's" where
  "RegisterShutdownHook hook sig = hook (shutdown_code sig)"

section \<open>The start of the service\<close>

text \<open>\<open>configloader\<close>: \<open>MustString\<close> panics for a value that is missing or empty.\<close>

type_synonym config = "string \<Rightarrow> string"

definition MustString :: "config \<Rightarrow> string \<Rightarrow> string result" where
  "MustString cfg key = (if cfg key = [] then Panic (''invalid value: '' @ key @ ''='') else Ok (cfg key))"

fun must_strings :: "config \<Rightarrow> string list \<Rightarrow> string list result" where
  "must_strings cfg [] = Ok []"
| "must_strings cfg (key # keys) = (case MustString cfg key of
     Ok v \<Rightarrow> (case must_strings cfg keys of Ok vs \<Rightarrow> Ok (v # vs) | Err err \<Rightarrow> Err err | Panic p \<Rightarrow> Panic p)
   | Err err \<Rightarrow> Err err | Panic p \<Rightarrow> Panic p)"

definition mail_keys :: "string list" where
  "mail_keys = [''mail.fromEmail'', ''mail.server.user'', ''mail.server.password'', ''mail.server.host'',
     ''mail.server.port'', ''mail.message.content'']"

text \<open>\<open>sprintf\<close> is \<open>fmt.Sprintf\<close>; the password and the user are stored and never read.\<close>

definition NewMailSender :: "(string \<Rightarrow> string list \<Rightarrow> string) \<Rightarrow> config \<Rightarrow> mail_sender result" where
  "NewMailSender sprintf cfg = (case must_strings cfg mail_keys of
       Ok vs \<Rightarrow> Ok \<lparr>msUserEmail = vs ! 0, msFormat = sprintf (vs ! 5)\<rparr>
     | Err err \<Rightarrow> Err err | Panic p \<Rightarrow> Panic p)"

definition createSiteManagementClassifier :: "config \<Rightarrow> (string \<times> string) list result" where
  "createSiteManagementClassifier cfg = (case must_strings cfg [''microservice.name'', ''microservice.namespace''] of
       Ok vs \<Rightarrow> Ok [(''microserviceName'', vs ! 0), (''scope'', ''service''), (''dbClassifier'', ''default''),
         (''namespace'', vs ! 1)]
     | Err err \<Rightarrow> Err err | Panic p \<Rightarrow> Panic p)"

text \<open>The routes that are registered at the gateways: the path outside, the path here and the gateway.\<close>

datatype route_type = Public | Internal

definition gateway_routes :: "(string \<times> string \<times> route_type) list" where
  "gateway_routes =
     [(''/api/v1/site-management'', ''/api/v1'', Public),
      (''/api/v4/tenant-manager/manage/tenants/current/service/name'', ''/api/v1/tenants/current/service/name'', Public),
      (''/api/v4/tenant-manager/activate/create-os-tenant-alias-routes/perform/{tenantId}'',
       ''/api/v1/activate/create-os-tenant-alias-routes/perform/{tenantId}'', Internal)]"

text \<open>The page of the interface's documentation, which is generated text.\<close>

definition swagger_page :: "string \<Rightarrow> int \<times> string \<times> string" where
  "swagger_page readDoc = (200, ''application/json'', readDoc)"

text \<open>
  \<open>reGetenv\<close>: \<open>os.Getenv\<close>. \<open>reDefaultGateway\<close>: a constant of a library. \<open>reDatabase\<close>: the client of the database and its first connection, given the
  classifier. \<open>reSync\<close> has the collaborators of the synchronizer that the constructor does not compute.
  \<open>reApp\<close>: the web framework can be set up. \<open>reRegister\<close>: the library that registers routes at the gateways. \<open>reServe\<close>: the service runs until the server stops, with
  the signal that has stopped it, if any.
\<close>

record 'x run_env =
  reConfig :: config
  reGetenv :: "string \<Rightarrow> string"
  reDefaultGateway :: string
  reDatabase :: "(string \<times> string) list result \<Rightarrow> ('x, unit) go"
  reMigrator :: "'x migrator"
  reRegistered :: "string list"
  reSprintf :: "string \<Rightarrow> string list \<Rightarrow> string"
  reSync :: "'x sync_env"
  reApp :: "'x sync_env \<Rightarrow> ('x sync_state, unit) go"
  reRegister :: "(string \<times> string \<times> route_type) list \<Rightarrow> 'x \<Rightarrow> 'x"
  reServe :: "'x sync_env \<Rightarrow> 'x sync_state \<Rightarrow> os_signal option \<times> 'x sync_state"

text \<open>\<open>strings.Contains\<close>\<close>

definition Contains :: "string \<Rightarrow> string \<Rightarrow> bool" where
  "Contains s substr \<longleftrightarrow> list_ex (\<lambda>i. HasPrefix (drop i s) substr) [0..<Suc (length s)]"

definition getGatewayUrl :: "'x run_env \<Rightarrow> (string \<times> url) option" where
  "getGatewayUrl env = (let address = (if reConfig env ''apigateway.internal.url'' = [] then reDefaultGateway env
       else reConfig env ''apigateway.internal.url'') in map_option (Pair address) (url_parse address))"

text \<open>The collaborators that the configuration and the environment determine.\<close>

definition configured :: "'x run_env \<Rightarrow> pm_client \<Rightarrow> mail_sender \<Rightarrow> 'x sync_env" where
  "configured env client mailSender = (reSync env)\<lparr>seClient := client, seMail := mailSender,
     sePlatformHostname := reConfig env ''cloud.public.host'',
     seCompositeSatellite := (reGetenv env ''COMPOSITE_PLATFORM'' = ''true''),
     seBaselineUrl := ''http://site-management.'' @ reGetenv env ''BASELINE_PROJ'' @ '':8080''\<rparr>"

definition satellite_ok :: "'x run_env \<Rightarrow> bool" where
  "satellite_ok env \<longleftrightarrow> reGetenv env ''COMPOSITE_PLATFORM'' \<noteq> ''true'' \<or> reGetenv env ''BASELINE_PROJ'' \<noteq> []"

definition open_database :: "'x run_env \<Rightarrow> ('x sync_state, unit) go" where
  "open_database env =
     gbind (on_world (or_panic (reDatabase env (createSiteManagementClassifier (reConfig env))))) (\<lambda>_.
     on_world (or_panic (RunMigration (reMigrator env) (reRegistered env))))"

definition create_clients :: "'x run_env \<Rightarrow> ('x sync_state, 'x sync_env) go" where
  "create_clients env = (case getGatewayUrl env of
       None \<Rightarrow> gpanic ''Error occurred while parsing internal Gateway URL''
     | Some (address, _) \<Rightarrow>
         gbind (gresult (MustString (reConfig env) ''microservice.namespace'')) (\<lambda>namespace.
         gbind (on_pm (NewClient (sePm (reSync env)) (Some address) namespace
           (Contains (ToLower (reConfig env ''gateway.system.type'')) ''gateway-api-default''))) (\<lambda>client.
         gbind (gresult (NewMailSender (reSprintf env) (reConfig env))) (\<lambda>mailSender.
         if satellite_ok env then gret (configured env client mailSender)
         else gpanic ''Failed to resolve composite baseline namespace''))))"

text \<open>The hook stores the code before it shuts the server down.\<close>

definition serve_until_stopped :: "'x run_env \<Rightarrow> 'x sync_env \<Rightarrow> ('x sync_state, int option) go" where
  "serve_until_stopped env e = (\<lambda>s. case reServe env e s of
     (stopped, t) \<Rightarrow> (Ok (Some (case stopped of None \<Rightarrow> 0
        | Some sig \<Rightarrow> RegisterShutdownHook (\<lambda>exitCode stored. exitCode) sig 0)), t))"

text \<open>
  \<open>RunService\<close>: the exit code, or \<open>None\<close> as the code if the function returns because the web framework
  could not be set up; \<open>None\<close> as the whole if the constructor does not return.
\<close>

definition RunService :: "'x run_env \<Rightarrow> 'x sync_state \<Rightarrow> (int option result \<times> 'x sync_state) option" where
  "RunService env s0 = (case gbind (open_database env) (\<lambda>_. create_clients env) s0 of
       (Err err, s1) \<Rightarrow> Some (Err err, s1)
     | (Panic p, s1) \<Rightarrow> Some (Panic p, s1)
     | (Ok e0, s1) \<Rightarrow>
         (case New e0 (reConfig env ''tenant.default.domain.zone'') (reConfig env ''service.url.default.proto'') s1 of
            None \<Rightarrow> None
          | Some (Err err, s2) \<Rightarrow> Some (Err err, s2)
          | Some (Panic p, s2) \<Rightarrow> Some (Panic p, s2)
          | Some (Ok (e, started), s2) \<Rightarrow> Some (gbind Sync (\<lambda>_. gtry (reApp env e) (\<lambda>r. case r of
                Inl err \<Rightarrow> gret None
              | Inr _ \<Rightarrow> gbind (on_world (gmodify (reRegister env gateway_routes))) (\<lambda>_. serve_until_stopped env e))) s2)))"

end
