(* ===== verification/ApiTheorems.thy ===== *)
theory ApiTheorems
  imports Controller SyncTheorems
begin

text \<open>
  What the HTTP interface guarantees: with which statuses each handler answers, which requests change
  nothing, what the answer to a stored tenant says about the table, and which tenants can be restored.
\<close>

section \<open>Statuses\<close>

text \<open>
  \<open>answers S E m\<close>: \<open>m\<close> answers with a status of \<open>S\<close>, returns an error only if \<open>E\<close>, or panics.
\<close>

definition outcome :: "int set \<Rightarrow> bool \<Rightarrow> response result \<Rightarrow> bool" where
  "outcome S E q \<longleftrightarrow> (case q of Ok r \<Rightarrow> status r \<in> S | Err e \<Rightarrow> E | Panic p \<Rightarrow> True)"

definition answers :: "int set \<Rightarrow> bool \<Rightarrow> ('s, response) go \<Rightarrow> bool" where
  "answers S E m \<longleftrightarrow> (\<forall>s. outcome S E (fst (m s)))"

lemma outcome_simps [simp]:
  "outcome S E (Ok r) \<longleftrightarrow> status r \<in> S" "outcome S E (Err e) \<longleftrightarrow> E" "outcome S E (Panic p)"
  by (simp_all add: outcome_def)

lemma answersI: "(\<And>s. outcome S E (fst (m s))) \<Longrightarrow> answers S E m"
  by (simp add: answers_def)

lemma answersD: "answers S E m \<Longrightarrow> outcome S E (fst (m s))"
  by (simp add: answers_def)

named_theorems api_answers

lemma answers_respond [api_answers]:
  "code \<in> S \<Longrightarrow> answers S E (respondWithJson code body)"
  "code \<in> S \<Longrightarrow> answers S E (respondWithError code msg)"
  "code \<in> S \<Longrightarrow> answers S E (respondWithoutBody code)"
  "code \<in> S \<Longrightarrow> answers S E (respondWithString code msg)"
  "code \<in> S \<Longrightarrow> answers S E (gret (Response code body))"
  by (simp_all add: answers_def respondWithJson_def respondWithError_def respondWithoutBody_def
      respondWithString_def gret_def)

lemma answers_panic [api_answers]: "answers S E (gpanic p)" "answers S E nil_dereference"
  by (simp_all add: answers_def gpanic_def nil_dereference_def)

lemma answers_gtry [api_answers]:
  assumes "\<And>x. answers S E (f x)"
  shows "answers S E (gtry m f)"
proof (rule answersI)
  fix s obtain r t where "m s = (r, t)" by (cases "m s")
  then show "outcome S E (fst (gtry m f s))" using answersD [OF assms] by (cases r) (simp_all add: gtry_run)
qed

text \<open>A program that does not return an error.\<close>

definition errorless :: "('s, 'a) go \<Rightarrow> bool" where
  "errorless m \<longleftrightarrow> (\<forall>s e. fst (m s) \<noteq> Err e)"

lemma answers_gbind:
  assumes "E \<or> errorless m" and "\<And>x. answers S E (f x)"
  shows "answers S E (gbind m f)"
proof (rule answersI)
  fix s obtain r t where m: "m s = (r, t)" by (cases "m s")
  then have "r \<noteq> Err e" if "\<not> E" for e using assms(1) that by (metis errorless_def fst_conv)
  with m show "outcome S E (fst (gbind m f s))"
    using answersD [OF assms(2)] by (cases r) (auto simp: gbind_run)
qed

lemma errorless_simps [simp]:
  "errorless (gret x)" "errorless (gpanic p)" "errorless Sync" "errorless (on_world (gmodify f))"
  by (auto simp: errorless_def gret_def gpanic_def Sync_def gmodify_def on_world_def on_pm_def on_rest_def
      gzoom_fst)

lemma errorless_gtry:
  assumes "\<And>x. errorless (f x)"
  shows "errorless (gtry m f)"
  unfolding errorless_def
proof (intro allI)
  fix s e obtain r t where "m s = (r, t)" by (cases "m s")
  then show "fst (gtry m f s) \<noteq> Err e" using assms by (cases r) (simp_all add: gtry_run errorless_def)
qed

lemma errorless_default_sites: "errorless (gresult (default_sites ds))"
proof -
  have "default_sites ds \<noteq> Err e" for e
    by (induction ds rule: default_sites.induct) (auto split: result.splits)
  then show ?thesis by (simp add: errorless_def gresult_def)
qed

lemma errorless_find_external: "errorless (find_external_tenant e externalId)"
  unfolding find_external_tenant_def by (intro errorless_gtry) (auto split: sum.split intro!: errorless_gtry)

lemma answers_or_status [api_answers]:
  "code \<in> S \<Longrightarrow> (\<And>x. answers S E (f x)) \<Longrightarrow> answers S E (or_status code m f)"
  unfolding or_status_def by (intro api_answers) (auto intro: api_answers split: sum.split)

lemma answers_with_tenant_id [api_answers]:
  "400 \<in> S \<Longrightarrow> (\<And>k. answers S E (f k)) \<Longrightarrow> answers S E (with_tenant_id rq f)"
  by (simp add: with_tenant_id_def Let_def api_answers)

lemma answers_services [api_answers]:
  "{200, 400, 404, 500} \<subseteq> S \<Longrightarrow> answers S E (answer_services m)"
  unfolding answer_services_def by (intro api_answers) (auto intro!: api_answers split: sum.split go_error.split)

lemma handler_outcome:
  "outcome (documented h \<union> (if h \<in> {GetH, ActivateTenantH} \<and> rqParam rq TenantIdParam = [] then {400} else {}))
    (h = GetTenantCurrentServicesH) (fst (handle env h rq s))"
proof -
  have "answers (documented h \<union> (if h \<in> {GetH, ActivateTenantH} \<and> rqParam rq TenantIdParam = [] then {400} else {}))
      (h = GetTenantCurrentServicesH) (handle env h rq)"
  proof (cases h)
    case GetTenantCurrentServicesH
    then show ?thesis
      by (auto simp: api_GetTenantCurrentServices_def Let_def intro!: answers_gbind api_answers)
  next
    case ListAnnotatedRoutesBulkH
    then show ?thesis
      by (auto simp: api_ListAnnotatedRoutesBulk_def intro!: api_answers answers_gbind errorless_default_sites
          split: option.split)
  next
    case RestoreTenantAliasH
    then show ?thesis
      by (auto simp: api_RestoreTenantAlias_def Let_def intro!: api_answers answers_gbind errorless_gtry
          errorless_find_external split: option.split sum.split)
  next
    case ListOpenShiftRoutesH
    then show ?thesis
      by (auto simp: api_ListOpenShiftRoutes_def intro!: api_answers split: sum.split go_error.split)
  next
    case GetH
    then show ?thesis
      by (auto simp: api_Get_def with_tenant_id_def Let_def intro!: api_answers split: sum.split)
  next
    case ActivateTenantH
    then show ?thesis
      by (auto simp: api_ActivateTenant_def change_status_def with_tenant_id_def Let_def intro!: api_answers)
  qed (auto simp: query_handlers change_handlers Let_def intro!: api_answers answers_gbind
      split: option.split sum.split)
  then show ?thesis by (rule answersD)
qed

text \<open>A null in the body of a bulk request, and a tenant that neither lookup finds.\<close>

lemma default_sites_null: "None \<in> set ds \<Longrightarrow> \<exists>p. default_sites ds = Panic p"
  by (induction ds rule: default_sites.induct) auto

lemma bulk_null_panics:
  assumes "aeBulk env (rqBody rq) = Some None \<or>
    (\<exists>ds. aeBulk env (rqBody rq) = Some (Some ds) \<and> None \<in> set ds)"
  shows "\<exists>p. handle env ListAnnotatedRoutesBulkH rq s = (Panic p, s)"
proof (cases "aeBulk env (rqBody rq) = Some None")
  case False
  with assms obtain ds p where "aeBulk env (rqBody rq) = Some (Some ds)" "default_sites ds = Panic p"
    using default_sites_null by blast
  then show ?thesis by (simp add: api_ListAnnotatedRoutesBulk_def gbind_run gresult_def)
qed (simp add: api_ListAnnotatedRoutesBulk_def gpanic_run)

lemma restore_unknown_panics:
  assumes "rqParam rq TenantIdParam = k" and "k \<noteq> []"
    and "sync_FindByTenantId (aeSync env) k [] False False s = (Err e1, s1)"
    and "on_world (GetTenantByExternalId (seTm (aeSync env)) k) s1 = (Err e2, s2)"
  shows "\<exists>p. handle env RestoreTenantAliasH rq s = (Panic p, s2)"
  using assms
  by (simp add: api_RestoreTenantAlias_def with_tenant_id_def Let_def find_external_tenant_def
      nil_dereference_def go_simps)

text \<open>
  C35: Every answer that a handler gives has a status that the handler's annotations name, except that
  \<open>Get\<close> and \<open>ActivateTenant\<close> answer 400 when the tenant id is missing; only \<open>GetTenantCurrentServices\<close>
  returns an error to the framework. A handler that gives no answer panics, as \<open>ListAnnotatedRoutesBulk\<close>
  does for a body that is null or holds a null, and \<open>RestoreTenantAlias\<close> for an id of which
  neither the table nor the tenant manager knows a tenant. Unlike what the README says, \<open>GetAll\<close> answers 404
  for every error of its query, and the two handlers of one tenant's routes answer 400 for a tenant
  that is not active.
\<close>

theorem api_statuses:
  "(\<forall>r s'. handle env h rq s = (Ok r, s') \<longrightarrow> status r \<in> documented h \<or>
      h \<in> {GetH, ActivateTenantH} \<and> rqParam rq TenantIdParam = [] \<and> status r = 400) \<and>
   (\<forall>err s'. handle env h rq s = (Err err, s') \<longrightarrow> h = GetTenantCurrentServicesH) \<and>
   (aeBulk env (rqBody rq) = Some None \<or> (\<exists>ds. aeBulk env (rqBody rq) = Some (Some ds) \<and> None \<in> set ds) \<longrightarrow>
      (\<exists>p. handle env ListAnnotatedRoutesBulkH rq s = (Panic p, s))) \<and>
   (\<forall>k e1 s1 e2 s2. rqParam rq TenantIdParam = k \<and> k \<noteq> [] \<and>
      sync_FindByTenantId (aeSync env) k [] False False s = (Err e1, s1) \<and>
      on_world (GetTenantByExternalId (seTm (aeSync env)) k) s1 = (Err e2, s2) \<longrightarrow>
      (\<exists>p. handle env RestoreTenantAliasH rq s = (Panic p, s2))) \<and>
   (\<forall>err s'. FindAllWithGeneral (aeSync env) (unless_false rq Merge) s = (Err err, s') \<longrightarrow>
      handle env GetAllH rq s = (Ok (Response 404 (ErrorPayload (err_message err))), s')) \<and>
   (\<forall>m s'. rqQuery rq TenantIdParam [] \<noteq> [] \<and>
      GetAnnotatedRoutesForTenant (aeSync env) (tenant_data_of rq) s = (Err (TenantIsNotActiveError m), s') \<longrightarrow>
      handle env ListAnnotatedRoutesH rq s = (Ok (Response 400 (ErrorPayload m)), s')) \<and>
   (\<forall>m s'. rqQuery rq TenantIdParam [] \<noteq> [] \<and>
      GetIdpRouteForTenant (aeSync env) (tenant_data_of rq) s = (Err (TenantIsNotActiveError m), s') \<longrightarrow>
      handle env GetIdpRouteH rq s = (Ok (Response 400 (ErrorPayload m)), s'))"
proof -
  note answered = handler_outcome [of h rq env s]
  have "status r \<in> documented h \<or> h \<in> {GetH, ActivateTenantH} \<and> rqParam rq TenantIdParam = [] \<and> status r = 400"
    if "handle env h rq s = (Ok r, s')" for r s'
    using answered that by (auto split: if_splits)
  moreover have "h = GetTenantCurrentServicesH" if "handle env h rq s = (Err err, s')" for err s'
    using answered that by simp
  ultimately show ?thesis
    using bulk_null_panics [of env rq s] restore_unknown_panics [OF refl, of rq env s]
    by (simp add: api_GetAll_def or_status_def api_ListAnnotatedRoutes_def api_GetIdpRoute_def answer_services_def
        respondWithError_def respondWithJson_def go_simps)
qed

section \<open>Requests that change nothing\<close>

context sync_world begin

lemma keeps_gcase_result [go_keeps]:
  "keeps P (or_status code m f)" if "keeps P m" "\<And>x. keeps P (f x)"
  unfolding or_status_def respondWithError_def respondWithJson_def by (intro go_keeps that)

lemma keeps_respond [go_keeps]:
  "keeps P (respondWithJson code body)" "keeps P (respondWithError code msg)"
  "keeps P (respondWithoutBody code)" "keeps P (respondWithString code msg)"
  by (simp_all add: respondWithJson_def respondWithError_def respondWithoutBody_def respondWithString_def keeps_gret)

lemma keeps_collisions [go_keeps]: "keeps (framed db d b) (CheckCollisions e t)"
  unfolding CheckCollisions_def by (intro go_keeps)

lemma keeps_public [go_keeps]:
  "keeps (framed db d b) (GetPublicServices e namespaces)"
  "keeps (framed db d b) (generateRoutesForServices e domainName svs namespaces)"
  unfolding GetPublicServices_def generateRoutesForServices_def service_url_host_def by (intro go_keeps)+

lemma keeps_schemes [go_keeps]: "keeps (framed db d b) (FindAllWithGeneral e mergeGeneral)"
  unfolding FindAllWithGeneral_def by (intro go_keeps)

lemma keeps_openshift [go_keeps]: "keeps (framed db d b) (GetOpenShiftRoutes e params)"
proof -
  have "keeps (framed db d b) (first_param params key)" for key
    unfolding first_param_def by (intro go_keeps)
  moreover have "keeps (framed db d b) (on_pm (GetRoutesForNamespaces (sePm e) (seClient e) ns))" for ns
    unfolding GetRoutesForNamespaces_def by (intro keeps_on_pm go_keeps)
  ultimately show ?thesis unfolding GetOpenShiftRoutes_def Let_def by (intro go_keeps)
qed

lemma keeps_realm [go_keeps]: "keeps (framed db d b) (GetRealm e realmId)"
  unfolding GetRealm_def by (intro go_keeps)

lemma keeps_resolve [go_keeps]: "keeps (framed db d b) (resolveField e name x f y namespaces)"
  unfolding resolveField_def by (intro go_keeps keeps_on_pm)

lemma keeps_custom [go_keeps]: "keeps (framed db d b) (buildCustomServicesFromRoutes e rs protocol namespaces)"
  unfolding buildCustomServicesFromRoutes_def buildCustomServiceFromRoute_def resolveCustomServiceUrl_def
  by (intro go_keeps)

lemma keeps_annotated [go_keeps]: "keeps (framed db d b) (annotated_routes e data t)"
  unfolding annotated_routes_def mergeDatabaseRoutesWithGenerated_def generateDefaultRoutes_def
  by (intro go_keeps)

lemma keeps_bulk [go_keeps]: "keeps (framed db d b) (GetAnnotatedRoutesBulk e data)"
  unfolding GetAnnotatedRoutesBulk_def bulk_entry_def by (intro go_keeps)

end

definition read_only :: "handler set" where
  "read_only = {ValidateH, ResetCachesH, ListPublicServicesH, ListAnnotatedRoutesBulkH, ListOpenShiftRoutesH,
     GetRealmH, SearchH, GetAllH}"

context sync_world begin

lemma keeps_read_only:
  assumes "h \<in> read_only" and "aeSync env = e"
  shows "keeps (framed db d b) (handle env h rq)"
  using assms(1) unfolding read_only_def insert_iff
  by (elim disjE; simp add: assms(2) api_Validate_def api_ResetCaches_def api_ListPublicServices_def
      api_ListAnnotatedRoutesBulk_def api_ListOpenShiftRoutes_def api_GetRealm_def api_Search_def api_GetAll_def
      sync_FindAll_def Let_def)
    (auto intro!: go_keeps simp: assms(2) split: option.split sum.split go_error.split)

end

text \<open>
  C36: The handlers that look at all tenants, at one realm, at the routes or the services of the
  platform or at a scheme to be validated change neither the table of tenants nor the pending
  signals, whatever the request and the outcome.
\<close>

theorem read_only_handlers:
  assumes "sync_world (aeSync env) db" and "h \<in> read_only"
  shows "table db (snd (handle env h rq s)) = table db s \<and> yBus (snd (handle env h rq s)) = yBus s"
  using sync_world.framedD [OF assms(1) sync_world.keeps_read_only [OF assms(1,2) refl] surjective_pairing]
  by blast

definition mem_api :: "int \<Rightarrow> mem_table api_env" where
  "mem_api code = \<lparr>aeSync = mem_sync code, aeReset = (\<lambda>x. x),
     aeTenantDns = (\<lambda>b. if b = [] then None else Some sample_tenant), aeTenant = (\<lambda>rq. None),
     aeBulk = (\<lambda>b. None), aeLastUpdate = (\<lambda>c. 0)\<rparr>"

text \<open>A request with the tenant \<open>k\<close>, the host \<open>h\<close> and the given body.\<close>

definition api_request :: "string \<Rightarrow> string \<Rightarrow> string \<Rightarrow> request" where
  "api_request k h body = \<lparr>rqParam = (\<lambda>key. if key = ''tenantId'' then k else []),
     rqQuery = (\<lambda>key default. if key = ''host'' then h else default), rqHeader = (\<lambda>key. []),
     rqArgs = [], rqBody = body\<rparr>"

lemma read_only_handlers_witness:
  "table mem_db (snd (handle (mem_api 200) SearchH (api_request [] ''a.com'' []) (mem_state [] [] mem_routed))) =
     table mem_db (mem_state [] [] mem_routed)"
proof -
  have "sync_world (aeSync (mem_api 200)) mem_db" by (simp add: mem_api_def mem_sync.sync_world_axioms)
  from read_only_handlers [OF this, of SearchH] show ?thesis by (simp add: read_only_def)
qed

section \<open>Bad requests\<close>

text \<open>
  A request that lacks what its handler needs: the tenant id of the path, a header, a parameter of the
  query, or a body that the decoder takes.
\<close>

definition malformed :: "'x api_env \<Rightarrow> handler \<Rightarrow> request \<Rightarrow> bool" where
  "malformed env h rq \<longleftrightarrow>
     (case h of
        GetSiteH \<Rightarrow> rqParam rq TenantIdParam = [] \<or> rqHeader rq ''url'' = []
      | GetH \<Rightarrow> rqParam rq TenantIdParam = []
      | DeleteH \<Rightarrow> rqParam rq TenantIdParam = []
      | ActivateTenantH \<Rightarrow> rqParam rq TenantIdParam = []
      | DeactivateTenantH \<Rightarrow> rqParam rq TenantIdParam = []
      | DeleteTenantH \<Rightarrow> rqParam rq TenantIdParam = []
      | CreateTenantRouteH \<Rightarrow> rqParam rq TenantIdParam = []
      | RestoreTenantAliasH \<Rightarrow> rqParam rq TenantIdParam = []
      | GetServiceNameH \<Rightarrow> rqHeader rq ''Tenant'' = []
      | GetIdpRouteH \<Rightarrow> rqQuery rq TenantIdParam [] = []
      | ListAnnotatedRoutesH \<Rightarrow> rqQuery rq TenantIdParam [] = []
      | SearchH \<Rightarrow> rqQuery rq ''host'' [] = [] \<or> Host (Address (rqQuery rq ''host'' [])) = []
      | ValidateH \<Rightarrow> aeTenantDns env (rqBody rq) = None
      | UpsertH \<Rightarrow> aeTenantDns env (rqBody rq) = None
      | UpsertUpdateH \<Rightarrow> aeTenantDns env (rqBody rq) = None
      | RegisterTenantH \<Rightarrow> aeTenant env rq = None
      | ListAnnotatedRoutesBulkH \<Rightarrow> aeBulk env (rqBody rq) = None
      | _ \<Rightarrow> False)"

lemma malformed_refused:
  assumes "malformed env h rq"
  shows "\<exists>msg. handle env h rq s = (Ok (Response 400 (ErrorPayload msg)), s)"
  using assms
  by (cases h) (auto simp: malformed_def query_handlers change_handlers with_tenant_id_def Let_def
      respondWithError_def respondWithJson_def gret_run)

lemma wellformed_not_400:
  assumes "\<not> malformed env h rq" and "h \<notin> {GetIdpRouteH, ListAnnotatedRoutesH}"
  shows "answers (- {400}) True (handle env h rq)"
proof (cases h)
  case ListOpenShiftRoutesH
  then show ?thesis
    by (auto simp: api_ListOpenShiftRoutes_def intro!: api_answers split: sum.split go_error.split)
qed (use assms in \<open>auto simp: malformed_def query_handlers change_handlers with_tenant_id_def Let_def
    intro!: api_answers answers_gbind split: option.split sum.split\<close>)

text \<open>
  C37: A malformed request, without the tenant id in the path, without a header or parameter its handler
  needs, with a host that is no host, or with a body that cannot be decoded, is answered 400 with an
  error text and changes nothing at all. No other request is answered 400, except that
  \<open>ListAnnotatedRoutes\<close> and \<open>GetIdpRoute\<close> answer 400 for a tenant that is not active, where the README
  says 404.
\<close>

theorem bad_request_no_effect:
  "(malformed env h rq \<longrightarrow> (\<exists>msg. handle env h rq s = (Ok (Response 400 (ErrorPayload msg)), s))) \<and>
   (\<forall>r s'. \<not> malformed env h rq \<and> handle env h rq s = (Ok r, s') \<and> status r = 400 \<longrightarrow>
      (\<exists>m. h = ListAnnotatedRoutesH \<and> fst (GetAnnotatedRoutesForTenant (aeSync env) (tenant_data_of rq) s) =
         Err (TenantIsNotActiveError m) \<or>
       h = GetIdpRouteH \<and> fst (GetIdpRouteForTenant (aeSync env) (tenant_data_of rq) s) =
         Err (TenantIsNotActiveError m)))"
proof -
  have inactive: "\<exists>m t. fst (mm s) = Err (TenantIsNotActiveError m)"
    if "answer_services mm s = (Ok r, s')" "status r = 400" for mm :: "('a sync_state, custom_service list) go" and r s'
    using that by (cases "mm s"; cases "fst (mm s)") (auto simp: answer_services_def gtry_run respondWithError_def
        respondWithJson_def gret_run split: go_error.splits)
  have "h \<in> {GetIdpRouteH, ListAnnotatedRoutesH}"
    if "\<not> malformed env h rq" "handle env h rq s = (Ok r, s')" "status r = 400" for r s'
    using answersD [OF wellformed_not_400 [OF that(1)], of s] that by auto
  with malformed_refused [of env h rq s] inactive show ?thesis
    by (auto simp: malformed_def api_ListAnnotatedRoutes_def api_GetIdpRoute_def)
qed

lemma bad_request_no_effect_witness:
  "snd (handle (mem_api 200) UpsertH (api_request [] [] []) (mem_state [] [] [])) = mem_state [] [] []"
proof -
  have "malformed (mem_api 200) UpsertH (api_request [] [] [])"
    by (simp add: malformed_def mem_api_def api_request_def)
  with bad_request_no_effect [of "mem_api 200" UpsertH "api_request [] [] []" "mem_state [] [] []"]
  obtain msg where "handle (mem_api 200) UpsertH (api_request [] [] []) (mem_state [] [] []) =
      (Ok (Response 400 (ErrorPayload msg)), mem_state [] [] [])" by blast
  then show ?thesis by (simp del: handle.simps)
qed

lemma api_statuses_witness:
  "\<exists>p. handle ((mem_api 200)\<lparr>aeBulk := \<lambda>b. Some None\<rparr>) ListAnnotatedRoutesBulkH (api_request [] [] ''null'')
     (mem_state [] [] []) = (Panic p, mem_state [] [] [])"
proof -
  let ?env = "(mem_api 200)\<lparr>aeBulk := \<lambda>b. Some None\<rparr>"
  note * = api_statuses [where env = ?env and h = SyncH and rq = "api_request [] [] ''null''"
    and s = "mem_state [] [] []"]
  show ?thesis by (rule * [THEN conjunct2, THEN conjunct2, THEN conjunct1, THEN mp]) simp
qed

section \<open>The answer to a stored tenant\<close>

lemma await_async: "AwaitAction e last_update True f = f"
proof
  fix s
  show "AwaitAction e last_update True f s = f s"
    by (cases "f s"; cases "fst (f s)") (auto simp: AwaitAction_def from_sum_def go_simps)
qed

lemma await_value_async: "await_value env True f = f"
proof
  fix s
  show "await_value env True f s = f s"
    by (cases "f s"; cases "fst (f s)") (auto simp: await_value_def api_await_def await_async go_simps)
qed

text \<open>Forgetting the view gives \<open>Upsert\<close>.\<close>

lemma upsert_seen_Upsert: "gbind (upsert_seen e t) (\<lambda>_. gret ()) = Upsert e t"
  unfolding upsert_seen_def Upsert_def
  by (auto simp: fun_eq_iff go_simps Sync_run split: prod.split result.split)

context sync_world begin

lemma upsert_seen_run:
  assumes "upsert_seen e t s = (q, s')"
  shows "case q of
      Ok seen \<Rightarrow> \<exists>u. same_tenant t u \<and> table db s' = (table db s)(tTenantId t \<mapsto> u) \<and>
        seen = u\<lparr>tServiceName := tServiceName t\<rparr>
    | _ \<Rightarrow> table db s' = table db s"
proof -
  obtain p v where p: "prepare_upsert e t s = (p, v)" by (cases "prepare_upsert e t s")
  note v = framedD [OF keeps_prepare p]
  show ?thesis
  proof (cases p)
    case (Ok u)
    note u = yieldsD [OF yields_prepare, of e t s u v, OF p [unfolded Ok]]
    obtain r w where r: "on_world (dao_Upsert (sePg e) u) v = (r, w)"
      by (cases "on_world (dao_Upsert (sePg e) u) v")
    note w = store_run [OF r]
    have seen: "t\<lparr>tSites := tSites u, tNamespaces := tNamespaces u\<rparr> = u\<lparr>tServiceName := tServiceName t\<rparr>"
      using u by (cases t, cases u) (simp add: same_tenant_def)
    show ?thesis using assms p Ok r w v u seen
      by (cases r) (auto simp: upsert_seen_def go_simps Sync_run table_def same_tenant_def)
  qed (use assms p v in \<open>auto simp: upsert_seen_def go_simps\<close>)
qed

end

text \<open>How the handler answers, given what the write of the tenant does.\<close>

lemma upsert_handled:
  assumes "unless_false rq Async" and "handle env UpsertH rq s = (Ok r, s')" and "aeTenantDns env (rqBody rq) = Some data"
    and "upsert_seen (aeSync env) (FlattenAddressesToHosts data) s = (q, t)"
  shows "case q of Ok seen \<Rightarrow> r = Response 201 (TenantPayload seen) \<and> s' = t
    | Err err \<Rightarrow> r = Response 500 (ErrorPayload (err_message err)) \<and> s' = t | Panic p \<Rightarrow> False"
  using assms by (cases q) (auto simp: api_Upsert_def or_status_def Let_def await_value_async gtry_run
      respondWithError_def respondWithJson_def gret_run)

lemma upsert_unreadable:
  "handle env UpsertH rq s = (Ok r, s') \<Longrightarrow> aeTenantDns env (rqBody rq) = None \<Longrightarrow> status r \<noteq> 201 \<and> s' = s"
  by (auto simp: api_Upsert_def respondWithError_def respondWithJson_def gret_def)

text \<open>
  C34: The answer 201 to an asynchronous request to store a tenant shows what is stored: the table of
  tenants holds, under the id in the request, the tenant of the answer with its service name, and
  nothing else has changed. With any other answer the table is as before.
\<close>

theorem upsert_answer:
  assumes "sync_world (aeSync env) db" and "unless_false rq Async"
    and "handle env UpsertH rq s = (Ok r, s')"
  shows "if status r = 201 then
      (\<exists>data u. aeTenantDns env (rqBody rq) = Some data \<and> same_tenant (FlattenAddressesToHosts data) u \<and>
        table db s' = (table db s)(tTenantId data \<mapsto> u) \<and>
        payload r = TenantPayload (u\<lparr>tServiceName := tServiceName data\<rparr>))
    else table db s' = table db s"
proof (cases "aeTenantDns env (rqBody rq)")
  case None
  with upsert_unreadable [OF assms(3)] show ?thesis by simp
next
  case (Some data)
  let ?data = "FlattenAddressesToHosts data"
  obtain q t where q: "upsert_seen (aeSync env) ?data s = (q, t)" by (cases "upsert_seen (aeSync env) ?data s")
  have same: "tTenantId ?data = tTenantId data" "tServiceName ?data = tServiceName data"
    by (simp_all add: FlattenAddressesToHosts_def)
  from upsert_handled [OF assms(2,3) Some q] sync_world.upsert_seen_run [OF assms(1) q] Some same show ?thesis
    by (cases q) auto
qed

lemma upsert_answer_witness:
  "\<exists>u. mem_db (psRest (yPm (snd (handle (mem_api 200) UpsertH (api_request [] [] ''tenant'') (mem_state [] [] []))))) ''t1'' =
     Some u"
proof -
  let ?m = "handle (mem_api 200) UpsertH (api_request [] [] ''tenant'') (mem_state [] [] [])"
  have w: "sync_world (aeSync (mem_api 200)) mem_db" by (simp add: mem_api_def mem_sync.sync_world_axioms)
  have a: "unless_false (api_request [] [] ''tenant'') Async"
    by (simp add: unless_false_def api_request_def Async_def)
  have "case fst ?m of Ok r \<Rightarrow> status r = 201 | _ \<Rightarrow> False" by code_simp
  then obtain r where r: "?m = (Ok r, snd ?m)" "status r = 201"
    by (cases "fst ?m") (auto simp: prod_eq_iff)
  from upsert_answer [OF w a r(1)] r(2) show ?thesis
    by (auto simp: table_def mem_api_def api_request_def sample_tenant_def)
qed

section \<open>Restoring a tenant\<close>

text \<open>The table has no row with the id \<open>k\<close>.\<close>

definition lacks :: "('x \<Rightarrow> string \<Rightarrow> tenant_dns option) \<Rightarrow> string \<Rightarrow> 'x sync_state \<Rightarrow> bool" where
  "lacks db k s \<longleftrightarrow> table db s k = None"

context sync_world begin

lemma keeps_lacks: "(\<And>d b. keeps (framed db d b) m) \<Longrightarrow> keeps (lacks db k) m"
  by (rule keepsI) (metis framedD(1) lacks_def surjective_pairing)

lemma find_lacks:
  assumes "lacks db k s"
  shows "fst (on_world (FindByTenantId (sePg e) k) s) \<noteq> Ok t"
    and "lacks db k (snd (on_world (FindByTenantId (sePg e) j) s))"
  using find_run(3) [of k s _ _ t] keepsD [OF keeps_lacks [OF keeps_dao_reads(2)] assms] assms
  by (auto simp: lacks_def) (metis option.distinct(1) prod.collapse)

lemma keeps_find_site: "keeps (lacks db k) (sync_FindByTenantId e j [] False False)"
  unfolding sync_FindByTenantId_def by (intro keeps_lacks) (auto intro!: go_keeps simp: Let_def)

lemma keeps_change_status: "keeps (lacks db k) (ChangeTenantStatus e j active)"
proof (rule keepsI)
  fix s assume none: "lacks db k s"
  obtain q v where q: "on_world (FindByTenantId (sePg e) j) s = (q, v)"
    by (cases "on_world (FindByTenantId (sePg e) j) s")
  note f = find_run [OF q]
  show "lacks db k (snd (ChangeTenantStatus e j active s))"
  proof (cases q)
    case (Ok t)
    obtain r w where up: "Upsert e (t\<lparr>tActive := active\<rparr>) v = (r, w)"
      by (cases "Upsert e (t\<lparr>tActive := active\<rparr>) v")
    have "tTenantId t \<noteq> k" using f(3) [OF Ok] none keyed by (auto simp: lacks_def table_def)
    with Upsert_run [OF up] none f(1) have "lacks db k w" by (auto simp: lacks_def split: if_splits)
    with q Ok up show ?thesis by (simp add: ChangeTenantStatus_def gbind_run)
  qed (use q f none in \<open>auto simp: ChangeTenantStatus_def gbind_run lacks_def\<close>)
qed

lemma keeps_tm: "keeps (lacks db k) (on_world (GetTenantByExternalId (seTm e) externalId))"
proof (rule keepsI)
  fix s assume none: "lacks db k s"
  obtain r s' where run: "on_world (GetTenantByExternalId (seTm e) externalId) s = (r, s')"
    by (cases "on_world (GetTenantByExternalId (seTm e) externalId) s")
  then obtain x where "getTenantById (seTm e) externalId (psRest (yPm s)) = (r, x)"
    and "s' = s\<lparr>yPm := (yPm s)\<lparr>psRest := x\<rparr>\<rparr>" by (auto simp: on_world_run GetTenantByExternalId_def)
  with getTenantById_run [OF this(1)] none run
  show "lacks db k (snd (on_world (GetTenantByExternalId (seTm e) externalId) s))"
    by (auto simp: lacks_def table_def split: if_splits)
qed

lemma keeps_find_external: "keeps (lacks db k) (find_external_tenant e externalId)"
  unfolding find_external_tenant_def actualizeTenantStatus_def
  by (intro go_keeps keeps_tm keeps_find_site keeps_change_status)

lemma find_site_lacks: "lacks db k s \<Longrightarrow> fst (sync_FindByTenantId e k [] m g s) \<noteq> Ok t"
  using find_lacks(1) [of k s]
  by (cases "on_world (FindByTenantId (sePg e) k) s"; cases "fst (on_world (FindByTenantId (sePg e) k) s)")
    (auto simp: sync_FindByTenantId_def gbind_run)

lemma change_status_lacks: "lacks db k s \<Longrightarrow> fst (ChangeTenantStatus e k active s) \<noteq> Ok ()"
  using find_lacks(1) [of k s]
  by (cases "on_world (FindByTenantId (sePg e) k) s"; cases "fst (on_world (FindByTenantId (sePg e) k) s)")
    (auto simp: ChangeTenantStatus_def gbind_run)

lemma restore_lacks:
  assumes "lacks db (rqParam rq TenantIdParam) s" and "aeSync env = e"
    and "api_RestoreTenantAlias env rq s = (Ok r, s')"
  shows "status r \<noteq> 200"
proof (cases "rqParam rq TenantIdParam = []")
  case True
  with assms(3) show ?thesis
    by (auto simp: api_RestoreTenantAlias_def with_tenant_id_def respondWithError_def respondWithJson_def gret_def)
next
  case False
  let ?k = "rqParam rq TenantIdParam"
  let ?find = "gtry (sync_FindByTenantId e ?k [] False False) (\<lambda>r. case r of
         Inr data \<Rightarrow> gret (Some data) | Inl _ \<Rightarrow> find_external_tenant e ?k)"
  from assms(3) False obtain found v where v: "?find s = (Ok found, v)" and
    rest: "(case found of None \<Rightarrow> nil_dereference
     | Some data \<Rightarrow>
         let activate = or_status 500 (api_await env True (ChangeTenantStatus e ?k True))
               (\<lambda>_. respondWithoutBody 200) in
         if ments (tSites data) \<noteq> [] then activate
         else gtry (sync_FindByTenantId e ?k [] False True) (\<lambda>r. case r of
             Inl _ \<Rightarrow> nil_dereference
           | Inr generated \<Rightarrow> or_status 500 (api_await env True (Upsert e generated)) (\<lambda>_. activate))) v = (Ok r, s')"
    unfolding api_RestoreTenantAlias_def with_tenant_id_def Let_def assms(2) if_not_P [OF False]
    by (elim gbind_OkE) blast
  have "keeps (lacks db ?k) ?find" by (intro go_keeps keeps_find_site keeps_find_external)
  from keepsD [OF this assms(1)] v have lv: "lacks db ?k v" by simp
  obtain q w where q: "ChangeTenantStatus e ?k True v = (q, w)" by (cases "ChangeTenantStatus e ?k True v")
  with change_status_lacks [OF lv, of True] have q': "q \<noteq> Ok ()" by simp
  obtain p u where p: "sync_FindByTenantId e ?k [] False True v = (p, u)"
    by (cases "sync_FindByTenantId e ?k [] False True v")
  with find_site_lacks [OF lv] have p': "p \<noteq> Ok t" for t by (metis fst_conv)
  from rest p p' q q' show ?thesis
    by (cases found; cases p; cases q)
      (auto simp: nil_dereference_def or_status_def api_await_def await_async gtry_run gpanic_run
        respondWithError_def respondWithJson_def gret_def Let_def split: if_splits)
qed

end

text \<open>
  C38: \<open>RestoreTenantAlias\<close> looks for a tenant by its external id when the id in the path is not one of
  a stored tenant, but then changes the status of the tenant with the id of the path: it never
  answers 200 for an id that the table does not have.
\<close>

theorem restore_needs_stored_id:
  assumes "sync_world (aeSync env) db" and "table db s (rqParam rq TenantIdParam) = None"
    and "handle env RestoreTenantAliasH rq s = (Ok r, s')"
  shows "status r \<noteq> 200"
  by (rule sync_world.restore_lacks [OF assms(1) _ refl]) (use assms in \<open>simp_all add: lacks_def\<close>)

lemma restore_needs_stored_id_witness:
  "\<exists>r s'. handle (mem_api 200) RestoreTenantAliasH (api_request ''e1'' [] [])
      (mem_state [] [] [(''o1'', sample_tenant)]) = (Ok r, s') \<and> status r \<noteq> 200"
proof -
  let ?m = "handle (mem_api 200) RestoreTenantAliasH (api_request ''e1'' [] [])
      (mem_state [] [] [(''o1'', sample_tenant)])"
  have w: "sync_world (aeSync (mem_api 200)) mem_db" by (simp add: mem_api_def mem_sync.sync_world_axioms)
  have none: "table mem_db (mem_state [] [] [(''o1'', sample_tenant)])
      (rqParam (api_request ''e1'' [] []) TenantIdParam) = None"
    by code_simp
  have "case fst ?m of Ok r \<Rightarrow> True | _ \<Rightarrow> False" by code_simp
  then obtain r where r: "?m = (Ok r, snd ?m)" by (cases "fst ?m") (auto simp: prod_eq_iff)
  from restore_needs_stored_id [OF w none r] r show ?thesis by blast
qed

end
