(* ===== verification/ServiceTheorems.thy ===== *)
theory ServiceTheorems
  imports Service ApiTheorems
begin

text \<open>
  Invariants of the running service: what no operation of the service can break, whatever requests,
  events and messages arrive in whatever order. The locale \<open>outer_part\<close> proves for a predicate of the
  state which only reads the bus and the cache of active tenants that every operation keeps it.
\<close>

section \<open>Operations and the outer part of the state\<close>

locale outer_part =
  fixes P :: "'x sync_state \<Rightarrow> bool"
  assumes inner: "P s \<Longrightarrow> P (s\<lparr>yPm := c\<rparr>)"
    and signal: "P s \<Longrightarrow> yBus s < bus_capacity \<Longrightarrow> P (s\<lparr>yBus := Suc (yBus s)\<rparr>)"
begin

lemma keeps_pm [go_keeps]: "keeps P (on_pm m)"
  unfolding on_pm_def by (intro keeps_gzoom inner)

lemma keeps_world [go_keeps]: "keeps P (on_world m)"
  unfolding on_world_def by (rule keeps_pm)

lemma keeps_Sync [go_keeps]: "keeps P Sync"
  unfolding Sync_def by (intro keeps_gmodify) (simp add: signal)

lemma keeps_wrapped [go_keeps]: "keeps P m \<Longrightarrow> keeps P (wrapped m)"
  unfolding wrapped_def by (intro go_keeps)

lemma keeps_sites [go_keeps]: "keeps P (set_sites m t)"
  by (auto simp: keeps_def set_sites_def go_simps split: prod.split result.split)

lemmas reads = s_GetRoutes_def s_GetRoutesByFilter_def s_GetRoutesForNamespaces2_def s_GetServices2_def

lemma keeps_public_services [go_keeps]:
  "keeps P (GetPublicServices e namespaces)" "keeps P (generateRoutesForServices e d svs namespaces)"
  unfolding GetPublicServices_def generateRoutesForServices_def service_url_host_def reads by (intro go_keeps)+

lemma keeps_names: "keeps P (unique_name_loop n e tenantName optional name)"
proof (induction n arbitrary: optional name)
  case (Suc n)
  then show ?case
    unfolding unique_name_loop.simps serviceNameAlreadyExists_def next_service_name_def reads by (intro go_keeps)
qed (auto intro: go_keeps)

lemma keeps_unique_name [go_keeps]: "keeps P (generateUniqueServiceName e tenantName)"
  unfolding generateUniqueServiceName_def by (rule keeps_names)

lemma keeps_prepared [go_keeps]: "keeps P (prepare_upsert e t)"
  unfolding prepare_upsert_def getCompositeNamespaceForTenant_def getConfigMapsForNamespaces_def
    generateNewUrlsForServicesIfNecessary_def filterGeneralRoutes_def name_shopping_service_def
    changeServiceNameIfExists_def CheckCollisions_def reads
  by (intro go_keeps)

lemma keeps_Upsert [go_keeps]: "keeps P (Upsert e t)" "keeps P (upsert_seen e t)"
  unfolding Upsert_def upsert_seen_def by (intro go_keeps)+

lemma keeps_error_cases [go_keeps]:
  "(\<And>m. keeps P (f1 m)) \<Longrightarrow> (\<And>m. keeps P (f2 m)) \<Longrightarrow> (\<And>m. keeps P (f3 m)) \<Longrightarrow> (\<And>c m. keeps P (f4 c m)) \<Longrightarrow>
     (\<And>m. keeps P (f5 m)) \<Longrightarrow> (\<And>m. keeps P (f6 m)) \<Longrightarrow> keeps P (case_go_error f1 f2 f3 f4 f5 f6 err)"
  by (cases err) auto

lemma keeps_update_and_sync: "keeps P (update_and_sync e k f)"
  unfolding update_and_sync_def
  by (intro go_keeps)

lemma keeps_tenant_changes [go_keeps]:
  "keeps P (DeleteTenant e k)" "keeps P (DeleteRoutes e k)" "keeps P (RegisterTenant e tenant)"
  unfolding DeleteTenant_def DeleteRoutes_def RegisterTenant_def Let_def
  by (intro keeps_update_and_sync keeps_world)+

lemma keeps_status [go_keeps]: "keeps P (ChangeTenantStatus e k active)"
  unfolding ChangeTenantStatus_def by (intro go_keeps)

lemma keeps_actualize [go_keeps]: "keeps P (actualizeTenantStatus e t active)"
  unfolding actualizeTenantStatus_def by (intro go_keeps)

lemma keeps_service_name [go_keeps]: "keeps P (SyncUpsert.GetServiceName e k)"
  unfolding SyncUpsert.GetServiceName_def by (intro go_keeps)

lemma keeps_resolved [go_keeps]: "keeps P (resolveField e name x f y namespaces)"
  unfolding resolveField_def by (intro go_keeps)

lemma keeps_custom_services [go_keeps]: "keeps P (buildCustomServicesFromRoutes e rs protocol namespaces)"
  unfolding buildCustomServicesFromRoutes_def buildCustomServiceFromRoute_def resolveCustomServiceUrl_def
  by (intro go_keeps)

lemma keeps_annotated_routes [go_keeps]: "keeps P (annotated_routes e data t)" "keeps P (GetAnnotatedRoutes e data t)"
  unfolding GetAnnotatedRoutes_def annotated_routes_def mergeDatabaseRoutesWithGenerated_def generateDefaultRoutes_def reads
  by (intro go_keeps)+

lemma keeps_annotated_tenant [go_keeps]: "keeps P (GetAnnotatedRoutesForTenant e data)"
  unfolding GetAnnotatedRoutesForTenant_def by (intro go_keeps)

lemma keeps_bulk_routes [go_keeps]: "keeps P (GetAnnotatedRoutesBulk e data)"
  unfolding GetAnnotatedRoutesBulk_def bulk_entry_def by (intro go_keeps)

lemma keeps_idp_route [go_keeps]: "keeps P (GetIdpRouteForTenant e data)"
  unfolding GetIdpRouteForTenant_def getIdentityProviderRoute_def by (intro go_keeps)

lemma keeps_find_all [go_keeps]: "keeps P (FindAllWithGeneral e mergeGeneral)" "keeps P (sync_FindAll e)"
  unfolding sync_FindAll_def FindAllWithGeneral_def reads by (intro go_keeps)+

lemma keeps_default_scheme [go_keeps]: "keeps P (default_scheme_for e k site scheme)"
  unfolding default_scheme_for_def services_of_routes_def by (intro go_keeps)

lemma keeps_find [go_keeps]:
  "keeps P (sync_FindByTenantId e k site m g)" "keeps P (FindByExternalTenantId e k site m g)"
  "keeps P (GetSite e k url m g)" "keeps P (find_external_tenant e k)"
  unfolding sync_FindByTenantId_def FindByExternalTenantId_def GetSite_def find_external_tenant_def reads
  by (intro go_keeps)+

lemma keeps_platform_routes [go_keeps]: "keeps P (GetOpenShiftRoutes e params)"
  unfolding GetOpenShiftRoutes_def first_param_def Let_def reads by (intro go_keeps)

lemma keeps_one_realm [go_keeps]: "keeps P (GetRealm e k)"
  unfolding GetRealm_def reads by (intro go_keeps)

lemma keeps_realms [go_keeps]: "keeps P (getRealms e)" "keeps P (GetRealms e b)" "keeps P (SendRoutesToIDP e)"
  unfolding SendRoutesToIDP_def GetRealms_def getRealms_def appendCommonExternalRoutes_def
    appendTenantExternalRoutes_def reads by (intro go_keeps)+

lemma keeps_from_tm [go_keeps]: "keeps P (upsertTenantFromTM e tenant)"
  unfolding upsertTenantFromTM_def by (intro go_keeps)

lemma keeps_event_tenants: "keeps P (sync_event_tenants e ty ts)"
  by (induction ts) (auto intro!: go_keeps)

lemma keeps_SyncTenants [go_keeps]: "keeps P (SyncTenantsWithTM e ev)"
  unfolding SyncTenantsWithTM_def by (rule keeps_event_tenants)

lemma keeps_find_service [go_keeps]: "keeps P (findServiceInNamespaces e service ns)"
proof (induction ns)
  case (CompositeNamespace child namespace)
  then show ?case unfolding findServiceInNamespaces.simps reads by (cases child) (auto intro!: go_keeps)
qed

lemma keeps_service_loop: "keeps P (service_loop n e service namespace previous)"
proof (induction n arbitrary: namespace previous)
  case (Suc n)
  then show ?case unfolding service_loop.simps by (intro go_keeps)
qed (auto intro: go_keeps)

lemma keeps_is_service [go_keeps]: "keeps P (isServiceInNamespace e service namespace)"
  unfolding isServiceInNamespace_def by (intro go_keeps keeps_service_loop)

lemma keeps_notify [go_keeps]: "keeps P (notify_tenants e ts)"
  by (induction ts) (auto intro!: go_keeps simp: reads)

lemma keeps_pass [go_keeps]: "keeps P (processSynchronization e)"
  unfolding processSynchronization_def delete_stale_routes_def deleteRemovedTenants_def refreshSettings_def
    create_missing_routes_def create_route_if_missing_def reads
  by (intro go_keeps)

lemma keeps_await_update: "keeps P (await_update n e last_update before)"
  by (induction n) (auto intro!: go_keeps)

lemma keeps_api_await [go_keeps]: "keeps P f \<Longrightarrow> keeps P (api_await env async f)"
  unfolding api_await_def AwaitAction_def by (intro go_keeps keeps_await_update)

lemma keeps_await_value [go_keeps]:
  fixes f :: "('x sync_state, 'a) go"
  assumes "keeps P f"
  shows "keeps P (await_value env async f)"
proof (rule keepsI)
  fix s assume s: "P s"
  obtain r t where f: "f s = (r, t)" by fastforce
  with keepsD [OF assms s] have t: "P t" by simp
  have k: "keeps P (gbind (api_await env async (\<lambda>_. (q, t))) g)" if "\<And>x. keeps P (g x)"
    for q :: "unit result" and g :: "unit \<Rightarrow> ('x sync_state, 'a) go"
    by (intro go_keeps that) (simp add: keeps_def t)
  show "P (snd (await_value env async f s))"
    using f t by (cases r) (simp_all add: await_value_def keepsD [OF k s] go_keeps)
qed

lemma keeps_answers [go_keeps]:
  "keeps P (respondWithJson code body)" "keeps P (respondWithError code msg)"
  "keeps P (respondWithoutBody code)" "keeps P (respondWithString code msg)"
  by (simp_all add: respondWithJson_def respondWithError_def respondWithoutBody_def respondWithString_def keeps_gret)

lemma keeps_or_status [go_keeps]: "keeps P m \<Longrightarrow> (\<And>x. keeps P (f x)) \<Longrightarrow> keeps P (or_status code m f)"
  unfolding or_status_def by (intro go_keeps)

lemma keeps_with_tenant_id [go_keeps]: "(\<And>k. keeps P (f k)) \<Longrightarrow> keeps P (with_tenant_id rq f)"
  unfolding with_tenant_id_def Let_def by (intro go_keeps)

lemma keeps_answer_services [go_keeps]: "keeps P m \<Longrightarrow> keeps P (answer_services m)"
  unfolding answer_services_def by (intro go_keeps)

lemma keeps_collision_check [go_keeps]: "keeps P (CheckCollisions e t)"
  unfolding CheckCollisions_def by (intro go_keeps)

lemma keeps_restore: "keeps P (api_RestoreTenantAlias env rq)"
  unfolding api_RestoreTenantAlias_def nil_dereference_def Let_def by (intro go_keeps)

lemma keeps_handle: "keeps P (handle env h rq)"
proof (cases h)
  case RestoreTenantAliasH
  then show ?thesis by (simp add: keeps_restore)
qed (auto simp: query_handlers change_handlers Let_def intro!: go_keeps)


end

section \<open>The invariant\<close>

text \<open>The channel is within its capacity and the cache holds active tenants under their external ids.\<close>

definition well_running :: "'x sync_state \<Rightarrow> bool" where
  "well_running s \<longleftrightarrow> yBus s \<le> bus_capacity \<and> active_only (yActive s)"

interpretation running: outer_part well_running
  by unfold_locales (simp_all add: well_running_def)

lemma keeps_guarded: "keeps P m \<Longrightarrow> keeps P (guarded m)"
  by (simp add: keeps_def guarded_def)

lemma keeps_frame:
  assumes "\<And>callback ev. keeps P (call callback ev)"
  shows "keeps P (handle_frame parse call m body)"
  unfolding handle_frame_def by (intro go_keeps keeps_guarded assms)

lemma well_running_active: "keeps well_running (on_active (ActualizeActiveTenantsCache ev))"
  using active_only_keeps [of ev] by (auto simp: keeps_def on_active_def gzoom_snd well_running_def)

lemma well_running_callback: "keeps well_running (run_callback e callback ev)"
  by (cases callback)
    (auto simp: GetUpdateRedirectURIsInIDPHandler_def intro!: running.keeps_SyncTenants running.keeps_wrapped
      running.keeps_realms well_running_active)

lemma well_running_turn:
  fixes e :: "'x sync_env"
  shows "keeps well_running (sync_turn e)"
proof (rule keepsI)
  fix s :: "'x sync_state" assume s: "well_running s"
  then have "well_running (s\<lparr>yBus := yBus s - 1\<rparr>)" unfolding well_running_def by auto
  from keepsD [OF keeps_ignoring [OF running.keeps_pass] this] s
  show "well_running (snd (sync_turn e s))" by (simp add: sync_turn_def)
qed

lemma well_running_react:
  assumes s: "well_running s"
  shows "well_running (react env parse i s)"
proof (cases i)
  case (RequestIn h rq)
  with keepsD [OF running.keeps_handle s] show ?thesis by (simp add: react_def Let_def)
next
  case SignalIn
  with keepsD [OF well_running_turn s] show ?thesis by (simp add: react_def Let_def)
next
  case TickIn
  have "keeps well_running (auto_sync_tick e)" for e
    unfolding auto_sync_tick_def
    by (intro keeps_gbind running.keeps_Sync keeps_ignoring running.keeps_realms)
  from keepsD [OF this s] TickIn show ?thesis by (simp add: react_def Let_def)
next
  case (FrameIn body)
  with keepsD [OF keeps_frame [OF well_running_callback] s] show ?thesis by (simp add: react_def Let_def)
next
  case (RouteIn u)
  have "keeps well_running (with_callbacks (\<lambda>u. on_pm (updateRoutesCache pm c u)) [route_callback e] u)" for pm c e
    unfolding with_callbacks_def route_callback_def gfor.simps
    by (intro keeps_gbind keeps_gtry keeps_gret running.keeps_pm running.keeps_wrapped running.keeps_realms)
  from keepsD [OF this s] RouteIn show ?thesis by (simp add: react_def Let_def)
qed (use keepsD [OF running.keeps_pm s] in \<open>simp_all add: react_def Let_def\<close>)

text \<open>
  C6: Whatever requests, signals, ticks, events of the tenant manager and messages of the platform
  arrive, in whatever order and however each of them ends, no more signals are pending than the
  channel holds, and the cache of active tenants has only active tenants, each under its external id.
\<close>

theorem service_invariant:
  assumes "(service_step env parse)\<^sup>*\<^sup>* s t" and "yBus s \<le> 16" and "active_only (yActive s)"
  shows "yBus t \<le> 16 \<and> active_only (yActive t)"
proof -
  from assms(1) have "well_running s \<longrightarrow> well_running t"
  proof (induction rule: rtranclp_induct)
    case (step t u)
    from step.hyps(2) show ?case by (elim service_stepE) (use step.IH well_running_react running.inner in blast)+
  qed simp
  with assms(2,3) show ?thesis by (simp add: well_running_def bus_capacity_def)
qed

lemma service_invariant_witness:
  "active_only (yActive (react (mem_api 200) (\<lambda>b. Some \<lparr>twType = EventTypeSubscribed,
      twTenants = Some [sample_tm_tenant StatusActive, sample_tm_tenant StatusSuspended]\<rparr>)
      (FrameIn ''f'') (mem_state [] [] [])))"
proof -
  let ?s = "mem_state [] [] []"
  let ?parse = "\<lambda>b. Some \<lparr>twType = EventTypeSubscribed,
      twTenants = Some [sample_tm_tenant StatusActive, sample_tm_tenant StatusSuspended]\<rparr>"
  have "(service_step (mem_api 200) ?parse)\<^sup>*\<^sup>* ?s (react (mem_api 200) ?parse (FrameIn ''f'') ?s)"
    by (intro r_into_rtranclp service_step.input)
  from service_invariant [OF this] show ?thesis by (simp add: mem_state_def active_only_def)
qed

section \<open>One event\<close>

lemma subscribed_callbacks:
  "map_of (subscriptions satellite) ty = (if ty \<in> set eventTypes
     then Some ((if satellite then [SyncTenantsCb] else []) @ [ActualizeCacheCb] @
       (if ty \<noteq> EventTypeDeleted then [RedirectURIsCb] else []))
     else None)"
  by (simp add: subscriptions_def SubscribeToAllExcept_def SubscribeToAll_def SubscribeToEvent_def eventTypes_def
      event_type_defs)

lemma cache_part: "outer_part (\<lambda>s. yActive s = a)"
  by unfold_locales simp_all

lemma callback_active:
  "yActive (snd (guarded (run_callback e callback ev) s)) =
     (if callback = ActualizeCacheCb then snd (ActualizeActiveTenantsCache ev (yActive s)) else yActive s)"
proof (cases "callback = ActualizeCacheCb")
  case True
  then show ?thesis by (simp add: guarded_def on_active_def gzoom_snd)
next
  case False
  then have "keeps (\<lambda>t. yActive t = yActive s) (run_callback e callback ev)"
    by (cases callback) (auto simp: GetUpdateRedirectURIsInIDPHandler_def
      intro!: outer_part.keeps_SyncTenants [OF cache_part] outer_part.keeps_wrapped [OF cache_part]
        outer_part.keeps_realms [OF cache_part])
  from keepsD [OF this, of s] False show ?thesis by (simp add: guarded_def)
qed

lemma guarded_run: "guarded m s = (Ok (), snd (guarded m s))"
  by (simp add: guarded_def)

lemma callbacks_active:
  "yActive (snd (gfor cs (\<lambda>callback. guarded (run_callback e callback ev)) s)) =
     (if count_list cs ActualizeCacheCb = 0 then yActive s
      else ((\<lambda>a. snd (ActualizeActiveTenantsCache ev a)) ^^ count_list cs ActualizeCacheCb) (yActive s))"
proof (induction cs arbitrary: s)
  case (Cons c cs)
  have "snd (gfor (c # cs) (\<lambda>callback. guarded (run_callback e callback ev)) s) =
      snd (gfor cs (\<lambda>callback. guarded (run_callback e callback ev)) (snd (guarded (run_callback e c ev) s)))"
    by (simp add: gbind_run guarded_def)
  moreover have "((\<lambda>a. snd (ActualizeActiveTenantsCache ev a)) ^^ n) (snd (ActualizeActiveTenantsCache ev a)) =
      snd (ActualizeActiveTenantsCache ev (((\<lambda>a. snd (ActualizeActiveTenantsCache ev a)) ^^ n) a))" for n a
    using funpow_swap1 [of "\<lambda>a. snd (ActualizeActiveTenantsCache ev a)" n a] by simp
  ultimately show ?case
    using Cons.IH [of "snd (guarded (run_callback e c ev) s)"] by (auto simp: callback_active)
qed (simp add: gret_run)

text \<open>
  C27: A frame that carries tenants updates the cache of active tenants exactly as its event says, in
  both modes and for every type of event the service subscribes to, whatever the other callbacks of
  the event do, be it to fail or to panic; a frame without a body, one that cannot be decoded, one
  with no tenants or with another type leaves the cache as it is.
\<close>

theorem frame_updates_cache:
  "yActive (react env parse (FrameIn body) s) =
     (case (if body = [] then None else parse body) of
        Some ev \<Rightarrow> if twTenants ev \<noteq> None \<and> twType ev \<in> set eventTypes
          then snd (ActualizeActiveTenantsCache ev (yActive s)) else yActive s
      | None \<Rightarrow> yActive s)"
  by (auto simp: react_def Let_def handle_frame_def subscribed_callbacks callbacks_active gret_run
      simp del: gfor.simps split: option.split)

section \<open>The start and the end\<close>

lemma must_strings_all:
  "must_strings cfg keys = Ok vs \<Longrightarrow> (\<forall>key \<in> set keys. cfg key \<noteq> []) \<and> vs = map cfg keys"
  by (induction keys arbitrary: vs) (auto simp: MustString_def split: result.splits if_splits)

lemma create_clients_needs:
  assumes "create_clients env s = (Ok e, t)"
  shows "satellite_ok env \<and> (\<forall>key \<in> set mail_keys. reConfig env key \<noteq> []) \<and>
    reConfig env ''microservice.namespace'' \<noteq> [] \<and> getGatewayUrl env \<noteq> None \<and>
    seCompositeSatellite e = (reGetenv env ''COMPOSITE_PLATFORM'' = ''true'')"
  using assms
  by (auto simp: create_clients_def go_simps gresult_def MustString_def NewMailSender_def configured_def
      split: option.splits prod.splits result.splits if_splits dest: must_strings_all)

text \<open>What the start needs, and what it does with a synchronizer once it has one.\<close>

definition start_ok :: "'x run_env \<Rightarrow> 'x sync_state \<Rightarrow> bool" where
  "start_ok env s \<longleftrightarrow> (\<exists>u. open_database env s = (Ok (), u)) \<and> satellite_ok env \<and> getGatewayUrl env \<noteq> None \<and>
     (\<forall>key \<in> set (''microservice.namespace'' # mail_keys). reConfig env key \<noteq> [])"

lemma serve_code:
  "serve_until_stopped env e s = (Ok (Some (case fst (reServe env e s) of
     None \<Rightarrow> 0 | Some SIGINT \<Rightarrow> 130 | Some SIGTERM \<Rightarrow> 143 | Some OtherSignal \<Rightarrow> 0)), snd (reServe env e s))"
  by (auto simp: serve_until_stopped_def RegisterShutdownHook_def shutdown_code_def
      split: prod.splits option.splits os_signal.splits)

lemma RunService_run:
  assumes "RunService env s = Some (Ok code, t)"
  obtains u e v e' started w where "open_database env s = (Ok (), u)" and "create_clients env u = (Ok e, v)"
    and "New e (reConfig env ''tenant.default.domain.zone'') (reConfig env ''service.url.default.proto'') v =
      Some (Ok (e', started), w)"
    and "gbind Sync (\<lambda>_. gtry (reApp env e') (\<lambda>r. case r of
      Inl err \<Rightarrow> gret None
    | Inr _ \<Rightarrow> gbind (on_world (gmodify (reRegister env gateway_routes))) (\<lambda>_. serve_until_stopped env e'))) w =
      (Ok code, t)"
proof -
  from assms obtain u e v where u: "open_database env s = (Ok (), u)" and v: "create_clients env u = (Ok e, v)"
    by (auto simp: RunService_def gbind_run split: prod.splits result.splits)
  then have first: "gbind (open_database env) (\<lambda>_. create_clients env) s = (Ok e, v)" by (simp add: gbind_run)
  from assms obtain r w where
    w: "New e (reConfig env ''tenant.default.domain.zone'') (reConfig env ''service.url.default.proto'') v = Some (r, w)"
    by (auto simp: RunService_def first split: option.splits)
  with assms obtain e' started where "r = Ok (e', started)"
    by (cases r) (auto simp: RunService_def first)
  with assms w that [OF u v, of e' started w] show thesis by (simp add: RunService_def first)
qed

text \<open>
  C39: The service comes to serve requests and ends with an exit code, or gives up because the web
  framework could not be set up, only if the database could be opened and migrated, the required
  settings are present, the gateway's address can be parsed and, for a satellite, the
  baseline's name is known. If the web framework can be set up the exit code is 130 exactly when the
  signal that stopped the service was an interrupt, 143 exactly when it was a termination, and 0 in
  every other case; if not, there is no exit code. In a platform that is not composite the start
  always comes to an end.
\<close>

theorem start_requirements:
  "(RunService env s = Some (Ok code, t) \<longrightarrow> start_ok env s \<and>
      (\<exists>u e0 v e started w. open_database env s = (Ok (), u) \<and> create_clients env u = (Ok e0, v) \<and>
         New e0 (reConfig env ''tenant.default.domain.zone'') (reConfig env ''service.url.default.proto'') v =
           Some (Ok (e, started), w) \<and>
         (case reApp env e (snd (Sync w)) of
         (Ok _, x) \<Rightarrow> \<exists>y. y = snd (on_world (gmodify (reRegister env gateway_routes)) x) \<and>
           t = snd (reServe env e y) \<and>
           code = Some (case fst (reServe env e y) of
             None \<Rightarrow> 0 | Some SIGINT \<Rightarrow> 130 | Some SIGTERM \<Rightarrow> 143 | Some OtherSignal \<Rightarrow> 0)
       | (Err _, x) \<Rightarrow> code = None \<and> t = x
       | (Panic _, _) \<Rightarrow> False))) \<and>
   (reGetenv env ''COMPOSITE_PLATFORM'' \<noteq> ''true'' \<longrightarrow> RunService env s \<noteq> None)"
proof (intro conjI impI)
  assume "reGetenv env ''COMPOSITE_PLATFORM'' \<noteq> ''true''"
  then show "RunService env s \<noteq> None"
    using create_clients_needs [of env]
    by (auto simp: RunService_def New_def new_settings_def Let_def gbind_run split: prod.splits result.splits)
next
  assume "RunService env s = Some (Ok code, t)"
  from RunService_run [OF this] obtain u e v e' started w where u: "open_database env s = (Ok (), u)"
    and v: "create_clients env u = (Ok e, v)"
    and new: "New e (reConfig env ''tenant.default.domain.zone'') (reConfig env ''service.url.default.proto'') v =
      Some (Ok (e', started), w)"
    and run: "gbind Sync (\<lambda>_. gtry (reApp env e') (\<lambda>r. case r of
      Inl err \<Rightarrow> gret None
    | Inr _ \<Rightarrow> gbind (on_world (gmodify (reRegister env gateway_routes))) (\<lambda>_. serve_until_stopped env e'))) w =
      (Ok code, t)" by metis
  from u create_clients_needs [OF v] show "start_ok env s" by (simp add: start_ok_def)
  obtain w' where w': "Sync w = (Ok (), w')" using run by (auto simp: gbind_run split: prod.splits result.splits)
  with run have app: "gtry (reApp env e') (\<lambda>r. case r of
      Inl err \<Rightarrow> gret None
    | Inr _ \<Rightarrow> gbind (on_world (gmodify (reRegister env gateway_routes))) (\<lambda>_. serve_until_stopped env e')) w' =
      (Ok code, t)" by (simp add: gbind_run)
  obtain q x where q: "reApp env e' w' = (q, x)" by fastforce
  have reg: "on_world (gmodify (reRegister env gateway_routes)) x =
      (Ok (), snd (on_world (gmodify (reRegister env gateway_routes)) x))"
    by (simp add: on_world_def on_pm_def on_rest_def gzoom_run gmodify_run)
  show "\<exists>u e0 v e started w. open_database env s = (Ok (), u) \<and> create_clients env u = (Ok e0, v) \<and>
         New e0 (reConfig env ''tenant.default.domain.zone'') (reConfig env ''service.url.default.proto'') v =
           Some (Ok (e, started), w) \<and>
         (case reApp env e (snd (Sync w)) of
         (Ok _, x) \<Rightarrow> \<exists>y. y = snd (on_world (gmodify (reRegister env gateway_routes)) x) \<and>
           t = snd (reServe env e y) \<and>
           code = Some (case fst (reServe env e y) of
             None \<Rightarrow> 0 | Some SIGINT \<Rightarrow> 130 | Some SIGTERM \<Rightarrow> 143 | Some OtherSignal \<Rightarrow> 0)
       | (Err _, x) \<Rightarrow> code = None \<and> t = x
       | (Panic _, _) \<Rightarrow> False)"
    using app q u v new w'
    by (intro exI [of _ u] exI [of _ e] exI [of _ v] exI [of _ e'] exI [of _ started] exI [of _ w], cases q)
      (simp_all add: gtry_run gret_run gbind_run, subst (asm) reg, simp add: serve_code)
qed

text \<open>Every path a gateway leads to is the beginning of a path of the interface.\<close>

definition fiber_path :: "string \<Rightarrow> string" where
  "fiber_path path = ReplaceAll (ReplaceAll path ''{'' '':'') ''}'' []"

lemma gateway_targets_served:
  "\<forall>(outside, inside, ty) \<in> set gateway_routes.
     \<exists>(verb, path, h) \<in> set api_routes. HasPrefix path (fiber_path inside)"
  by code_simp

text \<open>A service over tables in memory with every setting present, stopped by a termination signal.\<close>

definition idle_migrator :: "'x migrator" where
  "idle_migrator = \<lparr>mgInit = gret (), mgSchemas = gret 0, mgApplied = (\<lambda>x. ([], x)), mgMarkApplied = (\<lambda>name. gret ()),
     mgConn = gret (), mgCloseConn = gret (), mgBeginTx = gret (), mgRollback = gret (), mgLock = gret (),
     mgMigrate = (\<lambda>names. gret True)\<rparr>"

definition mem_run :: "mem_table run_env" where
  "mem_run = \<lparr>reConfig = (\<lambda>key. if key = ''apigateway.internal.url'' then ''http://gw:8080'' else ''ns''),
     reGetenv = (\<lambda>name. []), reDefaultGateway = [], reDatabase = (\<lambda>classifier. gret ()),
     reMigrator = idle_migrator, reRegistered = [], reSprintf = (\<lambda>f args. f), reSync = mem_sync 200,
     reApp = (\<lambda>e. gret ()), reRegister = (\<lambda>routes x. x), reServe = (\<lambda>e s. (Some SIGTERM, s))\<rparr>"

lemma start_requirements_witness:
  "start_ok mem_run (mem_state [] [] []) \<and> RunService mem_run (mem_state [] [] []) \<noteq> None \<and>
   (\<exists>t. RunService mem_run (mem_state [] [] []) = Some (Ok (Some 143), t))"
proof -
  have env: "reGetenv mem_run ''COMPOSITE_PLATFORM'' \<noteq> ''true''" by (simp add: mem_run_def)
  have "map_option fst (RunService mem_run (mem_state [] [] [])) = Some (Ok (Some 143))" by code_simp
  then obtain t where "RunService mem_run (mem_state [] [] []) = Some (Ok (Some 143), t)"
    by (cases "RunService mem_run (mem_state [] [] [])") auto
  with start_requirements [of mem_run "mem_state [] [] []" "Some 143" t] env show ?thesis by blast
qed

end
