(* ===== verification/EndToEnd.thy ===== *)
theory EndToEnd
  imports SyncConverge ServiceTheorems
begin

text \<open>
  From a request to the platform: what becomes of a stored tenant when the loop that waits for signals
  takes the signal the request has sent.
\<close>

section \<open>The signal of a request\<close>

context sync_world begin

lemma upsert_seen_bus:
  assumes "upsert_seen e t s = (Ok seen, s')"
  shows "yBus s' = signalled (yBus s)"
proof -
  have "Upsert e t s = (Ok (), s')"
    using assms by (simp add: upsert_seen_Upsert [symmetric] gbind_run gret_run)
  from Upsert_run [OF this] show ?thesis by simp
qed

end

lemma signalled_pos: "signalled b > 0"
  by (simp add: signalled_def bus_capacity_def)

lemma upsert_signals:
  assumes "sync_world (aeSync env) db" and "unless_false rq Async"
    and "handle env UpsertH rq s = (Ok r, s1)" and "status r = 201"
  shows "\<exists>data u. aeTenantDns env (rqBody rq) = Some data \<and> same_tenant (FlattenAddressesToHosts data) u \<and>
    table db s1 = (table db s)(tTenantId data \<mapsto> u) \<and> yBus s1 > 0"
proof (cases "aeTenantDns env (rqBody rq)")
  case None
  with upsert_unreadable [OF assms(3)] assms(4) show ?thesis by simp
next
  case (Some data)
  let ?data = "FlattenAddressesToHosts data"
  obtain q t where q: "upsert_seen (aeSync env) ?data s = (q, t)" by (cases "upsert_seen (aeSync env) ?data s")
  have same: "tTenantId ?data = tTenantId data" by (simp add: FlattenAddressesToHosts_def)
  from upsert_handled [OF assms(2,3) Some q] assms(4) obtain seen where "q = Ok seen" "s1 = t" by (cases q) auto
  with sync_world.upsert_seen_run [OF assms(1) q] sync_world.upsert_seen_bus [OF assms(1)] q Some same
  show ?thesis by (auto simp: signalled_pos)
qed

section \<open>The turn that takes it\<close>

lemma taken_signal:
  "own_routes e es (s\<lparr>yBus := b\<rparr>) = own_routes e es s" "table db (s\<lparr>yBus := b\<rparr>) = table db s"
  "knows_services e n svs (s\<lparr>yBus := b\<rparr>) = knows_services e n svs s"
  "stored_tenants db (s\<lparr>yBus := b\<rparr>) = stored_tenants db s" "demand db (s\<lparr>yBus := b\<rparr>) = demand db s"
  "plain_tenants e db (s\<lparr>yBus := b\<rparr>) = plain_tenants e db s"
  by (simp_all add: own_routes_def table_def knows_services_def stored_tenants_def demand_def plain_tenants_def)

lemma address_demanded:
  assumes "t \<in> stored_tenants db s" and "tActive t" and "a \<in> set (all_addresses t)"
  shows "Host a \<in> demanded_hosts (demand db s)"
proof -
  from assms(3) obtain t' service where "(t', service, a) \<in> set (wanted_of t)" by (auto simp: all_addresses_wanted)
  with assms(1,2) have "(t', service, a) \<in> demand db s" by (auto simp: demand_def)
  then show ?thesis unfolding demanded_hosts_def by force
qed

lemma turn_settles:
  assumes "sync_world e db" and "answering e" and "own_routes e es s" and "well_keyed e es" and "plain_tenants e db s"
    and "no_clash e (demand db s) (kept_routes (demand db s) es)" and "yBus s > 0"
  shows "\<exists>s' es'. sync_turn e s = (Ok (), s') \<and> own_routes e es' s' \<and> table db s' = table db s \<and>
    yBus s' = yBus s - 1 \<and> demanded_hosts (demand db s) \<subseteq> hosts_in es' \<and>
    (\<forall>(k, r) \<in> set es'. IsRouteManageable r \<longrightarrow> ToLower (route_host r) \<in> ToLower ` demanded_hosts (demand db s))"
proof -
  let ?s = "s\<lparr>yBus := yBus s - 1\<rparr>"
  have "own_routes e es ?s" "plain_tenants e db ?s" "no_clash e (demand db ?s) (kept_routes (demand db ?s) es)"
    using assms(3,5,6) by (simp_all only: taken_signal)
  from pass_settles [OF assms(1,2) this(1) assms(4) this(2,3)] obtain s' es' where
    p: "processSynchronization e ?s = (Ok (), s')" "own_routes e es' s'" "table db s' = table db s"
    "hosts_in es' = hosts_in (kept_routes (demand db s) es) \<union> demanded_hosts (demand db s)"
    "\<forall>(k, r) \<in> set es'. IsRouteManageable r \<longrightarrow> ToLower (route_host r) \<in> ToLower ` demanded_hosts (demand db s)"
    unfolding taken_signal by (elim exE conjE) (rule that; assumption)
  have "sync_turn e s = (Ok (), s')" using assms(7) p(1) by (simp add: sync_turn_def ignoring_def go_simps)
  moreover have "yBus s' = yBus s - 1"
    using keepsD [OF sync_world.keeps_pass [OF assms(1)], of "table db ?s" "yBus ?s" ?s] p(1)
    by (simp add: lost_flagged_def only_flagged_refl)
  ultimately show ?thesis using p(2-5) by blast
qed

text \<open>
  C2: The answer 201 to an asynchronous request to store an active tenant leads to routes: if the platform
  and the database answer, and the tenants stored then are as a pass needs them, the next turn of the loop
  leaves a route in the own namespace for every address of the stored tenant, takes one signal, and leaves
  no route of a tenant with a host that no active tenant has.
\<close>

theorem stored_tenant_routed:
  assumes "sync_world (aeSync env) db" and "unless_false rq Async"
    and "handle env UpsertH rq s = (Ok r, s1)" and "status r = 201"
    and "answering (aeSync env)" and "own_routes (aeSync env) es s1" and "well_keyed (aeSync env) es"
    and "plain_tenants (aeSync env) db s1"
    and "no_clash (aeSync env) (demand db s1) (kept_routes (demand db s1) es)"
  shows "\<exists>data u es'. aeTenantDns env (rqBody rq) = Some data \<and> same_tenant (FlattenAddressesToHosts data) u \<and>
    table db s1 (tTenantId data) = Some u \<and> own_routes (aeSync env) es' (react env parse SignalIn s1) \<and>
    table db (react env parse SignalIn s1) = table db s1 \<and> yBus (react env parse SignalIn s1) = yBus s1 - 1 \<and>
    (tActive data \<longrightarrow> (\<forall>a \<in> set (all_addresses u). Host a \<in> hosts_in es')) \<and>
    (\<forall>(k, r) \<in> set es'. IsRouteManageable r \<longrightarrow>
      ToLower (route_host r) \<in> ToLower ` demanded_hosts (demand db s1))"
proof -
  from upsert_signals [OF assms(1-4)] obtain data u where
    u: "aeTenantDns env (rqBody rq) = Some data" "same_tenant (FlattenAddressesToHosts data) u"
    "table db s1 = (table db s)(tTenantId data \<mapsto> u)" and bus: "yBus s1 > 0" by blast
  from turn_settles [OF assms(1,5-9) bus] obtain s2 es' where
    t: "sync_turn (aeSync env) s1 = (Ok (), s2)" "own_routes (aeSync env) es' s2" "table db s2 = table db s1"
    "yBus s2 = yBus s1 - 1" and hosts: "demanded_hosts (demand db s1) \<subseteq> hosts_in es'"
    and own: "\<forall>(k, r) \<in> set es'. IsRouteManageable r \<longrightarrow> ToLower (route_host r) \<in> ToLower ` demanded_hosts (demand db s1)"
    by (elim exE conjE) (rule that; assumption)
  have s2: "react env parse SignalIn s1 = s2" by (simp add: react_def t(1))
  have id: "tTenantId u = tTenantId data" "tActive u = tActive data"
    using u(2) by (auto simp: same_tenant_def FlattenAddressesToHosts_def)
  then have "u \<in> stored_tenants db s1" by (simp add: stored_tenants_def u(3))
  from address_demanded [OF this] id(2) hosts
  have "tActive data \<longrightarrow> (\<forall>a \<in> set (all_addresses u). Host a \<in> hosts_in es')" by blast
  moreover have "table db s1 (tTenantId data) = Some u" by (simp add: u(3))
  ultimately show ?thesis unfolding s2 using u(1,2) t(2-4) own by blast
qed

text \<open>The platform that accepts everything, a request with a tenant of one service, and no tenant yet.\<close>

definition settling_api :: "mem_table api_env" where
  "settling_api = (mem_api 200)\<lparr>aeSync := settling_sync, aeTenantDns := (\<lambda>b. Some (shop_tenant ''a.com''))\<rparr>"

definition before_upsert :: "mem_table sync_state" where
  "before_upsert = mem_state [] [named_service ''shop'' NilMap] []"

definition after_upsert :: "mem_table sync_state" where
  "after_upsert = snd (handle settling_api UpsertH (api_request [] [] []) before_upsert)"

lemma after_upsert_runs:
  "case fst (handle settling_api UpsertH (api_request [] [] []) before_upsert) of Ok r \<Rightarrow> status r = 201 | _ \<Rightarrow> False"
  "psRoutes (yPm after_upsert) = GoMap [(''ns'', GoMap [])]"
  "psServices (yPm after_upsert) = GoMap [(''ns'', GoMap [(''shop'', named_service ''shop'' NilMap)])]"
  "psRest (yPm after_upsert) = [(''t1'', shop_tenant ''a.com'')]"
  by code_simp+

lemma after_upsert_tenants: "stored_tenants mem_db after_upsert = {shop_tenant ''a.com''}"
  by (auto simp: stored_tenants_def table_def after_upsert_runs(4) mem_db_def shop_tenant_def split: if_splits)

lemma after_upsert_demand: "demand mem_db after_upsert = {(shop_tenant ''a.com'', ''shop'', Address ''a.com'')}"
  using wanted_shop [of "''a.com''"] by (simp add: demand_def after_upsert_tenants wanted_def) (simp add: shop_tenant_def)

lemma stored_tenant_routed_witness:
  "\<exists>es'. own_routes settling_sync es' (react settling_api (\<lambda>b. None) SignalIn after_upsert) \<and> ''a.com'' \<in> hosts_in es'"
proof -
  have host: "Host (Address ''a.com'') = ''a.com''" "ToLower ''a.com'' = ''a.com''" by code_simp+
  obtain r where r: "handle settling_api UpsertH (api_request [] [] []) before_upsert = (Ok r, after_upsert)" "status r = 201"
    using after_upsert_runs(1) by (cases "fst (handle settling_api UpsertH (api_request [] [] []) before_upsert)")
      (auto simp: after_upsert_def prod_eq_iff simp del: handle.simps)
  have api: "aeSync settling_api = settling_sync" "aeTenantDns settling_api b = Some (shop_tenant ''a.com'')" for b
    by (simp_all add: settling_api_def)
  have async: "unless_false (api_request [] [] []) Async" by (simp add: unless_false_def api_request_def Async_def)
  have routes: "own_routes settling_sync [] after_upsert" by (simp add: own_routes_def after_upsert_runs(2))
  have keys: "well_keyed settling_sync []" by (simp add: well_keyed_def)
  have "knows_services settling_sync ''ns'' [named_service ''shop'' NilMap] after_upsert"
    by (simp add: knows_services_def after_upsert_runs(3))
  then have plain: "plain_tenants settling_sync mem_db after_upsert"
    unfolding plain_tenants_def after_upsert_demand after_upsert_tenants
    by (auto simp: host shop_tenant_def named_service_def zero_tenant_def)
  have clash: "no_clash settling_sync (demand mem_db after_upsert) (kept_routes (demand mem_db after_upsert) [])"
    by (simp add: no_clash_def kept_routes_def after_upsert_demand)
  obtain data u es' where d: "aeTenantDns settling_api (rqBody (api_request [] [] [])) = Some data"
    and u: "table mem_db after_upsert (tTenantId data) = Some u"
    and es': "own_routes settling_sync es' (react settling_api (\<lambda>b. None) SignalIn after_upsert)"
    and hosts: "tActive data \<longrightarrow> (\<forall>a \<in> set (all_addresses u). Host a \<in> hosts_in es')"
    using stored_tenant_routed [where parse = "\<lambda>b. None", of settling_api mem_db "api_request [] [] []"
          before_upsert r after_upsert "[]",
        unfolded api(1), OF settling.sync_world_axioms async r settling_answers routes keys plain clash]
    by (elim exE conjE) (rule that; assumption)
  have data: "data = shop_tenant ''a.com''" using d by (simp add: api(2))
  have "u = shop_tenant ''a.com''"
    using u by (simp add: data table_def after_upsert_runs(4) mem_db_def) (auto simp: shop_tenant_def)
  then have "Address ''a.com'' \<in> set (all_addresses u)" by (simp add: all_addresses_def shop_tenant_def)
  moreover have "tActive data" by (simp add: data shop_tenant_def)
  ultimately have "''a.com'' \<in> hosts_in es'" using hosts host by metis
  with es' show ?thesis by blast
qed

end
