(* ===== verification/TmWatch.thy ===== *)
theory TmWatch
  imports Tm
begin

text \<open>
  The goroutine of \<open>StartWatching\<close> beside a call of \<open>StopWatching\<close> (\<open>tm/watch.go\<close>), one step of either at a
  time. A step is an access to the fields the two share, a call of the connector, a frame, or the
  exchange over the channel \<open>quit\<close>, which has no buffer: it happens when one side sends and the other
  waits in the \<open>select\<close>. Pauses are not steps: the goroutine may stay in any phase.
\<close>

section \<open>The two sides\<close>

text \<open>
  Where the goroutine is: created, before the test of the outer loop, in the call that connects, after
  it has returned a subscription, in the \<open>select\<close>, on the way out of a connection, or at its end.
\<close>

datatype watch_phase = Spawned | LoopHead | Connecting | Opened | Reading | Closing | Ended

text \<open>
  Where \<open>StopWatching\<close> is: not called, after the flag was cleared, sending on \<open>quit\<close>, in the wait for the
  goroutine, returned from there, or returned because there was no connection.
\<close>

datatype stop_phase = NoStop | Flagged | SendingQuit | Waiting | StoppedAfterWait | StoppedAtOnce

text \<open>
  The fields \<open>watchingActive\<close>, \<open>wsConnected\<close> and the counter of \<open>wg\<close>; \<open>wtData\<close> is what the callbacks change.
\<close>

record 's watcher =
  wtPhase :: watch_phase
  wtStop :: stop_phase
  wtActive :: bool
  wtConnected :: bool
  wtWg :: nat
  wtData :: 's

text \<open>The client after \<open>StartWatching\<close> has returned.\<close>

definition StartWatching :: "'s \<Rightarrow> 's watcher" where
  "StartWatching s = \<lparr>wtPhase = Spawned, wtStop = NoStop, wtActive = True, wtConnected = False, wtWg = 0, wtData = s\<rparr>"

inductive goroutine_step ::
  "(string \<Rightarrow> tenant_watch_event option) \<Rightarrow> ('c \<Rightarrow> tenant_watch_event \<Rightarrow> ('s, unit) go) \<Rightarrow>
     'c callbacks \<Rightarrow> 's watcher \<Rightarrow> 's watcher \<Rightarrow> bool" for parse call m where
  begins: "wtPhase w = Spawned \<Longrightarrow> goroutine_step parse call m w (w\<lparr>wtPhase := LoopHead, wtWg := Suc (wtWg w)\<rparr>)"
| again: "wtPhase w = LoopHead \<Longrightarrow> wtActive w \<Longrightarrow> goroutine_step parse call m w (w\<lparr>wtPhase := Connecting\<rparr>)"
| ends: "wtPhase w = LoopHead \<Longrightarrow> \<not> wtActive w \<Longrightarrow>
    goroutine_step parse call m w (w\<lparr>wtPhase := Ended, wtWg := wtWg w - 1\<rparr>)"
| failed: "wtPhase w = Connecting \<Longrightarrow> goroutine_step parse call m w (w\<lparr>wtPhase := LoopHead\<rparr>)"
| opened: "wtPhase w = Connecting \<Longrightarrow> goroutine_step parse call m w (w\<lparr>wtPhase := Opened\<rparr>)"
| noted: "wtPhase w = Opened \<Longrightarrow> goroutine_step parse call m w (w\<lparr>wtPhase := Reading, wtConnected := True\<rparr>)"
| frame: "wtPhase w = Reading \<Longrightarrow>
    goroutine_step parse call m w (w\<lparr>wtData := snd (handle_frame parse call m body (wtData w))\<rparr>)"
| closed: "wtPhase w = Reading \<Longrightarrow> goroutine_step parse call m w (w\<lparr>wtPhase := Closing\<rparr>)"
| disconnected: "wtPhase w = Closing \<Longrightarrow>
    goroutine_step parse call m w (w\<lparr>wtPhase := LoopHead, wtConnected := False\<rparr>)"

inductive stop_step :: "'s watcher \<Rightarrow> 's watcher \<Rightarrow> bool" where
  clear: "wtStop w = NoStop \<Longrightarrow> stop_step w (w\<lparr>wtStop := Flagged, wtActive := False\<rparr>)"
| check: "wtStop w = Flagged \<Longrightarrow>
    stop_step w (w\<lparr>wtStop := (if wtConnected w then SendingQuit else StoppedAtOnce)\<rparr>)"
| waited: "wtStop w = Waiting \<Longrightarrow> wtWg w = 0 \<Longrightarrow> stop_step w (w\<lparr>wtStop := StoppedAfterWait\<rparr>)"

inductive watch_step ::
  "(string \<Rightarrow> tenant_watch_event option) \<Rightarrow> ('c \<Rightarrow> tenant_watch_event \<Rightarrow> ('s, unit) go) \<Rightarrow>
     'c callbacks \<Rightarrow> 's watcher \<Rightarrow> 's watcher \<Rightarrow> bool" for parse call m where
  goroutine: "goroutine_step parse call m w w' \<Longrightarrow> watch_step parse call m w w'"
| stopping: "stop_step w w' \<Longrightarrow> watch_step parse call m w w'"
| quit: "wtStop w = SendingQuit \<Longrightarrow> wtPhase w = Reading \<Longrightarrow>
    watch_step parse call m w (w\<lparr>wtStop := Waiting, wtPhase := Closing\<rparr>)"

definition watch_reachable ::
  "(string \<Rightarrow> tenant_watch_event option) \<Rightarrow> ('c \<Rightarrow> tenant_watch_event \<Rightarrow> ('s, unit) go) \<Rightarrow>
     'c callbacks \<Rightarrow> 's \<Rightarrow> 's watcher \<Rightarrow> bool" where
  "watch_reachable parse call m s = (watch_step parse call m)\<^sup>*\<^sup>* (StartWatching s)"

inductive_cases goroutine_stepE: "goroutine_step parse call m w w'"
inductive_cases stop_stepE: "stop_step w w'"
inductive_cases watch_stepE: "watch_step parse call m w w'"

lemmas watch_intros = watch_step.goroutine [OF goroutine_step.begins] watch_step.goroutine [OF goroutine_step.again]
  watch_step.goroutine [OF goroutine_step.ends] watch_step.goroutine [OF goroutine_step.failed]
  watch_step.goroutine [OF goroutine_step.opened] watch_step.goroutine [OF goroutine_step.noted]
  watch_step.goroutine [OF goroutine_step.closed] watch_step.goroutine [OF goroutine_step.disconnected]
  watch_step.stopping [OF stop_step.clear] watch_step.stopping [OF stop_step.check]
  watch_step.stopping [OF stop_step.waited] watch_step.quit

section \<open>What always holds\<close>

definition watch_inv :: "'s watcher \<Rightarrow> bool" where
  "watch_inv w \<longleftrightarrow> (wtConnected w \<longleftrightarrow> wtPhase w \<in> {Reading, Closing}) \<and>
     wtWg w = (if wtPhase w \<in> {Spawned, Ended} then 0 else 1) \<and>
     (wtActive w \<longleftrightarrow> wtStop w = NoStop) \<and> (wtPhase w = Ended \<longrightarrow> \<not> wtActive w) \<and>
     (wtStop w = SendingQuit \<longrightarrow> wtPhase w \<in> {Reading, Closing, LoopHead, Ended}) \<and>
     (wtStop w = Waiting \<longrightarrow> wtPhase w \<in> {Closing, LoopHead, Ended}) \<and>
     (wtStop w = StoppedAfterWait \<longrightarrow> wtPhase w = Ended)"

lemma watch_inv_goroutine: "goroutine_step parse call m w w' \<Longrightarrow> watch_inv w \<Longrightarrow> watch_inv w'"
  by (induction rule: goroutine_step.induct) (auto simp: watch_inv_def)

lemma watch_inv_stop: "stop_step w w' \<Longrightarrow> watch_inv w \<Longrightarrow> watch_inv w'"
  by (induction rule: stop_step.induct) (auto simp: watch_inv_def split: if_splits)

lemma watch_inv_step: "watch_step parse call m w w' \<Longrightarrow> watch_inv w \<Longrightarrow> watch_inv w'"
proof (induction rule: watch_step.induct)
  case (quit w)
  then show ?case by (auto simp: watch_inv_def)
qed (auto intro: watch_inv_goroutine watch_inv_stop)

lemma watch_inv_steps: "(watch_step parse call m)\<^sup>*\<^sup>* w w' \<Longrightarrow> watch_inv w \<Longrightarrow> watch_inv w'"
  by (induction rule: rtranclp_induct) (auto intro: watch_inv_step)

lemma watch_reachable_inv: "watch_reachable parse call m s w \<Longrightarrow> watch_inv w"
  unfolding watch_reachable_def
  by (erule watch_inv_steps) (simp add: watch_inv_def StartWatching_def)

section \<open>The events that are handled\<close>

lemma gfor_Ok:
  assumes "\<And>x s. fst (body x s) = Ok ()"
  shows "gfor xs body s = (Ok (), foldl (\<lambda>s x. snd (body x s)) s xs)"
proof (induction xs arbitrary: s)
  case (Cons x xs)
  obtain t where "body x s = (Ok (), t)" using assms [of x s] by (cases "body x s") simp
  with Cons.IH [of t] show ?case by (simp add: gbind_run)
qed (simp add: gret_run)

lemma handle_frame_Ok: "fst (handle_frame parse call m body s) = Ok ()"
  by (simp add: handle_frame_def gret_run gfor_Ok guarded_def split: option.split)

lemma frames_run:
  "gfor bodies (handle_frame parse call m) s =
     (Ok (), foldl (\<lambda>s body. snd (handle_frame parse call m body s)) s bodies)"
  by (rule gfor_Ok) (rule handle_frame_Ok)

text \<open>While the goroutine reads it can handle any frames.\<close>

lemma reading_frames:
  assumes "wtPhase w = Reading"
  shows "(watch_step parse call m)\<^sup>*\<^sup>* w
     (w\<lparr>wtData := foldl (\<lambda>s body. snd (handle_frame parse call m body s)) (wtData w) bodies\<rparr>)"
proof (induction bodies rule: rev_induct)
  case (snoc body bodies)
  let ?w = "w\<lparr>wtData := foldl (\<lambda>s body. snd (handle_frame parse call m body s)) (wtData w) bodies\<rparr>"
  have "watch_step parse call m ?w (?w\<lparr>wtData := snd (handle_frame parse call m body (wtData ?w))\<rparr>)"
    using assms by (intro watch_step.goroutine goroutine_step.frame) simp
  with snoc show ?case by simp
qed simp

text \<open>A new client reaches its first connection.\<close>

definition first_connection :: "'s \<Rightarrow> 's watcher" where
  "first_connection s = (StartWatching s)\<lparr>wtPhase := Reading, wtConnected := True, wtWg := 1\<rparr>"

lemma connects: "(watch_step parse call m)\<^sup>*\<^sup>* (StartWatching s) ((StartWatching s)\<lparr>wtPhase := Opened, wtWg := 1\<rparr>)"
proof -
  let ?s = "StartWatching s"
  let ?a = "?s\<lparr>wtPhase := LoopHead, wtWg := 1\<rparr>" and ?b = "?s\<lparr>wtPhase := Connecting, wtWg := 1\<rparr>"
  have "watch_step parse call m ?s ?a"
    using watch_intros(1) [of ?s parse call m] by (simp add: StartWatching_def)
  moreover have "watch_step parse call m ?a ?b"
    using watch_intros(2) [of ?a parse call m] by (simp add: StartWatching_def)
  moreover have "watch_step parse call m ?b (?s\<lparr>wtPhase := Opened, wtWg := 1\<rparr>)"
    using watch_intros(5) [of ?b parse call m] by (simp add: StartWatching_def)
  ultimately show ?thesis
    by (intro converse_rtranclp_into_rtranclp [of _ ?s ?a] converse_rtranclp_into_rtranclp [of _ ?a ?b] r_into_rtranclp)
qed

lemma connects_reading: "(watch_step parse call m)\<^sup>*\<^sup>* (StartWatching s) (first_connection s)"
  using connects [of parse call m s] watch_intros(6) [of "(StartWatching s)\<lparr>wtPhase := Opened, wtWg := 1\<rparr>" parse call m]
  by (simp add: first_connection_def) (erule rtranclp.rtrancl_into_rtrancl, simp add: StartWatching_def)

section \<open>A stop that is heard\<close>

text \<open>The steps that are left until \<open>StopWatching\<close> returns.\<close>

definition stop_left :: "'s watcher \<Rightarrow> nat" where
  "stop_left w = (if wtStop w \<noteq> Waiting then 0
     else case wtPhase w of Closing \<Rightarrow> 3 | LoopHead \<Rightarrow> 2 | _ \<Rightarrow> 1)"

abbreviation heard :: "'s watcher \<Rightarrow> bool" where
  "heard w \<equiv> watch_inv w \<and> wtStop w \<in> {Waiting, StoppedAfterWait}"

lemma heard_goroutine:
  "goroutine_step parse call m w v \<Longrightarrow> heard w \<Longrightarrow>
     heard v \<and> wtStop w = Waiting \<and> wtData v = wtData w \<and> stop_left w = Suc (stop_left v)"
  by (induction rule: goroutine_step.induct) (auto simp: watch_inv_def stop_left_def)

lemma heard_stop:
  "stop_step w v \<Longrightarrow> heard w \<Longrightarrow>
     heard v \<and> wtStop w = Waiting \<and> wtData v = wtData w \<and> stop_left w = Suc (stop_left v)"
  by (induction rule: stop_step.induct) (auto simp: watch_inv_def stop_left_def split: if_splits)

lemma heard_step:
  assumes "watch_step parse call m w v" and "heard w"
  shows "heard v \<and> wtStop w = Waiting \<and> wtData v = wtData w \<and> stop_left w = Suc (stop_left v)"
  using assms(1)
proof cases
  case quit
  with assms(2) show ?thesis by simp
qed (use assms(2) heard_goroutine heard_stop in blast)+

lemma heard_steps:
  "(watch_step parse call m ^^ n) w v \<Longrightarrow> heard w \<Longrightarrow>
     heard v \<and> wtData v = wtData w \<and> stop_left w = n + stop_left v"
proof (induction n arbitrary: v)
  case (Suc n)
  then obtain u where "(watch_step parse call m ^^ n) w u" "watch_step parse call m u v" by auto
  with Suc heard_step [of parse call m u v] show ?case by auto
qed simp

lemma heard_progress:
  assumes "heard w" and "wtStop w = Waiting"
  shows "\<exists>v. watch_step parse call m w v"
proof -
  from assms consider "wtPhase w = Closing" | "wtPhase w = LoopHead" | "wtPhase w = Ended" by (auto simp: watch_inv_def)
  then show ?thesis
  proof cases
    case 1
    then show ?thesis by (blast intro: watch_intros)
  next
    case 2
    moreover have "\<not> wtActive w" using assms by (auto simp: watch_inv_def)
    ultimately show ?thesis by (blast intro: watch_intros)
  next
    case 3
    moreover have "wtWg w = 0" using assms(1) 3 by (simp add: watch_inv_def)
    ultimately show ?thesis using assms(2) by (blast intro: watch_intros)
  qed
qed

text \<open>
  C7: Once the goroutine of the watch has taken the value from \<open>quit\<close>, no further event is handled, and
  \<open>StopWatching\<close> returns after at most three steps of the two: the connection is closed, the goroutine
  ends, the wait is over. Nothing else can happen on the way, and nothing after it.
\<close>

theorem stop_terminates:
  assumes "watch_reachable parse call m s w" and "wtStop w = Waiting"
    and "(watch_step parse call m ^^ n) w v"
  shows "n \<le> 3 \<and> wtData v = wtData w \<and>
    ((\<exists>u. watch_step parse call m v u) \<longleftrightarrow> wtStop v = Waiting) \<and>
    (wtStop v \<noteq> Waiting \<longrightarrow> wtStop v = StoppedAfterWait \<and> wtPhase v = Ended \<and> \<not> wtConnected v)"
proof -
  have w: "heard w" using assms(1,2) by (simp add: watch_reachable_inv)
  from heard_steps [OF assms(3) w] have v: "heard v" "wtData v = wtData w" "stop_left w = n + stop_left v" by auto
  have "stop_left w \<le> 3" by (simp add: stop_left_def split: watch_phase.split)
  moreover have "(\<exists>u. watch_step parse call m v u) \<longleftrightarrow> wtStop v = Waiting"
    using heard_step [OF _ v(1)] heard_progress [OF v(1)] by blast
  moreover have "wtStop v \<noteq> Waiting \<longrightarrow> wtStop v = StoppedAfterWait \<and> wtPhase v = Ended \<and> \<not> wtConnected v"
    using v(1) by (auto simp: watch_inv_def)
  ultimately show ?thesis using v by simp
qed

text \<open>A call of \<open>StopWatching\<close> while the goroutine reads.\<close>

definition sending :: "'s \<Rightarrow> 's watcher" where
  "sending s = (first_connection s)\<lparr>wtActive := False, wtStop := SendingQuit\<rparr>"

lemma first_connection_simps [simp]:
  "wtPhase (first_connection s) = Reading" "wtStop (first_connection s) = NoStop"
  "wtConnected (first_connection s)" "wtData (first_connection s) = s"
  by (simp_all add: first_connection_def StartWatching_def)

lemma sending_reachable: "watch_reachable parse call m s (sending s)"
proof -
  let ?w = "first_connection s"
  let ?f = "?w\<lparr>wtStop := Flagged, wtActive := False\<rparr>"
  have "watch_step parse call m ?w ?f" by (intro watch_intros) simp
  moreover have "watch_step parse call m ?f (sending s)"
    using watch_intros(10) [of ?f parse call m] by (simp add: sending_def)
  ultimately show ?thesis unfolding watch_reachable_def
    using connects_reading [of parse call m s] by (meson rtranclp.rtrancl_into_rtrancl)
qed

lemma stop_terminates_witness:
  "\<exists>w :: unit watcher. watch_reachable (\<lambda>b. None) (\<lambda>c e. gret ()) [(''x'', [()])] () w \<and> wtStop w = Waiting \<and>
     (\<forall>n v. (watch_step (\<lambda>b. None) (\<lambda>c e. gret ()) [(''x'', [()])] ^^ n) w v \<longrightarrow> n \<le> 3)"
proof -
  let ?w = "(sending ())\<lparr>wtStop := Waiting, wtPhase := Closing\<rparr>"
  have "watch_step (\<lambda>b. None) (\<lambda>c e. gret ()) [(''x'', [()])] (sending ()) ?w"
    by (intro watch_step.quit) (simp_all add: sending_def)
  then have r: "watch_reachable (\<lambda>b. None) (\<lambda>c e. gret ()) [(''x'', [()])] () ?w"
    using sending_reachable unfolding watch_reachable_def by (meson rtranclp.rtrancl_into_rtrancl)
  have "wtStop ?w = Waiting" by simp
  with r show ?thesis
    by (intro exI [of _ ?w] conjI allI impI) (simp_all add: stop_terminates [OF r])
qed

section \<open>Stops that are not heard\<close>

text \<open>A connection the server has closed: nobody takes the value from \<open>quit\<close> any more.\<close>

abbreviation unheard :: "'s watcher \<Rightarrow> bool" where
  "unheard w \<equiv> watch_inv w \<and> wtStop w = SendingQuit \<and> wtPhase w \<noteq> Reading"

lemma unheard_goroutine: "goroutine_step parse call m w v \<Longrightarrow> unheard w \<Longrightarrow> unheard v"
  by (induction rule: goroutine_step.induct) (auto simp: watch_inv_def)

lemma unheard_step: "watch_step parse call m w v \<Longrightarrow> unheard w \<Longrightarrow> unheard v"
proof (induction rule: watch_step.induct)
  case (stopping w v)
  then show ?case by (auto elim: stop_stepE)
qed (use unheard_goroutine in blast)+

text \<open>
  C8: If the server closes the connection, or the goroutine is otherwise on its way out of it, when
  \<open>StopWatching\<close> has seen the connection and sends on \<open>quit\<close>, then \<open>StopWatching\<close> never returns: in every state
  that can follow it still sends, and no goroutine will ever receive.
\<close>

theorem stop_hangs_on_closed_connection:
  assumes "watch_reachable parse call m s w" and "wtStop w = SendingQuit" and "wtPhase w \<noteq> Reading"
    and "(watch_step parse call m)\<^sup>*\<^sup>* w v"
  shows "wtStop v = SendingQuit \<and> wtPhase v \<in> {Closing, LoopHead, Ended}"
proof -
  have "unheard w" using assms(1-3) by (simp add: watch_reachable_inv)
  with assms(4) have "unheard v"
    by (induction rule: rtranclp_induct) (use unheard_step in blast)+
  then show ?thesis by (auto simp: watch_inv_def)
qed

lemma stop_hangs_on_closed_connection_witness:
  "\<exists>w :: unit watcher. watch_reachable (\<lambda>b. None) (\<lambda>c e. gret ()) [(''x'', [()])] () w \<and>
     (\<forall>v. (watch_step (\<lambda>b. None) (\<lambda>c e. gret ()) [(''x'', [()])])\<^sup>*\<^sup>* w v \<longrightarrow> wtStop v = SendingQuit)"
proof -
  let ?w = "(sending ())\<lparr>wtPhase := Closing\<rparr>"
  have "watch_step (\<lambda>b. None) (\<lambda>c e. gret ()) [(''x'', [()])] (sending ()) ?w"
    by (rule watch_intros(7)) (simp add: sending_def)
  then have r: "watch_reachable (\<lambda>b. None) (\<lambda>c e. gret ()) [(''x'', [()])] () ?w"
    using sending_reachable unfolding watch_reachable_def by (meson rtranclp.rtrancl_into_rtrancl)
  have "wtStop ?w = SendingQuit" "wtPhase ?w \<noteq> Reading" by (simp_all add: sending_def)
  with r show ?thesis
    by (intro exI [of _ ?w] conjI allI impI) (blast dest: stop_hangs_on_closed_connection [OF r])+
qed

text \<open>
  A stop during the attempt to connect returns at once, and the connection that comes about is read
  from then on: any frames may be handled.
\<close>

theorem stop_misses_connection:
  "\<exists>w. watch_reachable parse call m s w \<and> wtStop w = StoppedAtOnce \<and> \<not> wtActive w \<and>
     wtData w = snd (gfor bodies (handle_frame parse call m) s)"
proof -
  let ?o = "(StartWatching s)\<lparr>wtPhase := Opened, wtWg := 1\<rparr>"
  let ?f = "?o\<lparr>wtStop := Flagged, wtActive := False\<rparr>"
  let ?s = "?f\<lparr>wtStop := StoppedAtOnce\<rparr>"
  let ?r = "?s\<lparr>wtPhase := Reading, wtConnected := True\<rparr>"
  have "watch_step parse call m ?o ?f" by (intro watch_intros) (simp add: StartWatching_def)
  moreover have "watch_step parse call m ?f ?s"
    using watch_intros(10) [of ?f parse call m] by (simp add: StartWatching_def)
  moreover have "watch_step parse call m ?s ?r" by (intro watch_intros) simp
  ultimately have "(watch_step parse call m)\<^sup>*\<^sup>* ?o ?r"
    by (meson converse_rtranclp_into_rtranclp r_into_rtranclp)
  then have "watch_reachable parse call m s ?r"
    unfolding watch_reachable_def using connects [of parse call m s] by (rule rtranclp_trans [rotated])
  moreover have "(watch_step parse call m)\<^sup>*\<^sup>* ?r (?r\<lparr>wtData := snd (gfor bodies (handle_frame parse call m) s)\<rparr>)"
    using reading_frames [of ?r parse call m bodies] by (simp add: frames_run StartWatching_def)
  ultimately have "watch_reachable parse call m s (?r\<lparr>wtData := snd (gfor bodies (handle_frame parse call m) s)\<rparr>)"
    unfolding watch_reachable_def by (rule rtranclp_trans)
  then show ?thesis by fastforce
qed

end
