(* ===== verification/CacheTime.thy ===== *)
theory CacheTime
  imports PaasSync
begin

text \<open>
  The time of the last update of the caches (\<open>StartSyncingCache\<close> and \<open>keepActualLastUpdateTime\<close> in
  \<open>paasMediationClient/paasMediationClient.go\<close>): the loop of each cache stamps an update when it is done and
  hands the stamp over a channel of its own without a buffer; a goroutine per cache takes it and stores
  it in the one field that \<open>AwaitAction\<close> looks at. A step is a tick of the clock, a stamp, an exchange or
  a store.
\<close>

section \<open>The goroutines\<close>

datatype cache_kind = RoutesKind | ServicesKind | ConfigMapsKind

text \<open>
  \<open>ctSender\<close>: the stamp with which the loop of a cache waits for the exchange; \<open>ctKeeper\<close>: the stamp a
  keeper has taken and not stored yet; \<open>ctLast\<close> is \<open>lastCacheUpdateTime\<close>.
\<close>

record update_times =
  ctNow :: nat
  ctLast :: nat
  ctSender :: "cache_kind \<Rightarrow> nat option"
  ctKeeper :: "cache_kind \<Rightarrow> nat option"

text \<open>The client is made at the time \<open>t\<close>, which is the first value of the field.\<close>

definition StartSyncingCache :: "nat \<Rightarrow> update_times" where
  "StartSyncingCache t = \<lparr>ctNow = t, ctLast = t, ctSender = (\<lambda>_. None), ctKeeper = (\<lambda>_. None)\<rparr>"

inductive keepActualLastUpdateTime :: "update_times \<Rightarrow> update_times \<Rightarrow> bool" where
  takes: "ctSender c k = Some t \<Longrightarrow> ctKeeper c k = None \<Longrightarrow>
    keepActualLastUpdateTime c (c\<lparr>ctSender := (ctSender c)(k := None), ctKeeper := (ctKeeper c)(k := Some t)\<rparr>)"
| puts: "ctKeeper c k = Some t \<Longrightarrow>
    keepActualLastUpdateTime c (c\<lparr>ctLast := t, ctKeeper := (ctKeeper c)(k := None)\<rparr>)"

text \<open>Only the caches in \<open>K\<close> get updates.\<close>

inductive times_step :: "cache_kind set \<Rightarrow> update_times \<Rightarrow> update_times \<Rightarrow> bool" for K where
  tick: "times_step K c (c\<lparr>ctNow := Suc (ctNow c)\<rparr>)"
| stamp: "k \<in> K \<Longrightarrow> ctSender c k = None \<Longrightarrow> times_step K c (c\<lparr>ctSender := (ctSender c)(k := Some (ctNow c))\<rparr>)"
| keeper: "keepActualLastUpdateTime c c' \<Longrightarrow> times_step K c c'"

abbreviation times_steps :: "cache_kind set \<Rightarrow> update_times \<Rightarrow> update_times \<Rightarrow> bool" where
  "times_steps K \<equiv> (times_step K)\<^sup>*\<^sup>*"

inductive_cases keeperE: "keepActualLastUpdateTime c c'"

section \<open>One cache\<close>

text \<open>
  The stamps of the only cache on their way to the field come in the order of their times, and none
  is older than the field.
\<close>

definition one_cache :: "cache_kind \<Rightarrow> update_times \<Rightarrow> bool" where
  "one_cache k c \<longleftrightarrow> (\<forall>k'. k' \<noteq> k \<longrightarrow> ctSender c k' = None \<and> ctKeeper c k' = None) \<and> ctLast c \<le> ctNow c \<and>
     (\<forall>t. ctKeeper c k = Some t \<longrightarrow> ctLast c \<le> t \<and> t \<le> ctNow c) \<and>
     (\<forall>t. ctSender c k = Some t \<longrightarrow> ctLast c \<le> t \<and> t \<le> ctNow c \<and> (\<forall>u. ctKeeper c k = Some u \<longrightarrow> u \<le> t))"

lemma one_cache_start: "one_cache k (StartSyncingCache t)"
  by (simp add: one_cache_def StartSyncingCache_def)

lemma one_cache_keeper:
  assumes "keepActualLastUpdateTime c c'" and "one_cache k c"
  shows "one_cache k c' \<and> ctLast c \<le> ctLast c'"
  using assms(1)
proof cases
  case (takes k' t)
  then have "k' = k" using assms(2) by (auto simp: one_cache_def)
  with takes assms(2) show ?thesis by (simp add: one_cache_def)
next
  case (puts k' t)
  then have "k' = k" using assms(2) by (auto simp: one_cache_def)
  with puts assms(2) show ?thesis by (auto simp: one_cache_def)
qed

lemma one_cache_step:
  assumes "times_step K c c'" and "K \<subseteq> {k}" and "one_cache k c"
  shows "one_cache k c' \<and> ctLast c \<le> ctLast c'"
  using assms(1)
proof cases
  case tick
  with assms(3) show ?thesis by (auto simp: one_cache_def le_SucI)
next
  case (stamp k')
  with assms(2) have "k' = k" by auto
  with stamp assms(3) show ?thesis by (auto simp: one_cache_def)
next
  case keeper
  then show ?thesis using one_cache_keeper assms(3) by blast
qed

lemma one_cache_steps:
  assumes "times_steps K c c'" and "K \<subseteq> {k}" and "one_cache k c"
  shows "one_cache k c' \<and> ctLast c \<le> ctLast c'"
  using assms(1)
proof (induction rule: rtranclp_induct)
  case base
  show ?case using assms(3) by simp
next
  case (step c1 c2)
  with one_cache_step [OF step(2) assms(2)] show ?case by force
qed

section \<open>Two caches\<close>

text \<open>
  An update of \<open>k\<close> is stamped first, one of \<open>k'\<close> second and stored first. In the state \<open>ahead\<close> the field has the
  second stamp and the first is still with its sender.
\<close>

definition ahead :: "nat \<Rightarrow> cache_kind \<Rightarrow> update_times" where
  "ahead t k = \<lparr>ctNow = t + 2, ctLast = t + 2, ctSender = (\<lambda>_. None)(k := Some (t + 1)), ctKeeper = (\<lambda>_. None)\<rparr>"

lemma stamped_stored:
  assumes "k \<in> K" and "ctSender c k = None" and "ctKeeper c k = None"
  shows "times_steps K c (c\<lparr>ctLast := ctNow c\<rparr>)"
proof -
  let ?a = "c\<lparr>ctSender := (ctSender c)(k := Some (ctNow c))\<rparr>"
  let ?b = "?a\<lparr>ctSender := (ctSender ?a)(k := None), ctKeeper := (ctKeeper ?a)(k := Some (ctNow c))\<rparr>"
  let ?c = "?b\<lparr>ctLast := ctNow c, ctKeeper := (ctKeeper ?b)(k := None)\<rparr>"
  have "times_step K c ?a" using assms by (intro times_step.stamp)
  moreover have "times_step K ?a ?b"
    using assms by (intro times_step.keeper keepActualLastUpdateTime.takes) simp_all
  moreover have "times_step K ?b ?c" by (intro times_step.keeper keepActualLastUpdateTime.puts) simp
  moreover have "?c = c\<lparr>ctLast := ctNow c\<rparr>"
    using assms(2,3) by (simp add: fun_upd_idem)
  ultimately show ?thesis by (metis converse_rtranclp_into_rtranclp r_into_rtranclp)
qed

lemma reaches_ahead:
  assumes "k \<in> K" and "k' \<in> K" and "k \<noteq> k'"
  shows "times_steps K (StartSyncingCache t) (ahead t k)"
proof -
  let ?a = "(StartSyncingCache t)\<lparr>ctNow := t + 1\<rparr>"
  let ?b = "?a\<lparr>ctSender := (ctSender ?a)(k := Some (ctNow ?a))\<rparr>"
  let ?c = "?b\<lparr>ctNow := Suc (ctNow ?b)\<rparr>"
  have "times_step K (StartSyncingCache t) ?a"
    using times_step.tick [of K "StartSyncingCache t"] by (simp add: StartSyncingCache_def)
  moreover have "times_step K ?a ?b" using assms by (intro times_step.stamp) (simp_all add: StartSyncingCache_def)
  moreover have "times_step K ?b ?c" by (rule times_step.tick)
  moreover have "times_steps K ?c (?c\<lparr>ctLast := ctNow ?c\<rparr>)"
    using assms by (intro stamped_stored [of k']) (simp_all add: StartSyncingCache_def)
  moreover have "?c\<lparr>ctLast := ctNow ?c\<rparr> = ahead t k" by (simp add: ahead_def StartSyncingCache_def)
  ultimately show ?thesis by (metis converse_rtranclp_into_rtranclp)
qed

lemma late_store:
  "times_steps K (c\<lparr>ctSender := (\<lambda>_. None)(k := Some u), ctKeeper := (\<lambda>_. None)\<rparr>)
     (c\<lparr>ctLast := u, ctSender := (\<lambda>_. None), ctKeeper := (\<lambda>_. None)\<rparr>)"
proof -
  let ?a = "c\<lparr>ctSender := (\<lambda>_. None)(k := Some u), ctKeeper := (\<lambda>_. None)\<rparr>"
  let ?b = "?a\<lparr>ctSender := (ctSender ?a)(k := None), ctKeeper := (ctKeeper ?a)(k := Some u)\<rparr>"
  let ?c = "?b\<lparr>ctLast := u, ctKeeper := (ctKeeper ?b)(k := None)\<rparr>"
  have "times_step K ?a ?b" by (intro times_step.keeper keepActualLastUpdateTime.takes) simp_all
  moreover have "times_step K ?b ?c" by (intro times_step.keeper keepActualLastUpdateTime.puts) simp
  ultimately have "times_steps K ?a ?c" by (rule converse_rtranclp_into_rtranclp [OF _ r_into_rtranclp])
  moreover have eq: "?c = c\<lparr>ctLast := u, ctSender := (\<lambda>_. None), ctKeeper := (\<lambda>_. None)\<rparr>"
    by (simp add: fun_upd_idem)
  ultimately show ?thesis unfolding eq by blast
qed

text \<open>
  C26: The time of the last update never goes back in any run of the goroutines if and only if at most
  one of the three caches gets updates; with two of them, a stamp that was taken earlier can be stored
  later.
\<close>

theorem last_update_monotone:
  "(\<forall>t c c'. times_steps K (StartSyncingCache t) c \<longrightarrow> times_steps K c c' \<longrightarrow> ctLast c \<le> ctLast c') \<longleftrightarrow>
     (\<exists>k. K \<subseteq> {k})"
proof
  assume mono: "\<forall>t c c'. times_steps K (StartSyncingCache t) c \<longrightarrow> times_steps K c c' \<longrightarrow> ctLast c \<le> ctLast c'"
  have "k = k'" if "k \<in> K" "k' \<in> K" for k k'
  proof (rule ccontr)
    assume "k \<noteq> k'"
    from reaches_ahead [OF that this] have "times_steps K (StartSyncingCache 0) (ahead 0 k)" .
    moreover have "times_steps K (ahead 0 k) ((ahead 0 k)\<lparr>ctLast := 1, ctSender := (\<lambda>_. None), ctKeeper := (\<lambda>_. None)\<rparr>)"
      using late_store [where c = "ahead 0 k" and k = k and u = 1 and K = K] by (simp add: ahead_def)
    ultimately have "ctLast (ahead 0 k) \<le> 1" using mono by fastforce
    then show False by (simp add: ahead_def)
  qed
  then show "\<exists>k. K \<subseteq> {k}" by blast
next
  assume "\<exists>k. K \<subseteq> {k}"
  then obtain k where "K \<subseteq> {k}" by blast
  then show "\<forall>t c c'. times_steps K (StartSyncingCache t) c \<longrightarrow> times_steps K c c' \<longrightarrow> ctLast c \<le> ctLast c'"
    using one_cache_steps [OF _ _ one_cache_steps [OF _ _ one_cache_start, THEN conjunct1], THEN conjunct2]
    by (intro allI impI) metis
qed

lemma last_update_monotone_witness:
  "\<exists>t c c'. times_steps {RoutesKind, ServicesKind} (StartSyncingCache t) c \<and>
     times_steps {RoutesKind, ServicesKind} c c' \<and> ctLast c' < ctLast c"
proof -
  have "\<not> {RoutesKind, ServicesKind} \<subseteq> {k}" for k by simp
  with last_update_monotone [of "{RoutesKind, ServicesKind}"] show ?thesis by (meson not_le)
qed

text \<open>
  What \<open>AwaitAction\<close> can miss: after it has read the field in \<open>c\<close>, an update is done and stored (\<open>c1\<close>), then an
  older stamp is stored over it, and when everything is at rest the field is older than before.
\<close>

theorem update_masked:
  assumes "k \<in> K" and "k' \<in> K" and "k \<noteq> k'"
  shows "\<exists>c c1 c2. times_steps K (StartSyncingCache t) c \<and> times_steps K c c1 \<and> ctNow c < ctLast c1 \<and>
    times_steps K c1 c2 \<and> ctLast c2 < ctLast c \<and> (\<forall>i. ctSender c2 i = None \<and> ctKeeper c2 i = None)"
proof -
  let ?c = "(ahead t k)\<lparr>ctNow := Suc (ctNow (ahead t k))\<rparr>"
  let ?c1 = "?c\<lparr>ctLast := ctNow ?c\<rparr>"
  have "times_step K (ahead t k) ?c" by (rule times_step.tick)
  moreover have "times_steps K ?c ?c1"
    using assms by (intro stamped_stored [of k']) (simp_all add: ahead_def)
  ultimately have "times_steps K (ahead t k) ?c1" by (rule converse_rtranclp_into_rtranclp)
  moreover have "times_steps K ?c1 (?c1\<lparr>ctLast := t + 1, ctSender := (\<lambda>_. None), ctKeeper := (\<lambda>_. None)\<rparr>)"
    using late_store [where c = ?c1 and k = k and u = "t + 1" and K = K] by (simp add: ahead_def)
  moreover have "ctNow (ahead t k) < ctLast ?c1" by simp
  ultimately show ?thesis
    using reaches_ahead [OF assms]
    by (intro exI [of _ "ahead t k"] exI [of _ ?c1]
      exI [of _ "?c1\<lparr>ctLast := t + 1, ctSender := (\<lambda>_. None), ctKeeper := (\<lambda>_. None)\<rparr>"]) (simp add: ahead_def)
qed

end
