(* ===== verification/Sockets.thy ===== *)
theory Sockets
  imports Outbound
begin

text \<open>
  Connections that stay open: the dial of a web socket with a machine-to-machine token
  (\<open>utils/client_utils.go\<close>, \<open>http/websocket/dialer.go\<close>, \<open>paasMediationClient/websocketclient.go\<close>), the
  connector of the watch of tenants (\<open>http/websocket/wrapper.go\<close>) and the delivery of a mail
  (\<open>messaging/mailsender.go\<close>). The sender of tokens, the socket, the STOMP and the SMTP library are
  parameters; the locale \<open>ws_sender\<close> states what is relied on of the sender.
\<close>

section \<open>Dialing with a token\<close>

text \<open>A Go \<open>http.Header\<close>; all names the source uses are in canonical form.\<close>

type_synonym headers = "(string, string list) gomap"

text \<open>
  \<open>weDial\<close> gives the connection, the status of the answer and the error, each of them possibly
  absent; \<open>weSend\<close> calls back with a token and gets the status and the error together.
\<close>

type_synonym 'x dial_state = "'x \<times> nat option \<times> int option"

record 'x ws_env =
  weString :: "url \<Rightarrow> string"
  weSend :: "string \<Rightarrow> (string \<Rightarrow> ('x dial_state, int \<times> go_error option) go) \<Rightarrow>
     ('x dial_state, go_error option) go"
  weDial :: "string \<Rightarrow> headers \<Rightarrow> 'x \<Rightarrow> (nat option \<times> int option \<times> go_error option) \<times> 'x"

definition header_Add :: "string \<Rightarrow> string \<Rightarrow> headers \<Rightarrow> headers result" where
  "header_Add name value h = mput name ((case mlookup h name of Some vs \<Rightarrow> vs | None \<Rightarrow> []) @ [value]) h"

definition addHeaderIfAbsent :: "headers \<Rightarrow> string \<Rightarrow> string \<Rightarrow> headers result" where
  "addHeaderIfAbsent requestHeaders headerName headerValue =
     (if mlookup requestHeaders headerName = None then header_Add headerName headerValue requestHeaders
      else Ok requestHeaders)"

text \<open>The callback: it assigns the captured connection and answer.\<close>

definition dial_callback ::
  "'x ws_env \<Rightarrow> string \<Rightarrow> (string \<Rightarrow> headers result) \<Rightarrow> string \<Rightarrow> ('x dial_state, int \<times> go_error option) go" where
  "dial_callback env address headers token = (\<lambda>(x, conn, resp). case headers token of
       Ok h \<Rightarrow> (case weDial env address h x of
           ((conn', resp', err), x') \<Rightarrow>
             (Ok (case resp' of None \<Rightarrow> 0 | Some status \<Rightarrow> status, err), (x', conn', resp')))
     | Err e \<Rightarrow> (Err e, (x, conn, resp))
     | Panic p \<Rightarrow> (Panic p, (x, conn, resp)))"

text \<open>The three results; a function that returns a \<open>go_error option\<close> beside them never ends in \<open>Err\<close>.\<close>

type_synonym dialed = "nat option \<times> int option \<times> go_error option"

definition dial_with_token ::
  "'x ws_env \<Rightarrow> string \<Rightarrow> string \<Rightarrow> (string \<Rightarrow> headers result) \<Rightarrow> ('x, dialed) go" where
  "dial_with_token env url address headers = (\<lambda>x.
     case weSend env url (dial_callback env address headers) (x, None, None) of
       (Ok err, (x', conn, resp)) \<Rightarrow> (Ok (conn, resp, err), x')
     | (Err e, (x', _)) \<Rightarrow> (Err e, x')
     | (Panic p, (x', _)) \<Rightarrow> (Panic p, x'))"

text \<open>
  \<open>SecureWebSocketDial\<close> adds the host to the caller's map, if there is one, and the token to a copy of
  it. The caller's map is a part of the state.
\<close>

definition SecureWebSocketDial :: "'x ws_env \<Rightarrow> url \<Rightarrow> ('x \<times> headers, dialed) go" where
  "SecureWebSocketDial env webSocketURL = (\<lambda>(x, requestHeaders).
     let own = (case requestHeaders of NilMap \<Rightarrow> mempty | GoMap es \<Rightarrow> GoMap es) in
     case addHeaderIfAbsent own ''Host'' (uHost webSocketURL) of
       Ok h \<Rightarrow>
         (case dial_with_token env (weString env webSocketURL) (weString env webSocketURL)
             (\<lambda>token. addHeaderIfAbsent h ''Authorization'' (''Bearer '' @ token)) x of
           (r, x') \<Rightarrow> (r, (x', case requestHeaders of NilMap \<Rightarrow> NilMap | GoMap es \<Rightarrow> h)))
     | Err e \<Rightarrow> (Err e, (x, requestHeaders))
     | Panic p \<Rightarrow> (Panic p, (x, requestHeaders)))"

text \<open>The adapter to the interface of the STOMP library, \<open>dialer.go\<close>.\<close>

definition Dial :: "'x ws_env \<Rightarrow> url \<Rightarrow> ('x \<times> headers, dialed) go" where
  "Dial env webSocketURL = SecureWebSocketDial env webSocketURL"

text \<open>
  \<open>connect\<close> of the web socket client of the mediation service: the address is put together without
  escapes, the header is new.
\<close>

definition connect :: "'x ws_env \<Rightarrow> url \<Rightarrow> ('x, dialed) go" where
  "connect env targetAddress = dial_with_token env (weString env targetAddress)
     (uScheme targetAddress @ ''://'' @ uHost targetAddress @ uPath targetAddress)
     (\<lambda>token. Ok (GoMap [(''Authorization'', [''Bearer '' @ token]), (''Content-Type'', [''application/json'']),
        (''Host'', [uHost targetAddress]), (''Origin'', [''https://'' @ uHost targetAddress])]))"

section \<open>The connector of the watch\<close>

text \<open>\<open>stConnect\<close> gets the header map of the connector, which it may change.\<close>

record 'x stomp =
  stConnect :: "url \<Rightarrow> ('x \<times> headers, nat) go"
  stSubscribe :: "nat \<Rightarrow> string \<Rightarrow> ('x, nat) go"
  stDisconnect :: "nat \<Rightarrow> ('x, unit) go"

record connector =
  cnHeader :: headers
  cnStompClient :: "nat option"

definition newConnector :: connector where
  "newConnector = \<lparr>cnHeader = mempty, cnStompClient = None\<rparr>"

definition ConnectAndSubscribe :: "'x stomp \<Rightarrow> string \<Rightarrow> string \<Rightarrow> ('x \<times> connector, nat) go" where
  "ConnectAndSubscribe env destination topic = (case url_parse destination of
       None \<Rightarrow> gerr (PlainError (''parse '' @ destination))
     | Some wsURL \<Rightarrow>
         gbind (gmodify (\<lambda>(x, c). (x, c\<lparr>cnHeader := mdelete ''Authorization'' (cnHeader c)\<rparr>))) (\<lambda>_.
         gbind (gzoom (\<lambda>(x, c). (x, cnHeader c)) (\<lambda>(x, h) (_, c). (x, c\<lparr>cnHeader := h\<rparr>)) (stConnect env wsURL))
           (\<lambda>stompClient. gzoom fst (\<lambda>x (_, c). (x, c)) (stSubscribe env stompClient topic))))"

definition Disconnect :: "'x stomp \<Rightarrow> ('x \<times> connector, unit) go" where
  "Disconnect env = (\<lambda>(x, c). case cnStompClient c of
       Some client \<Rightarrow> gzoom fst (\<lambda>x (_, c). (x, c)) (stDisconnect env client) (x, c)
     | None \<Rightarrow> (Ok (), (x, c)))"

section \<open>Delivery of a mail\<close>

record 'x smtp_env =
  smDial :: "string \<Rightarrow> ('x, nat) go"
  smMail :: "nat \<Rightarrow> string \<Rightarrow> ('x, unit) go"
  smRcpt :: "nat \<Rightarrow> string \<Rightarrow> ('x, unit) go"
  smData :: "nat \<Rightarrow> ('x, nat) go"
  smWrite :: "nat \<Rightarrow> string \<Rightarrow> ('x, unit) go"
  smCloseData :: "nat \<Rightarrow> ('x, unit) go"
  smClose :: "nat \<Rightarrow> ('x, unit) go"

text \<open>Every error is logged and ends the delivery.\<close>

definition logged :: "('s, 'a) go \<Rightarrow> ('a \<Rightarrow> ('s, unit) go) \<Rightarrow> ('s, unit) go" where
  "logged m f = gtry m (\<lambda>r. case r of Inl err \<Rightarrow> gret () | Inr x \<Rightarrow> f x)"

definition SendNotification ::
  "'x smtp_env \<Rightarrow> string \<Rightarrow> string \<Rightarrow> mail_sender \<Rightarrow> string \<Rightarrow> string \<Rightarrow> ('x, unit) go" where
  "SendNotification env mailServer mailPort ms recipient content =
     logged (smDial env (mailServer @ '':'' @ mailPort)) (\<lambda>c. gdefer (smClose env c)
       (logged (smMail env c (msUserEmail ms)) (\<lambda>_.
        logged (smRcpt env c recipient) (\<lambda>_.
        logged (smData env c) (\<lambda>wc. gdefer (smCloseData env wc)
          (logged (smWrite env wc content) (\<lambda>_. gret ())))))))"

section \<open>What is sent with a dial\<close>

text \<open>
  What the code relies on of the sender: it touches the socket only through the callback, to which it
  gives tokens of the set \<open>tokens\<close>. \<open>dials\<close> reads the dials made so far off the outside world.
\<close>

locale ws_sender =
  fixes env :: "'x ws_env" and dials :: "'x \<Rightarrow> (string \<times> headers) list" and tokens :: "string set"
  assumes dial_logged: "weDial env address h x = (r, x') \<Longrightarrow> dials x' = dials x @ [(address, h)]"
    and send_calls: "(\<And>token. token \<in> tokens \<Longrightarrow> keeps (\<lambda>(x, c). Q (dials x)) (f token)) \<Longrightarrow>
      keeps (\<lambda>(x, c). Q (dials x)) (weSend env url f)"

text \<open>The entries of the header of a dial, given the caller's entries.\<close>

definition secured :: "url \<Rightarrow> string \<Rightarrow> headers \<Rightarrow> string \<Rightarrow> string list option" where
  "secured url token own name = (case mlookup own name of
       Some vs \<Rightarrow> Some vs
     | None \<Rightarrow> if name = ''Host'' then Some [uHost url]
         else if name = ''Authorization'' then Some [''Bearer '' @ token] else None)"

definition allocated :: "headers \<Rightarrow> headers" where
  "allocated h = (case h of NilMap \<Rightarrow> mempty | GoMap es \<Rightarrow> GoMap es)"

lemma addHeaderIfAbsent_Ok:
  assumes "h \<noteq> NilMap"
  obtains h' where "addHeaderIfAbsent h name value = Ok h'" and "h' \<noteq> NilMap"
    and "\<And>n. mlookup h' n = (case mlookup h n of Some vs \<Rightarrow> Some vs
           | None \<Rightarrow> if n = name then Some [value] else None)"
proof (cases "mlookup h name")
  case None
  from assms obtain es where "h = GoMap es" by (cases h) auto
  with None show ?thesis
    by (intro that [of "GoMap (AList.update name [value] es)"])
      (auto simp: addHeaderIfAbsent_def header_Add_def split: option.split)
next
  case (Some vs)
  with assms show ?thesis
    by (intro that [of h]) (auto simp: addHeaderIfAbsent_def split: option.split)
qed

lemma allocated_not_nil [simp]: "allocated h \<noteq> NilMap"
  by (simp add: allocated_def mempty_def split: gomap.split)

lemma mlookup_allocated [simp]: "mlookup (allocated h) name = mlookup h name"
  by (simp add: allocated_def split: gomap.split)

context ws_sender
begin

lemma dial_with_token_dials:
  assumes "\<And>token. token \<in> tokens \<Longrightarrow> \<exists>h. headers token = Ok h \<and> R token h"
  shows "\<exists>new. dials (snd (dial_with_token env url address headers x)) = dials x @ new \<and>
    (\<forall>(a, h) \<in> set new. a = address \<and> (\<exists>token \<in> tokens. R token h))"
proof -
  let ?Q = "\<lambda>ds. \<exists>new. ds = dials x @ new \<and>
    (\<forall>(a, h) \<in> set new. a = address \<and> (\<exists>token \<in> tokens. R token h))"
  have "keeps (\<lambda>(y, c). ?Q (dials y)) (dial_callback env address headers token)" if t: "token \<in> tokens" for token
  proof (rule keepsI)
    fix s :: "'x dial_state" assume q: "case s of (y, c) \<Rightarrow> ?Q (dials y)"
    obtain y conn resp where s: "s = (y, conn, resp)" by (cases s) auto
    from q obtain new where ds: "dials y = dials x @ new"
      and new: "\<forall>(a, h) \<in> set new. a = address \<and> (\<exists>token \<in> tokens. R token h)" unfolding s by auto
    from assms [OF t] obtain h where h: "headers token = Ok h" "R token h" by blast
    obtain conn' resp' err y' where d: "weDial env address h y = ((conn', resp', err), y')"
      by (metis prod_cases4 prod.exhaust)
    from dial_logged [OF d] ds have "dials y' = dials x @ new @ [(address, h)]" by simp
    moreover have "\<forall>(a, h) \<in> set (new @ [(address, h)]). a = address \<and> (\<exists>token \<in> tokens. R token h)"
      using new h(2) t by auto
    ultimately have "?Q (dials y')" by (intro exI [of _ "new @ [(address, h)]"] conjI) simp_all
    then show "case snd (dial_callback env address headers token s) of (y, c) \<Rightarrow> ?Q (dials y)"
      by (simp add: s dial_callback_def h(1) d)
  qed
  from send_calls [of ?Q, OF this]
  have k: "keeps (\<lambda>(y, c). ?Q (dials y)) (weSend env url (dial_callback env address headers))" .
  have "case snd (weSend env url (dial_callback env address headers) (x, None, None)) of (y, c) \<Rightarrow> ?Q (dials y)"
    by (rule keepsD [OF k]) (simp add: exI [of _ "[]"])
  then show ?thesis
    by (auto simp: dial_with_token_def split: prod.splits result.splits)
qed

lemma secure_dial_run:
  "mlookup (snd (snd (SecureWebSocketDial env url (x, own)))) ''Authorization'' = mlookup own ''Authorization'' \<and>
   (\<exists>new. dials (fst (snd (SecureWebSocketDial env url (x, own)))) = dials x @ new \<and>
     (\<forall>(a, h) \<in> set new. a = weString env url \<and> (\<exists>token \<in> tokens. mlookup h = secured url token own)))"
proof -
  obtain h where h: "addHeaderIfAbsent (allocated own) ''Host'' (uHost url) = Ok h" "h \<noteq> NilMap"
    and look: "\<And>n. mlookup h n = (case mlookup own n of Some vs \<Rightarrow> Some vs
           | None \<Rightarrow> if n = ''Host'' then Some [uHost url] else None)"
    by (rule addHeaderIfAbsent_Ok [of "allocated own"]) auto
  let ?f = "\<lambda>token. addHeaderIfAbsent h ''Authorization'' (''Bearer '' @ token)"
  have f: "\<exists>h'. ?f token = Ok h' \<and> mlookup h' = secured url token own" for token
    by (rule addHeaderIfAbsent_Ok [OF h(2)])
      (auto simp: secured_def look fun_eq_iff split: option.split)
  obtain r x' where d: "dial_with_token env (weString env url) (weString env url) ?f x = (r, x')"
    by (cases "dial_with_token env (weString env url) (weString env url) ?f x")
  obtain new where new: "dials x' = dials x @ new"
    "\<forall>(a, h) \<in> set new. a = weString env url \<and> (\<exists>token \<in> tokens. mlookup h = secured url token own)"
    using dial_with_token_dials [of ?f "\<lambda>token h. mlookup h = secured url token own" "weString env url" "weString env url" x]
      f d by auto
  let ?own = "case own of NilMap \<Rightarrow> NilMap | GoMap es \<Rightarrow> h"
  have "SecureWebSocketDial env url (x, own) = (r, (x', ?own))"
    using h(1) d by (simp add: SecureWebSocketDial_def allocated_def Let_def)
  moreover have "mlookup ?own ''Authorization'' = mlookup own ''Authorization''"
    by (simp add: look split: gomap.split option.split)
  ultimately show ?thesis using new by (intro conjI exI [of _ new]) simp_all
qed

end

text \<open>A sender with one token that dials again after a refusal, and a socket that logs its dials.\<close>

definition log_ws :: "(string \<times> headers) list ws_env" where
  "log_ws = \<lparr>weString = (\<lambda>u. uScheme u @ ''://'' @ uHost u @ uPath u),
     weSend = (\<lambda>url f. gbind (f ''m2m'') (\<lambda>(status, err).
       if status = 401 then gbind (f ''legacy'') (\<lambda>(status, err). gret err) else gret err)),
     weDial = (\<lambda>address h ds. if mlookup h ''Authorization'' = Some [''Bearer m2m'']
       then ((None, Some 401, Some (PlainError ''bad handshake'')), ds @ [(address, h)])
       else ((Some 1, Some 101, None), ds @ [(address, h)]))\<rparr>"

interpretation log_ws: ws_sender log_ws id "{''m2m'', ''legacy''}"
proof
  show "id x' = id x @ [(address, h)]" if "weDial log_ws address h x = (r, x')" for address h x r x'
    using that by (auto simp: log_ws_def split: if_splits)
  show "keeps (\<lambda>(x, c). Q (id x)) (weSend log_ws url f)"
    if "\<And>token. token \<in> {''m2m'', ''legacy''} \<Longrightarrow> keeps (\<lambda>(x, c). Q (id x)) (f token)" for Q f url
    using that by (auto simp: log_ws_def intro!: go_keeps)
qed

text \<open>
  C40: Every dial of a web socket goes to the address of the URL and carries the caller's headers, the
  host of the URL and a token of the sender, the last two unless the caller gave them; the caller's
  header map never keeps the token, so a later dial with the same map uses a new one.
\<close>

theorem secure_dial_headers:
  assumes "ws_sender env dials tokens"
  shows "mlookup (snd (snd (SecureWebSocketDial env url (x, own)))) ''Authorization'' = mlookup own ''Authorization'' \<and>
   (\<exists>new. dials (fst (snd (SecureWebSocketDial env url (x, own)))) = dials x @ new \<and>
     (\<forall>(a, h) \<in> set new. a = weString env url \<and> (\<exists>token \<in> tokens. mlookup h = secured url token own)))"
  by (rule ws_sender.secure_dial_run [OF assms])

definition sample_ws_url :: url where
  "sample_ws_url = \<lparr>uScheme = ''ws'', uHost = ''gw:8080'', uPath = ''/watch''\<rparr>"

lemma secure_dial_headers_witness:
  "\<exists>new. fst (snd (SecureWebSocketDial log_ws sample_ws_url ([], mempty))) = new \<and> length new = 2 \<and>
     (\<forall>(a, h) \<in> set new. a = ''ws://gw:8080/watch'' \<and>
        (\<exists>token \<in> {''m2m'', ''legacy''}. mlookup h = secured sample_ws_url token mempty))"
proof -
  have "length (fst (snd (SecureWebSocketDial log_ws sample_ws_url ([], mempty)))) = 2"
    by code_simp
  moreover have "weString log_ws sample_ws_url = ''ws://gw:8080/watch''"
    by code_simp
  ultimately show ?thesis
    using secure_dial_headers [OF log_ws.ws_sender_axioms, of sample_ws_url "[]" mempty] by simp
qed

section \<open>The connector keeps no connection\<close>

text \<open>What a client does with its connector, whatever the calls return.\<close>

datatype connector_op = OpConnect string string | OpDisconnect

fun connector_op_run :: "'x stomp \<Rightarrow> connector_op \<Rightarrow> 'x \<times> connector \<Rightarrow> 'x \<times> connector" where
  "connector_op_run env (OpConnect destination topic) s = snd (ConnectAndSubscribe env destination topic s)"
| "connector_op_run env OpDisconnect s = snd (Disconnect env s)"

lemma keeps_no_client:
  "keeps (\<lambda>(x, c). cnStompClient c = None) (ConnectAndSubscribe env destination topic)"
  unfolding ConnectAndSubscribe_def
  by (intro go_keeps keeps_gmodify keeps_gzoom) auto

lemma no_client_after:
  "cnStompClient c = None \<Longrightarrow> fold (connector_op_run env) ops (x, c) = (x', c') \<Longrightarrow> cnStompClient c' = None"
proof (induction ops arbitrary: x c)
  case (Cons op ops)
  obtain y d where yd: "connector_op_run env op (x, c) = (y, d)" by fastforce
  have "cnStompClient d = None"
  proof (cases op)
    case (OpConnect destination topic)
    with yd keepsD [OF keeps_no_client, of "(x, c)" env destination topic] Cons.prems(1)
    show ?thesis by simp
  next
    case OpDisconnect
    with yd Cons.prems(1) show ?thesis by (simp add: Disconnect_def)
  qed
  with Cons yd show ?case by simp
qed simp

text \<open>
  Whatever connections a connector has made and given up, \<open>Disconnect\<close> closes none of them: it
  reports success and the outside world does not change, because no call stores the client that
  \<open>Disconnect\<close> looks for.
\<close>

theorem disconnect_closes_nothing:
  "Disconnect env (fold (connector_op_run env) ops (x, newConnector)) =
     (Ok (), fold (connector_op_run env) ops (x, newConnector))"
proof -
  obtain x' c' where s: "fold (connector_op_run env) ops (x, newConnector) = (x', c')" by fastforce
  have "cnStompClient c' = None" by (rule no_client_after [OF _ s]) (simp add: newConnector_def)
  then show ?thesis by (simp add: s Disconnect_def)
qed

section \<open>A mail closes what it opens\<close>

text \<open>
  The contract of the SMTP library: \<open>conns\<close> counts open connections, and writers that have not been
  closed; a dial that succeeds opens one, \<open>Data\<close> that succeeds as well.
\<close>

locale smtp_library =
  fixes env :: "'x smtp_env" and conns :: "'x \<Rightarrow> nat"
  assumes dial: "smDial env server x = (r, x') \<Longrightarrow> conns x' = (case r of Ok c \<Rightarrow> Suc (conns x) | _ \<Rightarrow> conns x)"
    and data: "smData env c x = (r, x') \<Longrightarrow> conns x' = (case r of Ok wc \<Rightarrow> Suc (conns x) | _ \<Rightarrow> conns x)"
    and talk: "smMail env c a x = (q, x') \<Longrightarrow> conns x' = conns x" "smRcpt env c a x = (q, x') \<Longrightarrow> conns x' = conns x"
      "smWrite env c a x = (q, x') \<Longrightarrow> conns x' = conns x"
    and close: "smClose env c x = (q, x') \<Longrightarrow> conns x' = conns x - 1"
      "smCloseData env c x = (q, x') \<Longrightarrow> conns x' = conns x - 1"
begin

lemma keeps_logged:
  assumes "keeps P m" and "\<And>c. keeps P (f c)"
  shows "keeps P (logged m f)"
  unfolding logged_def by (intro go_keeps assms)

lemma keeps_opened:
  assumes opens: "\<And>x r x'. open x = (r, x') \<Longrightarrow> conns x' = (case r of Ok c \<Rightarrow> Suc (conns x) | _ \<Rightarrow> conns x)"
    and closes: "\<And>c x r x'. shut c x = (r, x') \<Longrightarrow> conns x' = conns x - 1"
    and body: "\<And>c m. keeps (\<lambda>x. conns x = m) (body c)"
  shows "keeps (\<lambda>x. conns x = n) (logged open (\<lambda>c. gdefer (shut c) (body c)))"
proof (rule keepsI)
  fix x assume n: "conns x = n"
  obtain r x1 where o: "open x = (r, x1)" by fastforce
  show "conns (snd (logged open (\<lambda>c. gdefer (shut c) (body c)) x)) = n"
  proof (cases r)
    case (Ok c)
    obtain q x2 where b: "body c x1 = (q, x2)" by fastforce
    obtain q' x3 where s: "shut c x2 = (q', x3)" by fastforce
    from opens [OF o] Ok n have "conns x1 = Suc n" by simp
    with keepsD [OF body, of x1 "Suc n" c] b have "conns x2 = Suc n" by simp
    with closes [OF s] have "conns x3 = n" by simp
    with Ok o b s show ?thesis by (cases q') (simp_all add: logged_def gtry_run gdefer_def)
  qed (use opens [OF o] o n in \<open>simp_all add: logged_def gtry_run gret_run\<close>)
qed

lemma closed_again: "conns (snd (SendNotification env server port ms recipient content x)) = conns x"
proof -
  have talks: "keeps (\<lambda>x. conns x = m) (smMail env c a)" "keeps (\<lambda>x. conns x = m) (smRcpt env c a)"
    "keeps (\<lambda>x. conns x = m) (smWrite env c a)" for c a m
    by (auto intro!: keepsI simp: talk [OF prod.collapse [symmetric]])
  have "keeps (\<lambda>y. conns y = conns x) (SendNotification env server port ms recipient content)"
    unfolding SendNotification_def
    by (intro keeps_opened keeps_logged talks go_keeps) (auto dest: dial data close)
  then show ?thesis by (auto dest: keepsD)
qed

end

text \<open>A server that refuses the recipient \<open>nobody\<close>; the state counts what is open.\<close>

definition count_smtp :: "nat smtp_env" where
  "count_smtp = \<lparr>smDial = (\<lambda>server n. (Ok 1, Suc n)), smMail = (\<lambda>c a. gret ()),
     smRcpt = (\<lambda>c a. if a = ''nobody'' then gerr (PlainError ''550'') else gret ()),
     smData = (\<lambda>c n. (Ok 2, Suc n)), smWrite = (\<lambda>wc content. gret ()),
     smCloseData = (\<lambda>wc n. (Ok (), n - 1)), smClose = (\<lambda>c n. (Ok (), n - 1))\<rparr>"

interpretation count_smtp: smtp_library count_smtp id
  by unfold_locales (auto simp: count_smtp_def go_simps split: if_splits)

text \<open>
  However the delivery of a mail ends (at a refused sender or recipient, at a write error, or
  well), the connection and the writer it has opened are closed.
\<close>

theorem notification_closes:
  assumes "smtp_library env conns"
  shows "conns (snd (SendNotification env server port ms recipient content x)) = conns x"
  by (rule smtp_library.closed_again [OF assms])

lemma notification_closes_witness:
  "snd (SendNotification count_smtp ''mail'' ''25'' \<lparr>msUserEmail = ''me'', msFormat = concat\<rparr> ''nobody'' ''hi'' 0) = 0"
  using notification_closes [OF count_smtp.smtp_library_axioms,
    of "''mail''" "''25''" "\<lparr>msUserEmail = ''me'', msFormat = concat\<rparr>" "''nobody''" "''hi''" 0] by simp

end
