(* ===== verification/Spec2Isabelle.thy ===== *)
theory Spec2Isabelle
  imports EndToEnd TmWatch CacheTime Sockets
begin

text \<open>
  A verification development for \<open>site-management-service\<close>, the service that keeps the schemes of the
  tenants of a cloud (which host belongs to which service of which tenant) in a database and follows
  the routes, services and config maps of the platform through a mediation service.

  \<^bold>\<open>Parts of the program and their theories.\<close>
    \<^item> \<open>Prelude\<close>: the state and error monad \<open>go\<close> (a Go function that returns an error is a value of
      \<open>result\<close>: \<open>Ok\<close>, \<open>Err\<close> or \<open>Panic\<close>), loops \<open>gfor\<close> and \<open>gfold\<close> that end at the first error, and
      \<open>gomap\<close>, a Go map with its nil value, whose range order is the order of an association list.
    \<^item> \<open>GoLib\<close>, \<open>NetUrl\<close>, \<open>Crc32\<close>: what the source uses of \<open>strings\<close>, \<open>strconv\<close>, slices, \<open>net/url\<close> and
      \<open>hash/crc32\<close>.
    \<^item> \<open>PaasDomain\<close>: \<open>paasMediationClient/domain/*.go\<close> and \<open>paasMediationClient/cache.go\<close>.
    \<^item> \<open>TenantDomain\<close>, \<open>TenantLemmas\<close>: \<open>domain/domain.go\<close>, the tenant scheme \<open>TenantDns\<close> as the record
      \<open>tenant_dns\<close> and its conversions; the second theory proves their properties.
    \<^item> \<open>SchemeValidator\<close>: \<open>domain/validator/schemevalidator.go\<close>.
    \<^item> \<open>StringSet\<close>: \<open>utils/stringset.go\<close>.
    \<^item> \<open>Dao\<close>: \<open>dao/pg/dao.go\<close>. The database driver is the parameter \<open>pg_client\<close>, the locale \<open>postgres\<close>
      states what its queries do to the table, \<open>tenant_store\<close> is the contract of the operations, and
      the interpretation \<open>mem\<close> is a table in memory.
    \<^item> \<open>PaasCache\<close>, \<open>PaasClient\<close>, \<open>PaasClientLemmas\<close>: \<open>paasMediationClient/paasMediationClient.go\<close>. The
      HTTP executor, the JSON decoders, the watch channels and what other goroutines do while one
      sleeps are the parameter \<open>pm_env\<close>. The locale \<open>keyed_cache\<close> is the contract of the three caches for
      events that are no INIT event; \<open>PaasClient\<close> adds the INIT branch.
    \<^item> \<open>HttpClient\<close>: \<open>utils/client_utils.go\<close> and \<open>http/rest/client.go\<close>, requests with a token of the
      service; the locale \<open>m2m_sender\<close> is the contract of the executors.
    \<^item> \<open>Idp\<close>: \<open>idp/*.go\<close>, the facade of the identity provider, and the goroutines that retry a
      request in the background as the step relation \<open>retry_step\<close>.
    \<^item> \<open>Tm\<close>: \<open>tm/client.go\<close>, \<open>tm/watch.go\<close> and the cache of active tenants of the synchronizer. The
      locale \<open>http_frame\<close> states that a request does not write to the table, \<open>tm_world\<close> joins it to
      \<open>postgres\<close>.
    \<^item> \<open>TmWatch\<close>: the goroutine of the watch and a call of \<open>StopWatching\<close> (\<open>tm/watch.go\<close>) as a step
      relation over the fields they share; when a stop ends, when it hangs, what it misses.
    \<^item> \<open>Outbound\<close>: \<open>composite/sm.go\<close> and the text of the mails of \<open>messaging/mailsender.go\<close>.
    \<^item> \<open>SyncBasics\<close>: the pure functions of \<open>synchronizer/synchronizer.go\<close>. \<open>SyncUpsert\<close>, \<open>SyncPass\<close>,
      \<open>SyncQueries\<close> and \<open>VirtualServices\<close> model its methods over the state \<open>sync_state\<close>: the writes of
      a tenant, one pass of the synchronization, the queries and the tenants of the tenant manager,
      and the virtual services.
    \<^item> \<open>SyncWorld\<close>, \<open>SyncTheorems\<close>, \<open>SyncChecks\<close>: what these methods do to the stored tenants. The locale
      \<open>pm_frame\<close> says that the mediation service does not write to the table, \<open>sync_world\<close> joins it to the
      laws of the database and of the tenant manager; \<open>mem_sync\<close> is its instance over a table in memory.
      \<open>SyncCreate\<close>: the routes a pass creates, and that a second pass finds them. \<open>SyncConverge\<close>: a whole
      pass brings the routes of the own namespace to what the tenants demand and keeps them there.
    \<^item> \<open>Controller\<close>, \<open>ApiTheorems\<close>: \<open>controller/api.go\<close>, one definition per handler over functions that
      stand for the request, and the table of paths of \<open>lib/runner.go\<close>.
    \<^item> \<open>PaasSync\<close>: \<open>paasMediationClient/websocketclient.go\<close> and the loops of \<open>paasMediationClient.go\<close> that
      apply the messages of the platform to the caches. A channel is the list of its messages; the
      locale \<open>pm_calm\<close> says that the HTTP executor does not panic. The last section is what the routes
      cache holds after any events, INIT events included.
    \<^item> \<open>CacheTime\<close>: the goroutines that keep the time of the last update (\<open>paasMediationClient.go\<close>) as a step
      relation, and when that time can go back.
    \<^item> \<open>Sockets\<close>: the headers of a web socket dial (\<open>utils/client_utils.go\<close>, \<open>http/websocket/*.go\<close>) and the
      delivery of a mail; the locales \<open>ws_sender\<close> and \<open>smtp_library\<close> are the contracts of the libraries.
    \<^item> \<open>Migration\<close>: \<open>migration/*.go\<close>. The SQL of the three evolutions is modelled as what it does to tables;
      the locale \<open>migration_library\<close> is the contract of the library that runs them.
    \<^item> \<open>Service\<close>, \<open>ServiceTheorems\<close>: the start (\<open>lib/runner.go\<close>, \<open>New\<close> of the synchronizer), the running
      service as the step relation \<open>service_step\<close> over the inputs of all its goroutines, and the exit
      code (\<open>utils/shutdown_hook.go\<close>). The locale \<open>outer_part\<close> carries an invariant through every operation.
      \<open>EndToEnd\<close> follows a tenant from the request that stores it to its routes.

  \<^bold>\<open>How the parts interact.\<close> A request of \<open>Controller\<close> or an event of the watch in \<open>Tm\<close> changes the table
  of tenants through \<open>Dao\<close> and sends a signal (\<open>Sync\<close>); a turn of the loop (\<open>sync_turn\<close>) takes the signal and
  runs a pass of \<open>SyncPass\<close>, which compares the table with the caches of \<open>PaasClient\<close> and creates or deletes
  routes of the platform; \<open>PaasSync\<close> brings the platform's answer back into the caches and tells the identity
  provider (\<open>Idp\<close>) the new hosts.

  \<^bold>\<open>What is shown.\<close> Of the writes: a stored tenant is exactly the prepared one or the table is as it was, no
  pass removes a live tenant, a removed one is deleted. Of a pass: which routes it deletes and which it
  creates, and that on a platform that answers it settles. Of the watch: which frames reach the cache of
  active tenants and what that holds after them, and when its stop
  returns. Of the caches: the routes cache holds what the last event said, which messages stop the service and which
  cannot, when the time of the last update goes back. Of the schemes:
  the round trip through routes, the verdict of the validator. Of the interface: the statuses of the answers and some
  requests that get none, exactly which requests are refused as malformed, the answer to a stored tenant. Of the whole: the invariant of the bus and of the active tenants
  under every interleaving of inputs, what a start requires and its exit code, and that a stored tenant gets its routes. Some theorems state what the code does
  where it does not do what it means to; the findings of the manifest name them.

  \<^bold>\<open>Bounds.\<close> A retried request makes 12 attempts (\<open>attempts\<close>), structural recursion on the attempts
  that are left. Waiting for an unknown namespace looks at the cache 6 times (\<open>attemptsInit + 1\<close>).
  The walk through the composite namespaces ends because each step removes a config map.
  The wait for a service of another namespace looks 10 times, \<open>AwaitAction\<close> looks 90 times, the channel
  of events of the synchronizer holds 16 of them. The search for a free service name runs on the fuel
  \<open>seFuel\<close>; the loop over the tenants of the tenant manager has no bound in the code and is a
  \<open>partial_function\<close>.

  A channel loop of \<open>PaasSync\<close> gives up after 10 panics in a row (\<open>attemptsWs\<close>). A run of the service is a
  finite sequence of steps, each of them an operation with its own bound.

  \<^bold>\<open>Not modelled.\<close> Logging, contexts, mutexes (each operation of the running service is one step, although
  the code lets operations of different goroutines overlap; a change of the outside world or of the
  caches can come between any two steps), the web framework's matching of paths, the libraries of sockets,
  JSON, STOMP, SMTP and SQL, the consul property source (the configuration is a parameter), health and
  profiling endpoints, the generated documentation in \<open>docs\<close> and the registration of dummy
  implementations in \<open>server.go\<close>. The evolutions are modelled for sites that are objects of objects. A
  body that is decoded in part before an error leaves the target of a request as it was, and of the start
  only the loop over the tenants of the tenant manager can fail to end.
\<close>

end
